(* ===== verification/Prelude.thy ===== *)
theory Prelude
  imports Main "HOL-Library.Char_ord" "HOL-Library.List_Lexorder"
begin

text \<open>
  Shared vocabulary of the development: the exception-or-value sum used for JavaScript code that
  throws, the string primitives of the language the sources use (\<open>split\<close>, \<open>padStart\<close>, \<open>Number\<close> on
  decimal digits, \<open>startsWith\<close>, \<open>includes\<close>), \<open>WHERE\<close>-style updates of a list of rows, and the
  collections of hints the component theories add to.
\<close>

named_theorems prog_simps \<open>unfolding rules of the program combinators and of single statements\<close>
named_theorems pres_intros \<open>introduction rules: a program keeps an invariant of the tables\<close>
named_theorems table_simps \<open>projections of the tables after a write\<close>

subsection \<open>Exception or value\<close>

definition sbind :: "'e + 'a \<Rightarrow> ('a \<Rightarrow> 'e + 'b) \<Rightarrow> 'e + 'b" where
  "sbind m f = (case m of Inl e \<Rightarrow> Inl e | Inr a \<Rightarrow> f a)"

lemma sbind_simps [simp]:
  "sbind (Inl e) f = Inl e"
  "sbind (Inr a) f = f a"
  by (simp_all add: sbind_def)

lemma sbind_Inr_iff:
  "sbind m f = Inr b \<longleftrightarrow> (\<exists>a. m = Inr a \<and> f a = Inr b)"
  by (cases m) simp_all

subsection \<open>Truthiness\<close>

text \<open>\<open>x || null\<close> on an optional string: the empty string is falsy.\<close>

fun truthy :: "string option \<Rightarrow> string option" where
  "truthy None = None"
| "truthy (Some s) = (if s = [] then None else Some s)"

lemma truthy_Some [simp]: "s \<noteq> [] \<Longrightarrow> truthy (Some s) = Some s"
  by simp

lemma truthy_eq_Some: "truthy x = Some s \<longleftrightarrow> x = Some s \<and> s \<noteq> []"
  by (cases x) auto

definition or_else :: "string option \<Rightarrow> string \<Rightarrow> string" where
  "or_else x d = (case truthy x of None \<Rightarrow> d | Some s \<Rightarrow> s)"

subsection \<open>Splitting and searching strings\<close>

text \<open>\<open>s.split(c)\<close>: never empty, one piece more than there are separators.\<close>

fun split_on :: "char \<Rightarrow> string \<Rightarrow> string list" where
  "split_on c [] = [[]]"
| "split_on c (x # xs) =
     (if x = c then [] # split_on c xs
      else (case split_on c xs of [] \<Rightarrow> [[x]] | y # ys \<Rightarrow> (x # y) # ys))"

lemma split_on_not_Nil [simp]: "split_on c s \<noteq> []"
  by (induction s) (auto split: list.splits)

lemma split_on_no_sep: "c \<notin> set s \<Longrightarrow> split_on c s = [s]"
  by (induction s) auto

lemma split_on_append_sep:
  "c \<notin> set s \<Longrightarrow> split_on c (s @ c # t) = s # split_on c t"
  by (induction s) auto

text \<open>\<open>s.startsWith(p)\<close> and \<open>s.includes(p)\<close>.\<close>

fun starts_with :: "string \<Rightarrow> string \<Rightarrow> bool" where
  "starts_with [] s = True"
| "starts_with (p # ps) [] = False"
| "starts_with (p # ps) (x # xs) = (p = x \<and> starts_with ps xs)"

fun str_includes :: "string \<Rightarrow> string \<Rightarrow> bool" where
  "str_includes p [] = (p = [])"
| "str_includes p (x # xs) = (starts_with p (x # xs) \<or> str_includes p xs)"

lemma starts_with_iff: "starts_with p s \<longleftrightarrow> (\<exists>t. s = p @ t)"
  by (induction p s rule: starts_with.induct) auto

lemma includes_iff: "str_includes p s \<longleftrightarrow> (\<exists>u v. s = u @ p @ v)"
proof (induction s)
  case Nil
  show ?case by simp
next
  case (Cons x xs)
  show ?case
  proof
    assume "str_includes p (x # xs)"
    then consider "starts_with p (x # xs)" | "str_includes p xs" by auto
    then show "\<exists>u v. x # xs = u @ p @ v"
    proof cases
      case 1
      then obtain t where "x # xs = p @ t" by (auto simp only: starts_with_iff)
      then have "x # xs = [] @ p @ t" by simp
      then show ?thesis by blast
    next
      case 2
      then obtain u v where "xs = u @ p @ v" using Cons.IH by blast
      then have "x # xs = (x # u) @ p @ v" by simp
      then show ?thesis by blast
    qed
  next
    assume "\<exists>u v. x # xs = u @ p @ v"
    then obtain u v where uv: "x # xs = u @ p @ v" by blast
    show "str_includes p (x # xs)"
    proof (cases u)
      case Nil
      with uv have "starts_with p (x # xs)" by (auto simp only: starts_with_iff append_Nil)
      then show ?thesis by simp
    next
      case (Cons a u')
      with uv have "xs = u' @ p @ v" by simp
      then have "str_includes p xs" using Cons.IH by blast
      then show ?thesis by simp
    qed
  qed
qed

subsection \<open>Decimal digits\<close>

definition digit_char :: "int \<Rightarrow> char" where
  "digit_char d = char_of (48 + nat d)"

definition is_digit :: "char \<Rightarrow> bool" where
  "is_digit c \<longleftrightarrow> 48 \<le> (of_char c :: nat) \<and> (of_char c :: nat) \<le> 57"

definition digit_val :: "char \<Rightarrow> int" where
  "digit_val c = int (of_char c) - 48"

lemma of_digit_char:
  "0 \<le> d \<Longrightarrow> d \<le> 9 \<Longrightarrow> (of_char (digit_char d) :: nat) = 48 + nat d"
  by (simp add: digit_char_def)

lemma is_digit_digit_char [simp]: "0 \<le> d \<Longrightarrow> d \<le> 9 \<Longrightarrow> is_digit (digit_char d)"
  by (simp add: is_digit_def of_digit_char)

lemma digit_val_digit_char [simp]: "0 \<le> d \<Longrightarrow> d \<le> 9 \<Longrightarrow> digit_val (digit_char d) = d"
  by (simp add: digit_val_def of_digit_char)

lemma digit_char_less_iff:
  "0 \<le> d \<Longrightarrow> d \<le> 9 \<Longrightarrow> 0 \<le> e \<Longrightarrow> e \<le> 9 \<Longrightarrow>
     digit_char d < digit_char e \<longleftrightarrow> d < e"
  by (auto simp: less_char_def of_digit_char)

lemma digit_char_eq_iff:
  "0 \<le> d \<Longrightarrow> d \<le> 9 \<Longrightarrow> 0 \<le> e \<Longrightarrow> e \<le> 9 \<Longrightarrow>
     digit_char d = digit_char e \<longleftrightarrow> d = e"
  by (metis digit_val_digit_char)

lemma digit_char_neq_nondigit:
  "0 \<le> d \<Longrightarrow> d \<le> 9 \<Longrightarrow> \<not> is_digit c \<Longrightarrow> digit_char d \<noteq> c"
  using is_digit_digit_char by blast

text \<open>\<open>String(n).padStart(w, '0')\<close> for \<open>0 \<le> n < 10 ^ w\<close>: exactly \<open>w\<close> digits.\<close>

fun pad_digits :: "nat \<Rightarrow> int \<Rightarrow> string" where
  "pad_digits 0 n = []"
| "pad_digits (Suc w) n = pad_digits w (n div 10) @ [digit_char (n mod 10)]"

lemma length_pad_digits [simp]: "length (pad_digits w n) = w"
  by (induction w arbitrary: n) auto

lemma pad_digits_are_digits: "c \<in> set (pad_digits w n) \<Longrightarrow> is_digit c"
  by (induction w arbitrary: n) auto

lemma nondigit_notin_pad_digits: "\<not> is_digit c \<Longrightarrow> c \<notin> set (pad_digits w n)"
  using pad_digits_are_digits by blast

lemma pad_digits_inj:
  "0 \<le> a \<Longrightarrow> a < 10 ^ w \<Longrightarrow> 0 \<le> b \<Longrightarrow> b < 10 ^ w \<Longrightarrow>
     pad_digits w a = pad_digits w b \<longleftrightarrow> a = b"
proof (induction w arbitrary: a b)
  case 0
  then show ?case by simp
next
  case (Suc w)
  have "pad_digits (Suc w) a = pad_digits (Suc w) b \<longleftrightarrow>
      pad_digits w (a div 10) = pad_digits w (b div 10) \<and> a mod 10 = b mod 10"
    by (simp add: digit_char_eq_iff)
  also have "\<dots> \<longleftrightarrow> a div 10 = b div 10 \<and> a mod 10 = b mod 10"
    using Suc.IH [of "a div 10" "b div 10"] Suc.prems by (simp add: div_less_iff_less_mult)
  also have "\<dots> \<longleftrightarrow> a = b"
    by (metis div_mult_mod_eq)
  finally show ?case .
qed

lemma append_less_iff_same_length:
  fixes a b :: "'a::linorder list"
  assumes "length a = length b"
  shows "a @ s < b @ t \<longleftrightarrow> a < b \<or> a = b \<and> s < t"
  using assms by (induction a b rule: list_induct2) auto

lemma less_iff_div_mod_10:
  "(a::int) < b \<longleftrightarrow> a div 10 < b div 10 \<or> a div 10 = b div 10 \<and> a mod 10 < b mod 10"
proof -
  have "a = 10 * (a div 10) + a mod 10" "b = 10 * (b div 10) + b mod 10" by simp_all
  moreover have "0 \<le> a mod 10" "a mod 10 < 10" "0 \<le> b mod 10" "b mod 10 < 10" by simp_all
  ultimately show ?thesis by linarith
qed

lemma pad_digits_less_iff:
  "0 \<le> a \<Longrightarrow> a < 10 ^ w \<Longrightarrow> 0 \<le> b \<Longrightarrow> b < 10 ^ w \<Longrightarrow>
     pad_digits w a < pad_digits w b \<longleftrightarrow> a < b"
proof (induction w arbitrary: a b)
  case 0
  then show ?case by simp
next
  case (Suc w)
  have bounds: "0 \<le> a div 10" "a div 10 < 10 ^ w" "0 \<le> b div 10" "b div 10 < 10 ^ w"
    using Suc.prems by (simp_all add: div_less_iff_less_mult)
  have "pad_digits (Suc w) a < pad_digits (Suc w) b \<longleftrightarrow>
      a div 10 < b div 10 \<or> a div 10 = b div 10 \<and> a mod 10 < b mod 10"
    using Suc.IH [OF bounds] pad_digits_inj [OF bounds]
    by (simp add: append_less_iff_same_length digit_char_less_iff)
  also have "\<dots> \<longleftrightarrow> a < b"
    by (rule less_iff_div_mod_10 [symmetric])
  finally show ?case .
qed

text \<open>
  \<open>Number(s)\<close> on the numerals the sources feed it: a run of decimal digits with an optional plus
  sign, and the empty string, which is 0. Any other text is \<open>NaN\<close> here.
\<close>

definition digits_val :: "string \<Rightarrow> int" where
  "digits_val s = fold (\<lambda>c v. 10 * v + digit_val c) s 0"

definition js_number :: "string \<Rightarrow> int option" where
  "js_number s =
     (let t = (case s of c # r \<Rightarrow> if c = CHR ''+'' \<and> r \<noteq> [] then r else s | [] \<Rightarrow> [])
      in if list_all is_digit t then Some (digits_val t) else None)"

text \<open>\<open>parseInt(s, 10)\<close>: the leading digits, \<open>NaN\<close> when there are none.\<close>

definition parse_int :: "string \<Rightarrow> int option" where
  "parse_int s = (let t = takeWhile is_digit s in if t = [] then None else Some (digits_val t))"

lemma digits_val_snoc: "digits_val (s @ [c]) = 10 * digits_val s + digit_val c"
  by (simp add: digits_val_def)

lemma digits_val_pad:
  "0 \<le> n \<Longrightarrow> n < 10 ^ w \<Longrightarrow> digits_val (pad_digits w n) = n"
proof (induction w arbitrary: n)
  case 0
  then show ?case by (simp add: digits_val_def)
next
  case (Suc w)
  have "digits_val (pad_digits w (n div 10)) = n div 10"
    using Suc by (simp add: div_less_iff_less_mult)
  then show ?case by (simp add: digits_val_snoc)
qed

lemma list_all_digit_pad [simp]: "list_all is_digit (pad_digits w n)"
  using pad_digits_are_digits by (auto simp: list_all_iff)

lemma is_digit_plus [simp]: "\<not> is_digit CHR ''+''"
  and is_digit_dash [simp]: "\<not> is_digit CHR ''-''"
  and is_digit_colon [simp]: "\<not> is_digit CHR '':''"
  and is_digit_T [simp]: "\<not> is_digit CHR ''T''"
  and is_digit_Z [simp]: "\<not> is_digit CHR ''Z''"
  and is_digit_dot [simp]: "\<not> is_digit CHR ''.''"
  by (simp_all add: is_digit_def)

lemma js_number_digits:
  "list_all is_digit s \<Longrightarrow> js_number s = Some (digits_val s)"
  by (cases s) (auto simp: js_number_def Let_def)

lemma js_number_pad [simp]:
  "0 \<le> n \<Longrightarrow> n < 10 ^ w \<Longrightarrow> js_number (pad_digits w n) = Some n"
  by (simp add: js_number_digits digits_val_pad)

lemma js_number_plus_pad [simp]:
  "0 \<le> n \<Longrightarrow> n < 10 ^ w \<Longrightarrow> 0 < w \<Longrightarrow> js_number (CHR ''+'' # pad_digits w n) = Some n"
proof -
  assume a: "0 \<le> n" "n < 10 ^ w" "0 < w"
  then have "pad_digits w n \<noteq> []" by (metis length_pad_digits less_numeral_extra(3) list.size(3))
  with a show ?thesis by (simp add: js_number_def digits_val_pad)
qed

lemma parse_int_pad [simp]:
  "0 \<le> n \<Longrightarrow> n < 10 ^ w \<Longrightarrow> 0 < w \<Longrightarrow> parse_int (pad_digits w n) = Some n"
proof -
  assume a: "0 \<le> n" "n < 10 ^ w" "0 < w"
  have "takeWhile is_digit (pad_digits w n) = pad_digits w n"
    by (simp add: takeWhile_eq_all_conv pad_digits_are_digits)
  moreover have "pad_digits w n \<noteq> []"
    using a(3) by (metis length_pad_digits less_numeral_extra(3) list.size(3))
  ultimately show ?thesis using a by (simp add: parse_int_def digits_val_pad del: takeWhile_eq_all_conv)
qed

text \<open>The decimal text of an integer, as a template string writes it.\<close>

fun nat_text :: "nat \<Rightarrow> string" where
  "nat_text n = (if n < 10 then [digit_char (int n)] else nat_text (n div 10) @ [digit_char (int (n mod 10))])"

declare nat_text.simps [simp del]

definition int_text :: "int \<Rightarrow> string" where
  "int_text n = (if n < 0 then CHR ''-'' # nat_text (nat (- n)) else nat_text (nat n))"

lemma nat_text_value: "list_all is_digit (nat_text n) \<and> digits_val (nat_text n) = int n"
proof (induction n rule: nat_text.induct)
  case (1 n)
  show ?case
  proof (cases "n < 10")
    case True
    then show ?thesis by (simp add: nat_text.simps digits_val_def)
  next
    case False
    then have "list_all is_digit (nat_text (n div 10))" "digits_val (nat_text (n div 10)) = int (n div 10)"
      using 1 by simp_all
    moreover have "10 * int (n div 10) + int (n mod 10) = int n"
      by (simp add: zdiv_int zmod_int)
    ultimately show ?thesis using False by (simp add: nat_text.simps [of n] digits_val_snoc)
  qed
qed

lemma int_text_inj: "int_text a = int_text b \<longleftrightarrow> a = b"
proof
  have dash: "CHR ''-'' # s \<noteq> nat_text n" for s n
    using nat_text_value [of n] by (metis is_digit_dash list.pred_inject(2))
  assume "int_text a = int_text b"
  then have "a < 0 \<longleftrightarrow> b < 0" and "nat_text (nat \<bar>a\<bar>) = nat_text (nat \<bar>b\<bar>)"
    using dash dash [THEN not_sym] by (auto simp: int_text_def split: if_splits)
  then show "a = b" using nat_text_value by (metis abs_if int_nat_eq abs_ge_zero minus_equation_iff)
qed simp

subsection \<open>Rows\<close>

text \<open>\<open>UPDATE table SET f WHERE p\<close> on a table held as its list of rows.\<close>

definition upd_where :: "('r \<Rightarrow> bool) \<Rightarrow> ('r \<Rightarrow> 'r) \<Rightarrow> 'r list \<Rightarrow> 'r list" where
  "upd_where p f rows = map (\<lambda>r. if p r then f r else r) rows"

lemma upd_where_Nil [simp]: "upd_where p f [] = []"
  and upd_where_Cons [simp]:
    "upd_where p f (r # rows) = (if p r then f r else r) # upd_where p f rows"
  by (simp_all add: upd_where_def)

lemma set_upd_where: "set (upd_where p f rows) = (\<lambda>r. if p r then f r else r) ` set rows"
  by (simp add: upd_where_def)

lemma length_upd_where [simp]: "length (upd_where p f rows) = length rows"
  by (simp add: upd_where_def)

lemma map_upd_where:
  "(\<And>r. p r \<Longrightarrow> k (f r) = k r) \<Longrightarrow> map k (upd_where p f rows) = map k rows"
  by (simp add: upd_where_def)

lemma image_upd_where:
  "(\<And>r. p r \<Longrightarrow> k (f r) = k r) \<Longrightarrow> k ` set (upd_where p f rows) = k ` set rows"
  by (metis list.set_map map_upd_where)

lemma upd_where_none: "(\<And>r. r \<in> set rows \<Longrightarrow> \<not> p r) \<Longrightarrow> upd_where p f rows = rows"
  by (simp add: upd_where_def map_idI)

lemma filter_upd_where_unaffected:
  "(\<And>r. p r \<Longrightarrow> q (f r) = q r \<and> \<not> q r) \<Longrightarrow> filter q (upd_where p f rows) = filter q rows"
  by (induction rows) auto

lemma in_upd_whereE:
  assumes "x \<in> set (upd_where p f rows)"
  obtains "x \<in> set rows" "\<not> p x" | r where "r \<in> set rows" "p r" "x = f r"
  using assms by (auto simp: set_upd_where split: if_splits)

lemma distinct_map_eqD:
  "distinct (map k rows) \<Longrightarrow> x \<in> set rows \<Longrightarrow> y \<in> set rows \<Longrightarrow> k x = k y \<Longrightarrow> x = y"
  by (metis distinct_map inj_onD)

lemma filter_key_unique:
  "distinct (map k rows) \<Longrightarrow> length (filter (\<lambda>r. k r = v) rows) \<le> 1"
proof (induction rows)
  case Nil
  then show ?case by simp
next
  case (Cons r rows)
  show ?case
  proof (cases "k r = v")
    case True
    with Cons.prems have "\<forall>x \<in> set rows. k x \<noteq> v" by simp (metis imageI)
    then have "filter (\<lambda>r. k r = v) rows = []" by (simp add: filter_empty_conv)
    with True show ?thesis by simp
  next
    case False
    with Cons show ?thesis by simp
  qed
qed

lemma filter_key_Cons:
  assumes "distinct (map k rows)" and "filter (\<lambda>r. k r = v) rows = x # xs"
  shows "x \<in> set rows" "k x = v" "xs = []"
proof -
  have "x \<in> set (filter (\<lambda>r. k r = v) rows)" using assms(2) by simp
  then show "x \<in> set rows" "k x = v" by simp_all
  show "xs = []"
    using filter_key_unique [OF assms(1), of v] assms(2) by simp
qed

end
