(* ===== verification/Calendar.thy ===== *)
theory Calendar
  imports Prelude
begin

text \<open>
  The proleptic ISO calendar that \<open>Temporal.PlainDate\<close>, \<open>Date\<close> and the ISO 8601 text of an
  instant are built on: civil dates, their day number, the ISO weekday, the date after a date,
  and the text form of dates and instants with its order. Instants are milliseconds since the
  epoch throughout the development; the text form is computed from them where the sources use it
  (sorting, splitting, the JSON text of a request).
\<close>

subsection \<open>Civil dates\<close>

datatype civil = Civil (c_year: int) (c_month: int) (c_day: int)

definition leap :: "int \<Rightarrow> bool" where
  "leap y \<longleftrightarrow> y mod 4 = 0 \<and> (y mod 100 \<noteq> 0 \<or> y mod 400 = 0)"

definition days_in_month :: "int \<Rightarrow> int \<Rightarrow> int" where
  "days_in_month y m =
     (if m = 2 then (if leap y then 29 else 28)
      else if m = 4 \<or> m = 6 \<or> m = 9 \<or> m = 11 then 30 else 31)"

fun valid_civil :: "civil \<Rightarrow> bool" where
  "valid_civil (Civil y m d) \<longleftrightarrow>
     1 \<le> m \<and> m \<le> 12 \<and> 1 \<le> d \<and> d \<le> days_in_month y m"

instantiation civil :: linorder
begin

definition less_civil :: "civil \<Rightarrow> civil \<Rightarrow> bool" where
  "less_civil a b \<longleftrightarrow>
     c_year a < c_year b \<or> c_year a = c_year b \<and>
       (c_month a < c_month b \<or> c_month a = c_month b \<and> c_day a < c_day b)"

definition less_eq_civil :: "civil \<Rightarrow> civil \<Rightarrow> bool" where
  "less_eq_civil a b \<longleftrightarrow> a < b \<or> a = b"

instance
proof
  fix x y z :: civil
  show "x < y \<longleftrightarrow> x \<le> y \<and> \<not> y \<le> x"
    by (cases x; cases y) (auto simp: less_civil_def less_eq_civil_def)
  show "x \<le> x"
    by (simp add: less_eq_civil_def)
  show "x \<le> y \<Longrightarrow> y \<le> z \<Longrightarrow> x \<le> z"
    by (cases x; cases y; cases z) (auto simp: less_civil_def less_eq_civil_def)
  show "x \<le> y \<Longrightarrow> y \<le> x \<Longrightarrow> x = y"
    by (cases x; cases y) (auto simp: less_civil_def less_eq_civil_def)
  show "x \<le> y \<or> y \<le> x"
    by (cases x; cases y) (auto simp: less_civil_def less_eq_civil_def)
qed

end

subsection \<open>Day numbers\<close>

definition days_before_year :: "int \<Rightarrow> int" where
  "days_before_year y = 365 * y + (y - 1) div 4 - (y - 1) div 100 + (y - 1) div 400"

definition days_before_month :: "int \<Rightarrow> int \<Rightarrow> int" where
  "days_before_month y m =
     (if m \<le> 1 then 0 else if m = 2 then 31 else
      (if m = 3 then 59 else if m = 4 then 90 else if m = 5 then 120 else if m = 6 then 151
       else if m = 7 then 181 else if m = 8 then 212 else if m = 9 then 243
       else if m = 10 then 273 else if m = 11 then 304 else if m = 12 then 334 else 365)
      + (if leap y then 1 else 0))"

text \<open>Days since 1970-01-01.\<close>

fun epoch_day :: "civil \<Rightarrow> int" where
  "epoch_day (Civil y m d) = days_before_year y + days_before_month y m + d - 719528"

text \<open>\<open>getUTCDay() || 7\<close>: Monday is 1, Sunday is 7.\<close>

definition iso_weekday :: "int \<Rightarrow> int" where
  "iso_weekday n = (n + 3) mod 7 + 1"

text \<open>\<open>PlainDate.add({ days: 1 })\<close>.\<close>

fun next_civil :: "civil \<Rightarrow> civil" where
  "next_civil (Civil y m d) =
     (if d < days_in_month y m then Civil y m (d + 1)
      else if m < 12 then Civil y (m + 1) 1 else Civil (y + 1) 1 1)"

lemma epoch_day_origin: "epoch_day (Civil 1970 1 1) = 0"
  by (simp add: days_before_year_def days_before_month_def)

lemma epoch_day_sample: "epoch_day (Civil 2026 3 8) = 20520"
  by (simp add: days_before_year_def days_before_month_def leap_def)

lemma iso_weekday_bounds: "1 \<le> iso_weekday n \<and> iso_weekday n \<le> 7"
  unfolding iso_weekday_def by presburger

subsection \<open>The day number is strictly monotone and advances by one\<close>

lemma div_step:
  assumes "0 < k"
  shows "(y::int) div k = (y - 1) div k + (if y mod k = 0 then 1 else 0)"
proof (cases "y mod k = 0")
  case True
  have "y - 1 = k * (y div k - 1) + (k - 1)"
    using True by (simp add: algebra_simps minus_mod_eq_mult_div [symmetric])
  then have "(y - 1) div k = y div k - 1"
    by (rule int_div_pos_eq) (use assms in auto)
  with True show ?thesis by simp
next
  case False
  have "0 \<le> y mod k" "y mod k < k"
    using assms by simp_all
  with False have b: "0 \<le> y mod k - 1" "y mod k - 1 < k"
    by linarith+
  have "y - 1 = k * (y div k) + (y mod k - 1)"
    by (simp add: algebra_simps)
  then have "(y - 1) div k = y div k"
    by (rule int_div_pos_eq [OF _ b])
  with False show ?thesis by simp
qed

lemma nested_indicator:
  "(\<not> a \<or> b) \<Longrightarrow> (\<not> b \<or> c) \<Longrightarrow>
     (if c then 1 else 0) - (if b then 1 else 0) + (if a then 1 else (0::int))
       = (if c \<and> (\<not> b \<or> a) then 1 else 0)"
  by (cases a; cases b; cases c; simp)

lemma leap_count:
  "(if y mod 4 = 0 then 1 else 0) - (if y mod 100 = 0 then 1 else 0)
     + (if y mod 400 = 0 then 1 else (0::int)) = (if leap y then 1 else 0)"
proof -
  have "(400::int) dvd y \<Longrightarrow> 100 dvd y" "(100::int) dvd y \<Longrightarrow> 4 dvd y"
    by (rule dvd_trans [of _ "400::int"]; simp) (rule dvd_trans [of _ "100::int"]; simp)
  then have "y mod 400 \<noteq> 0 \<or> y mod 100 = 0" "y mod 100 \<noteq> 0 \<or> y mod 4 = 0"
    by (auto simp only: mod_eq_0_iff_dvd)
  then show ?thesis
    unfolding leap_def by (rule nested_indicator)
qed

lemma days_before_year_Suc:
  "days_before_year (y + 1) = days_before_year y + 365 + (if leap y then 1 else 0)"
proof -
  define a b c where "a = (if y mod 4 = 0 then 1 else (0::int))"
    and "b = (if y mod 100 = 0 then 1 else (0::int))"
    and "c = (if y mod 400 = 0 then 1 else (0::int))"
  have "y div 4 = (y - 1) div 4 + a" "y div 100 = (y - 1) div 100 + b"
    "y div 400 = (y - 1) div 400 + c"
    unfolding a_def b_def c_def by (rule div_step; simp)+
  moreover have "a - b + c = (if leap y then 1 else 0)"
    unfolding a_def b_def c_def by (rule leap_count)
  moreover have "days_before_year (y + 1) = 365 * y + 365 + y div 4 - y div 100 + y div 400"
    by (simp add: days_before_year_def)
  ultimately show ?thesis
    by (simp only: days_before_year_def)
qed

lemma month_cases:
  "1 \<le> (m::int) \<Longrightarrow> m \<le> 12 \<Longrightarrow> m = 1 \<or> m = 2 \<or> m = 3 \<or> m = 4 \<or> m = 5 \<or> m = 6 \<or> m = 7
     \<or> m = 8 \<or> m = 9 \<or> m = 10 \<or> m = 11 \<or> m = 12"
  by presburger

lemma days_before_month_Suc:
  "1 \<le> m \<Longrightarrow> m \<le> 12 \<Longrightarrow> days_before_month y (m + 1) = days_before_month y m + days_in_month y m"
  by (drule (1) month_cases, elim disjE) (simp_all add: days_before_month_def days_in_month_def)

lemma days_before_month_12:
  "days_before_month y 13 = 365 + (if leap y then 1 else 0)"
  by (simp add: days_before_month_def)

lemma days_in_month_pos: "28 \<le> days_in_month y m"
  by (simp add: days_in_month_def)

lemma days_before_month_mono:
  assumes "1 \<le> m" "m < k" "k \<le> 13"
  shows "days_before_month y m + days_in_month y m \<le> days_before_month y k"
proof -
  have "days_before_month y (m + 1) \<le> days_before_month y k" if "m + 1 \<le> k" "k \<le> 13" for k
    using that
  proof (induction k rule: int_ge_induct)
    case base
    show ?case by simp
  next
    case (step k)
    then show ?case
      using assms(1) days_before_month_Suc [of k y] days_in_month_pos [of y k] by simp
  qed
  with assms show ?thesis by (simp add: days_before_month_Suc)
qed

lemma days_before_year_mono: "y \<le> z \<Longrightarrow> days_before_year y \<le> days_before_year z"
proof (induction z rule: int_ge_induct)
  case base
  show ?case by simp
next
  case (step z)
  then show ?case using days_before_year_Suc [of z] by simp
qed

lemma days_before_month_nonneg: "0 \<le> days_before_month y m"
  by (simp add: days_before_month_def)

lemma day_of_year_bounds:
  assumes "valid_civil (Civil y m d)"
  shows "1 \<le> days_before_month y m + d"
    and "days_before_month y m + d \<le> 365 + (if leap y then 1 else 0)"
proof -
  show "1 \<le> days_before_month y m + d"
    using assms days_before_month_nonneg [of y m] by simp
  show "days_before_month y m + d \<le> 365 + (if leap y then 1 else 0)"
    using assms days_before_month_mono [of m 13 y] by (simp add: days_before_month_12)
qed

lemma epoch_day_strict_mono:
  assumes "valid_civil a" "valid_civil b" "a < b"
  shows "epoch_day a < epoch_day b"
proof (cases a; cases b)
  fix y m d z k e
  assume ab: "a = Civil y m d" "b = Civil z k e"
  note va = day_of_year_bounds [OF assms(1) [unfolded ab]]
  note vb = day_of_year_bounds [OF assms(2) [unfolded ab]]
  consider "y < z" | "y = z" "m < k" | "y = z" "m = k" "d < e"
    using assms(3) ab by (auto simp: less_civil_def)
  then show ?thesis
  proof cases
    case 1
    then have "days_before_year (y + 1) \<le> days_before_year z" by (intro days_before_year_mono) simp
    with va vb show ?thesis by (simp add: ab days_before_year_Suc split: if_splits)
  next
    case 2
    then have "days_before_month y m + days_in_month y m \<le> days_before_month y k"
      using assms ab by (intro days_before_month_mono) auto
    with 2 assms ab show ?thesis by simp
  next
    case 3
    with ab show ?thesis by simp
  qed
qed

lemma epoch_day_less_iff:
  "valid_civil a \<Longrightarrow> valid_civil b \<Longrightarrow> epoch_day a < epoch_day b \<longleftrightarrow> a < b"
  by (metis epoch_day_strict_mono linorder_less_linear order_less_asym)

lemma epoch_day_inj:
  "valid_civil a \<Longrightarrow> valid_civil b \<Longrightarrow> epoch_day a = epoch_day b \<longleftrightarrow> a = b"
  by (metis epoch_day_strict_mono linorder_less_linear order_less_irrefl)

lemma valid_next_civil: "valid_civil c \<Longrightarrow> valid_civil (next_civil c)"
  by (cases c) (auto simp: days_in_month_def)

lemma epoch_day_next_civil:
  assumes "valid_civil c"
  shows "epoch_day (next_civil c) = epoch_day c + 1"
proof (cases c)
  case (Civil y m d)
  consider "d < days_in_month y m" | "d = days_in_month y m" "m < 12" | "d = 31" "m = 12"
    using assms Civil by (force simp: days_in_month_def)
  then show ?thesis
  proof cases
    case 1
    with Civil show ?thesis by simp
  next
    case 2
    with assms Civil days_before_month_Suc [of m y] show ?thesis by simp
  next
    case 3
    with Civil show ?thesis
      by (simp add: days_before_year_Suc days_before_month_def days_in_month_def)
  qed
qed

subsection \<open>The civil date of a day number\<close>

text \<open>
  The year is found by stepping forward from an estimate that is never late; for any day at most
  two steps are taken. The month is the last one whose first day is not after the day.
\<close>

function year_from :: "int \<Rightarrow> int \<Rightarrow> int" where
  "year_from n y = (if days_before_year (y + 1) \<le> n then year_from n (y + 1) else y)"
  by pat_completeness auto
termination
proof (relation "measure (\<lambda>(n, y). nat (n - days_before_year y))")
  show "wf (measure (\<lambda>(n, y). nat (n - days_before_year y)))" by simp
  fix n y :: int
  assume "days_before_year (y + 1) \<le> n"
  then show "((n, y + 1), n, y) \<in> measure (\<lambda>(n, y). nat (n - days_before_year y))"
    using days_before_year_Suc [of y] by (simp split: if_splits)
qed

declare year_from.simps [simp del]

definition month_of :: "int \<Rightarrow> int \<Rightarrow> int" where
  "month_of y r =
     (if r < days_before_month y 2 then 1 else if r < days_before_month y 3 then 2
      else if r < days_before_month y 4 then 3 else if r < days_before_month y 5 then 4
      else if r < days_before_month y 6 then 5 else if r < days_before_month y 7 then 6
      else if r < days_before_month y 8 then 7 else if r < days_before_month y 9 then 8
      else if r < days_before_month y 10 then 9 else if r < days_before_month y 11 then 10
      else if r < days_before_month y 12 then 11 else 12)"

definition civil_of_day :: "int \<Rightarrow> civil" where
  "civil_of_day n =
     (let k = n + 719527;
          y = year_from k (400 * k div 146097 - 1);
          r = k - days_before_year y;
          m = month_of y r
      in Civil y m (r - days_before_month y m + 1))"

lemma year_from_spec:
  "days_before_year y \<le> n \<Longrightarrow>
     days_before_year (year_from n y) \<le> n \<and> n < days_before_year (year_from n y + 1)"
proof (induction n y rule: year_from.induct)
  case (1 n y)
  then show ?case by (subst (1 2) year_from.simps) auto
qed

lemma year_estimate: "days_before_year (400 * k div 146097 - 1) \<le> k"
proof -
  define q where "q = 400 * k div 146097"
  define a b c where "a = (q - 2) div 4" and "b = (q - 2) div 100" and "c = (q - 2) div 400"
  have "146097 * q \<le> 400 * k" unfolding q_def by simp
  moreover have "4 * a \<le> q - 2" "400 * c \<le> q - 2"
    unfolding a_def c_def by simp_all
  moreover have "q - 2 < 100 * b + 100"
    unfolding b_def by simp
  moreover have "days_before_year (q - 1) = 365 * q - 365 + a - b + c"
    by (simp add: days_before_year_def a_def b_def c_def)
  ultimately show ?thesis unfolding q_def [symmetric] by linarith
qed

lemma month_of_spec:
  assumes "0 \<le> r" "r < 365 + (if leap y then 1 else 0)"
  shows "1 \<le> month_of y r" "month_of y r \<le> 12"
    "days_before_month y (month_of y r) \<le> r"
    "r < days_before_month y (month_of y r) + days_in_month y (month_of y r)"
proof -
  show "1 \<le> month_of y r" "month_of y r \<le> 12" by (simp_all add: month_of_def)
  have first: "days_before_month y 1 = 0" by (simp add: days_before_month_def)
  show "days_before_month y (month_of y r) \<le> r"
    unfolding month_of_def using assms(1) first by (simp split: if_split)
  have nxt: "days_before_month y 2 = days_before_month y 1 + days_in_month y 1"
    "days_before_month y 3 = days_before_month y 2 + days_in_month y 2"
    "days_before_month y 4 = days_before_month y 3 + days_in_month y 3"
    "days_before_month y 5 = days_before_month y 4 + days_in_month y 4"
    "days_before_month y 6 = days_before_month y 5 + days_in_month y 5"
    "days_before_month y 7 = days_before_month y 6 + days_in_month y 6"
    "days_before_month y 8 = days_before_month y 7 + days_in_month y 7"
    "days_before_month y 9 = days_before_month y 8 + days_in_month y 8"
    "days_before_month y 10 = days_before_month y 9 + days_in_month y 9"
    "days_before_month y 11 = days_before_month y 10 + days_in_month y 10"
    "days_before_month y 12 = days_before_month y 11 + days_in_month y 11"
    "days_before_month y 13 = days_before_month y 12 + days_in_month y 12"
    using days_before_month_Suc [of 1 y] days_before_month_Suc [of 2 y]
      days_before_month_Suc [of 3 y] days_before_month_Suc [of 4 y]
      days_before_month_Suc [of 5 y] days_before_month_Suc [of 6 y]
      days_before_month_Suc [of 7 y] days_before_month_Suc [of 8 y]
      days_before_month_Suc [of 9 y] days_before_month_Suc [of 10 y]
      days_before_month_Suc [of 11 y] days_before_month_Suc [of 12 y] by simp_all
  have last: "r < days_before_month y 13" using assms(2) by (simp add: days_before_month_12)
  show "r < days_before_month y (month_of y r) + days_in_month y (month_of y r)"
    unfolding month_of_def by (simp add: last flip: nxt)
qed

lemma civil_of_day_correct:
  "valid_civil (civil_of_day n)" "epoch_day (civil_of_day n) = n"
proof -
  define k where "k = n + 719527"
  define y where "y = year_from k (400 * k div 146097 - 1)"
  define r where "r = k - days_before_year y"
  have y: "days_before_year y \<le> k" "k < days_before_year (y + 1)"
    using year_from_spec [OF year_estimate [of k]] by (simp_all add: y_def)
  then have r: "0 \<le> r" "r < 365 + (if leap y then 1 else 0)"
    by (simp_all add: r_def days_before_year_Suc)
  have c: "civil_of_day n = Civil y (month_of y r) (r - days_before_month y (month_of y r) + 1)"
    by (simp add: civil_of_day_def k_def y_def r_def Let_def)
  show "valid_civil (civil_of_day n)"
    using month_of_spec [OF r] by (simp add: c)
  show "epoch_day (civil_of_day n) = n"
    by (simp add: c r_def k_def)
qed

lemma civil_of_day_less_iff: "civil_of_day a < civil_of_day b \<longleftrightarrow> a < b"
  by (metis civil_of_day_correct epoch_day_less_iff)

lemma civil_of_day_epoch_day: "valid_civil c \<Longrightarrow> civil_of_day (epoch_day c) = c"
  by (metis civil_of_day_correct epoch_day_inj)

subsection \<open>ISO 8601 text\<close>

text \<open>
  \<open>PlainDate.toString()\<close>: four digits for the years 0 to 9999, a sign and six digits otherwise.
\<close>

definition year_text :: "int \<Rightarrow> string" where
  "year_text y =
     (if 0 \<le> y \<and> y \<le> 9999 then pad_digits 4 y
      else (if y < 0 then CHR ''-'' else CHR ''+'') # pad_digits 6 \<bar>y\<bar>)"

fun date_text :: "civil \<Rightarrow> string" where
  "date_text (Civil y m d) = year_text y @ ''-'' @ pad_digits 2 m @ ''-'' @ pad_digits 2 d"

definition clock_text :: "int \<Rightarrow> string" where
  "clock_text s = pad_digits 2 (s div 3600) @ '':'' @ pad_digits 2 (s div 60 mod 60)
     @ '':'' @ pad_digits 2 (s mod 60)"

text \<open>
  \<open>Temporal.Instant.toString()\<close> of an instant given in milliseconds: the fraction is left out when
  it is zero and trailing zeros are dropped.
\<close>

definition fraction_text :: "int \<Rightarrow> string" where
  "fraction_text f =
     (if f = 0 then [] else CHR ''.'' #
        (if f mod 100 = 0 then pad_digits 1 (f div 100)
         else if f mod 10 = 0 then pad_digits 2 (f div 10) else pad_digits 3 f))"

definition ms_per_day :: int where
  "ms_per_day = 86400000"

definition iso_instant :: "int \<Rightarrow> string" where
  "iso_instant t =
     date_text (civil_of_day (t div ms_per_day)) @ ''T''
       @ clock_text (t mod ms_per_day div 1000) @ fraction_text (t mod 1000) @ ''Z''"

text \<open>The instants of the years 0 to 9999, whose text has the four-digit year.\<close>

definition four_digit_year :: "int \<Rightarrow> bool" where
  "four_digit_year t \<longleftrightarrow>
     (let y = c_year (civil_of_day (t div ms_per_day)) in 0 \<le> y \<and> y \<le> 9999)"

lemma iso_instant_sample: "iso_instant 1772953200000 = ''2026-03-08T07:00:00Z''"
  by code_simp

lemma length_date_text:
  "0 \<le> y \<Longrightarrow> y \<le> 9999 \<Longrightarrow> length (date_text (Civil y m d)) = 10"
  by (simp add: year_text_def)

lemma date_text_less_iff:
  assumes "valid_civil a" "valid_civil b"
    and "0 \<le> c_year a" "c_year a \<le> 9999" "0 \<le> c_year b" "c_year b \<le> 9999"
  shows "date_text a < date_text b \<longleftrightarrow> a < b"
proof (cases a; cases b)
  fix y m d z k e
  assume ab: "a = Civil y m d" "b = Civil z k e"
  have r: "0 \<le> m" "m < 10 ^ 2" "0 \<le> d" "d < 10 ^ 2" "0 \<le> k" "k < 10 ^ 2" "0 \<le> e" "e < 10 ^ 2"
    "0 \<le> y" "y < 10 ^ 4" "0 \<le> z" "z < 10 ^ 4"
    using assms ab by (auto simp: days_in_month_def split: if_splits)
  have "date_text a = pad_digits 4 y @ CHR ''-'' # pad_digits 2 m @ CHR ''-'' # pad_digits 2 d"
    "date_text b = pad_digits 4 z @ CHR ''-'' # pad_digits 2 k @ CHR ''-'' # pad_digits 2 e"
    using r by (simp_all add: ab year_text_def)
  then show ?thesis
    using r by (simp only: append_less_iff_same_length length_pad_digits pad_digits_less_iff
        pad_digits_inj Cons_less_Cons)
      (auto simp: ab less_civil_def)
qed

lemma date_text_inj:
  assumes "valid_civil a" "valid_civil b"
    and "0 \<le> c_year a" "c_year a \<le> 9999" "0 \<le> c_year b" "c_year b \<le> 9999"
  shows "date_text a = date_text b \<longleftrightarrow> a = b"
  by (metis assms date_text_less_iff linorder_neq_iff order_less_irrefl)

lemma seconds_split: "(s::int) = 3600 * (s div 3600) + 60 * (s div 60 mod 60) + s mod 60"
proof -
  have "s = 60 * (s div 60) + s mod 60" by simp
  moreover have "s div 60 = 60 * (s div 60 div 60) + s div 60 mod 60" by simp
  moreover have "s div 60 div 60 = s div 3600" by (simp flip: zdiv_zmult2_eq)
  ultimately show ?thesis by linarith
qed

lemma ms_split: "(t::int) = 86400000 * (t div 86400000) + 1000 * (t mod 86400000 div 1000) + t mod 1000"
proof -
  have "t = 86400000 * (t div 86400000) + t mod 86400000" by simp
  moreover have "t mod 86400000 = 1000 * (t mod 86400000 div 1000) + t mod 86400000 mod 1000"
    by simp
  moreover have "t mod 86400000 mod 1000 = t mod 1000" by (simp add: mod_mod_cancel)
  ultimately show ?thesis by linarith
qed

lemma clock_text_less_iff:
  assumes "0 \<le> s" "s < 86400" "0 \<le> t" "t < 86400"
  shows "clock_text s < clock_text t \<longleftrightarrow> s < t"
proof -
  define a b c where "a = s div 3600" and "b = s div 60 mod 60" and "c = s mod 60"
  define a' b' c' where "a' = t div 3600" and "b' = t div 60 mod 60" and "c' = t mod 60"
  have dec: "s = 3600 * a + 60 * b + c" "t = 3600 * a' + 60 * b' + c'"
    unfolding a_def b_def c_def a'_def b'_def c'_def by (rule seconds_split)+
  have r: "0 \<le> a" "a < 10 ^ 2" "0 \<le> b" "b < 10 ^ 2" "0 \<le> c" "c < 10 ^ 2"
    "0 \<le> a'" "a' < 10 ^ 2" "0 \<le> b'" "b' < 10 ^ 2" "0 \<le> c'" "c' < 10 ^ 2"
    and sm: "b < 60" "c < 60" "b' < 60" "c' < 60"
    using assms unfolding a_def b_def c_def a'_def b'_def c'_def
    by (simp_all add: div_less_iff_less_mult pos_imp_zdiv_nonneg_iff less_imp_le
        order_less_le_trans [OF pos_mod_bound])
  have "clock_text s = pad_digits 2 a @ CHR '':'' # pad_digits 2 b @ CHR '':'' # pad_digits 2 c"
    "clock_text t = pad_digits 2 a' @ CHR '':'' # pad_digits 2 b' @ CHR '':'' # pad_digits 2 c'"
    by (simp_all add: clock_text_def a_def b_def c_def a'_def b'_def c'_def)
  then have "clock_text s < clock_text t \<longleftrightarrow>
      a < a' \<or> a = a' \<and> (b < b' \<or> b = b' \<and> c < c')"
    using r by (simp only: append_less_iff_same_length length_pad_digits pad_digits_less_iff
        pad_digits_inj Cons_less_Cons) auto
  also have "\<dots> \<longleftrightarrow> s < t"
    using r sm unfolding dec by linarith
  finally show ?thesis .
qed

lemma clock_text_inj:
  assumes "0 \<le> s" "s < 86400" "0 \<le> t" "t < 86400"
  shows "clock_text s = clock_text t \<longleftrightarrow> s = t"
  by (metis assms clock_text_less_iff linorder_neq_iff order_less_irrefl)

lemma iso_instant_less_iff:
  assumes "four_digit_year s" "four_digit_year t" "s mod 1000 = t mod 1000"
  shows "iso_instant s < iso_instant t \<longleftrightarrow> s < t"
proof -
  define a b where "a = s div ms_per_day" and "b = t div ms_per_day"
  define p q where "p = s mod ms_per_day div 1000" and "q = t mod ms_per_day div 1000"
  define u where "u = fraction_text (t mod 1000) @ ''Z''"
  have texts: "iso_instant s = date_text (civil_of_day a) @ CHR ''T'' # clock_text p @ u"
    "iso_instant t = date_text (civil_of_day b) @ CHR ''T'' # clock_text q @ u"
    by (simp_all add: iso_instant_def a_def b_def p_def q_def u_def assms(3))
  have yr: "0 \<le> c_year (civil_of_day a)" "c_year (civil_of_day a) \<le> 9999"
    "0 \<le> c_year (civil_of_day b)" "c_year (civil_of_day b) \<le> 9999"
    using assms(1,2) by (simp_all add: four_digit_year_def a_def b_def Let_def)
  have len: "length (date_text (civil_of_day a)) = length (date_text (civil_of_day b))"
    using yr by (cases "civil_of_day a"; cases "civil_of_day b") (simp add: year_text_def)
  have pq: "0 \<le> p" "p < 86400" "0 \<le> q" "q < 86400"
    unfolding p_def q_def ms_per_day_def by (simp_all add: div_less_iff_less_mult)
  have len2: "length (clock_text p) = length (clock_text q)"
    by (simp add: clock_text_def)
  have "iso_instant s < iso_instant t \<longleftrightarrow> a < b \<or> a = b \<and> p < q"
    using yr pq unfolding texts
    by (simp add: append_less_iff_same_length [OF len] append_less_iff_same_length [OF len2]
        date_text_less_iff date_text_inj clock_text_less_iff civil_of_day_correct
        civil_of_day_less_iff clock_text_inj)
      (metis civil_of_day_correct(2))
  also have "\<dots> \<longleftrightarrow> s < t"
  proof -
    have "s = 86400000 * a + 1000 * p + s mod 1000" "t = 86400000 * b + 1000 * q + t mod 1000"
      unfolding a_def b_def p_def q_def ms_per_day_def by (rule ms_split)+
    with assms(3) pq show ?thesis by linarith
  qed
  finally show ?thesis .
qed

lemma iso_instant_le_iff:
  assumes "four_digit_year s" "four_digit_year t" "s mod 1000 = t mod 1000"
  shows "iso_instant s \<le> iso_instant t \<longleftrightarrow> s \<le> t"
  using iso_instant_less_iff [OF assms(2,1) assms(3) [symmetric]] by (simp add: not_less [symmetric])

end
