(* ===== verification/Time_Core.thy ===== *)
theory Time_Core
  imports Calendar "HOL-Library.Multiset"
begin

text \<open>
  \<^verbatim>\<open>packages/time/src/time-core.ts\<close>: wall-clock resolution, elapsed-time arithmetic, the
  cancellation and reminder predicates, and slot generation. The IANA time zone data is a
  parameter \<open>zdb\<close>: it gives the UTC offset in milliseconds of a zone at an instant, and None for an
  unknown zone. What \<open>Temporal\<close> does with it (possible instants of a local time, disambiguation,
  constraining of fields, the range limits) follows the language's documentation.
\<close>

datatype js_error = Error string | Range_Error | Type_Error

type_synonym zone_db = "string \<Rightarrow> (int \<Rightarrow> int) option"

subsection \<open>Temporal: a local time in a zone\<close>

record wall =
  w_year :: int
  w_month :: int
  w_day :: int
  w_hour :: int
  w_min :: int
  w_sec :: int

definition local_ms :: "wall \<Rightarrow> int" where
  "local_ms w = epoch_day (Civil (w_year w) (w_month w) (w_day w)) * ms_per_day
     + (w_hour w * 3600 + w_min w * 60 + w_sec w) * 1000"

text \<open>The default overflow option of a property bag is \<open>constrain\<close>.\<close>

definition clamp :: "[int, int, int] \<Rightarrow> int" where
  "clamp low high v = max low (min high v)"

definition constrain_wall :: "wall \<Rightarrow> js_error + wall" where
  "constrain_wall w =
     (if w_month w < 1 \<or> w_day w < 1 then Inl Range_Error
      else let m = min 12 (w_month w) in
        Inr \<lparr>w_year = w_year w, w_month = m, w_day = min (days_in_month (w_year w) m) (w_day w),
             w_hour = clamp 0 23 (w_hour w), w_min = clamp 0 59 (w_min w),
             w_sec = clamp 0 59 (w_sec w)\<rparr>)"

text \<open>
  The instants whose local time is \<open>l\<close>, earliest first: the offsets in force a day before and a
  day after are the candidates.
\<close>

definition possible_instants :: "(int \<Rightarrow> int) \<Rightarrow> int \<Rightarrow> int list" where
  "possible_instants off l =
     sort (remdups (filter (\<lambda>t. t + off t = l) [l - off (l - ms_per_day), l - off (l + ms_per_day)]))"

definition first_of :: "int list \<Rightarrow> js_error + int" where
  "first_of ts = (case ts of [] \<Rightarrow> Inl Range_Error | t # _ \<Rightarrow> Inr t)"

definition last_of :: "int list \<Rightarrow> js_error + int" where
  "last_of ts = first_of (rev ts)"

definition disambiguate :: "(int \<Rightarrow> int) \<Rightarrow> string \<Rightarrow> int \<Rightarrow> js_error + int" where
  "disambiguate off opt l =
     (let ts = possible_instants off l;
          shift = off (l + ms_per_day) - off (l - ms_per_day)
      in if opt = ''compatible'' then
           (if ts \<noteq> [] then first_of ts else last_of (possible_instants off (l + shift)))
         else if opt = ''earlier'' then
           (if ts \<noteq> [] then first_of ts else first_of (possible_instants off (l - shift)))
         else if opt = ''later'' then
           (if ts \<noteq> [] then last_of ts else last_of (possible_instants off (l + shift)))
         else if opt = ''reject'' then
           (if length ts = 1 then first_of ts else Inl Range_Error)
         else Inl Range_Error)"

definition instant_limit :: int where
  "instant_limit = 8640000000000000"

text \<open>\<open>T.ZonedDateTime.from({ ..., timeZone, disambiguation })\<close>, as the instant it denotes.\<close>

definition zoned_from :: "zone_db \<Rightarrow> wall \<Rightarrow> string \<Rightarrow> string \<Rightarrow> js_error + int" where
  "zoned_from zdb w tz opt =
     (case zdb tz of None \<Rightarrow> Inl Range_Error
      | Some off \<Rightarrow>
          sbind (constrain_wall w) (\<lambda>c.
          sbind (disambiguate off opt (local_ms c)) (\<lambda>t.
          if \<bar>t\<bar> \<le> instant_limit then Inr t else Inl Range_Error)))"

subsection \<open>Wall-clock resolution\<close>

datatype policy = Compatible | Earliest | Latest | Reject

fun policy_text :: "policy \<Rightarrow> string" where
  "policy_text Compatible = ''compatible''"
| "policy_text Earliest = ''earliest''"
| "policy_text Latest = ''latest''"
| "policy_text Reject = ''reject''"

definition assertValidTimeZone :: "zone_db \<Rightarrow> string \<Rightarrow> js_error + unit" where
  "assertValidTimeZone zdb tz =
     (if tz = [] then Inl (Error ''Invalid timezone: must be non-empty string'')
      else case zoned_from zdb \<lparr>w_year = 2026, w_month = 1, w_day = 1, w_hour = 12, w_min = 0,
                               w_sec = 0\<rparr> tz ''compatible'' of
          Inl _ \<Rightarrow> Inl (Error (''Invalid IANA time zone: '' @ tz))
        | Inr _ \<Rightarrow> Inr ())"

record wall_clock_result =
  wc_instant :: int
  wc_disambiguated :: bool
  wc_ambiguous :: bool

text \<open>
  A destructured element of \<open>parts.map(Number)\<close>: \<open>None\<close> where the array is too short (\<open>undefined\<close>),
  \<open>Some None\<close> for \<open>NaN\<close>. A required field that is undefined is a TypeError, a \<open>NaN\<close> field a RangeError.
\<close>

definition part_number :: "string list \<Rightarrow> nat \<Rightarrow> int option option" where
  "part_number ps i = (if i < length ps then Some (js_number (ps ! i)) else None)"

fun field_value :: "js_error + int \<Rightarrow> int option option \<Rightarrow> js_error + int" where
  "field_value dflt None = dflt"
| "field_value dflt (Some None) = Inl Range_Error"
| "field_value dflt (Some (Some n)) = Inr n"

definition parse_wall :: "string \<Rightarrow> js_error + wall" where
  "parse_wall s =
     (case split_on (CHR ''T'') s of
        datePart # timePart # _ \<Rightarrow>
          (let ds = split_on (CHR ''-'') datePart; ts = split_on (CHR '':'') timePart in
           sbind (field_value (Inl Type_Error) (part_number ds 0)) (\<lambda>y.
           sbind (field_value (Inl Type_Error) (part_number ds 1)) (\<lambda>m.
           sbind (field_value (Inl Type_Error) (part_number ds 2)) (\<lambda>d.
           sbind (field_value (Inr 0) (part_number ts 0)) (\<lambda>hh.
           sbind (field_value (Inr 0) (part_number ts 1)) (\<lambda>mi.
           sbind (field_value (Inr 0) (part_number ts 2)) (\<lambda>ss.
           Inr \<lparr>w_year = y, w_month = m, w_day = d, w_hour = hh, w_min = mi, w_sec = ss\<rparr>)))))))
      | _ \<Rightarrow> Inl Type_Error)"

definition resolveWallClock ::
    "zone_db \<Rightarrow> string \<Rightarrow> string \<Rightarrow> policy \<Rightarrow> js_error + wall_clock_result" where
  "resolveWallClock zdb plainDateTime tz policy =
     sbind (assertValidTimeZone zdb tz) (\<lambda>_.
     sbind (parse_wall plainDateTime) (\<lambda>w.
     sbind (zoned_from zdb w tz (policy_text policy)) (\<lambda>t.
     Inr \<lparr>wc_instant = t, wc_disambiguated = True, wc_ambiguous = False\<rparr>)))"

subsection \<open>Elapsed time, cancellation, reminders\<close>

definition subtractElapsed :: "int \<Rightarrow> int \<Rightarrow> int" where
  "subtractElapsed inst minutes = inst + - \<bar>minutes\<bar> * 60000"

definition isCancellable :: "int \<Rightarrow> int \<Rightarrow> int \<Rightarrow> bool" where
  "isCancellable now slotStart windowHours =
     (let windowMs = windowHours * 60 * 60 * 1000;
          deadline = slotStart + - windowMs
      in now \<le> deadline)"

fun fire_loop :: "int \<Rightarrow> int \<Rightarrow> int list \<Rightarrow> int list" where
  "fire_loop start now [] = []"
| "fire_loop start now (off # offs) =
     (let fire = start + - off * 60000
      in if fire > now then fire # fire_loop start now offs else fire_loop start now offs)"

text \<open>The array of texts is sorted; an instant is carried as its milliseconds.\<close>

definition reminderFireTimes :: "int \<Rightarrow> int list \<Rightarrow> int \<Rightarrow> int list" where
  "reminderFireTimes slotStart offsets now = sort_key iso_instant (fire_loop slotStart now offsets)"

subsection \<open>Slot generation\<close>

record gen_slot =
  startUtc :: int
  endUtc :: int

record rules =
  daysOfWeek :: "int list option"
  startTime :: "string option"
  endTime :: "string option"

definition wall_text :: "int \<Rightarrow> int \<Rightarrow> string" where
  "wall_text n mins =
     date_text (civil_of_day n) @ ''T'' @ pad_digits 2 (mins div 60) @ '':''
       @ pad_digits 2 (mins mod 60) @ '':00''"

text \<open>The loop over the local minutes of one day (its guard against a non-positive step is
  always met: \<open>generateSlots\<close> rejects a \<open>slotMinutes\<close> below 5).\<close>

lemma sbind_cong [fundef_cong]:
  "m = m' \<Longrightarrow> (\<And>a. m' = Inr a \<Longrightarrow> f a = g a) \<Longrightarrow> sbind m f = sbind m' g"
  by (cases m') auto

function slot_loop ::
    "zone_db \<Rightarrow> string \<Rightarrow> int \<Rightarrow> int \<Rightarrow> int \<Rightarrow> int \<Rightarrow> js_error + gen_slot list" where
  "slot_loop zdb tz n sm cur endMin =
     (if 0 < sm \<and> cur < endMin \<and> cur + sm \<le> endMin then
        sbind (resolveWallClock zdb (wall_text n cur) tz Compatible) (\<lambda>c.
        sbind (resolveWallClock zdb (wall_text n (cur + sm)) tz Compatible) (\<lambda>e.
        sbind (slot_loop zdb tz n sm (cur + sm) endMin) (\<lambda>rest.
        Inr (if wc_instant c < wc_instant e
             then \<lparr>startUtc = wc_instant c, endUtc = wc_instant e\<rparr> # rest else rest))))
      else Inr [])"
  by pat_completeness auto
termination
  by (relation "measure (\<lambda>(zdb, tz, n, sm, cur, endMin). nat (endMin - cur))") auto

declare slot_loop.simps [simp del]

text \<open>\<open>parseInt(t.split(':')[0], 10)\<close> and \<open>parseInt(t.split(':')[1] || '0', 10)\<close>; \<open>NaN\<close> in a
  \<open>ZonedDateTime\<close> field is a RangeError.\<close>

definition hour_of :: "string \<Rightarrow> js_error + int" where
  "hour_of t = (case parse_int (split_on (CHR '':'') t ! 0) of None \<Rightarrow> Inl Range_Error | Some h \<Rightarrow> Inr h)"

definition minute_of :: "string \<Rightarrow> js_error + int" where
  "minute_of t =
     (let ps = split_on (CHR '':'') t;
          p = (if 1 < length ps \<and> ps ! 1 \<noteq> [] then ps ! 1 else ''0'')
      in case parse_int p of None \<Rightarrow> Inl Range_Error | Some m \<Rightarrow> Inr m)"

text \<open>\<open>d.toString().split('-').map(Number)\<close>.\<close>

definition date_fields :: "int \<Rightarrow> int \<times> int \<times> int" where
  "date_fields n =
     (let ps = split_on (CHR ''-'') (date_text (civil_of_day n));
          num = (\<lambda>i. case part_number ps i of Some (Some v) \<Rightarrow> v | _ \<Rightarrow> 0)
      in (num 0, num 1, num 2))"

text \<open>\<open>new Date(Date.UTC(yyyy, mm - 1, dd)).getUTCDay() || 7\<close>; \<open>Date.UTC\<close> reads 0..99 as 1900..1999.\<close>

definition utc_dow :: "int \<times> int \<times> int \<Rightarrow> int" where
  "utc_dow f = (case f of (y, m, d) \<Rightarrow>
     iso_weekday (epoch_day (Civil (if 0 \<le> y \<and> y \<le> 99 then 1900 + y else y) m d)))"

definition rule_covers :: "rules option \<Rightarrow> int \<Rightarrow> bool" where
  "rule_covers r dow =
     (case r of None \<Rightarrow> True
      | Some ru \<Rightarrow> (case daysOfWeek ru of None \<Rightarrow> True | Some ds \<Rightarrow> dow \<in> set ds))"

definition rule_start :: "rules option \<Rightarrow> string" where
  "rule_start r = (case r of None \<Rightarrow> ''09:00''
     | Some ru \<Rightarrow> (case startTime ru of None \<Rightarrow> ''09:00'' | Some t \<Rightarrow> t))"

definition rule_end :: "rules option \<Rightarrow> string" where
  "rule_end r = (case r of None \<Rightarrow> ''17:00''
     | Some ru \<Rightarrow> (case endTime ru of None \<Rightarrow> ''17:00'' | Some t \<Rightarrow> t))"

definition day_slots ::
    "zone_db \<Rightarrow> string \<Rightarrow> int \<Rightarrow> rules option \<Rightarrow> int \<Rightarrow> js_error + gen_slot list" where
  "day_slots zdb tz sm r n =
     (let f = date_fields n in
      if rule_covers r (utc_dow f) then
        (let startTimeStr = rule_start r; endTimeStr = rule_end r; ds = date_text (civil_of_day n) in
         sbind (resolveWallClock zdb (ds @ ''T'' @ startTimeStr @ '':00'') tz Compatible) (\<lambda>_.
         sbind (resolveWallClock zdb (ds @ ''T'' @ endTimeStr @ '':00'') tz Compatible) (\<lambda>_.
         sbind (hour_of startTimeStr) (\<lambda>sh. sbind (minute_of startTimeStr) (\<lambda>smi.
         sbind (zoned_from zdb \<lparr>w_year = fst f, w_month = fst (snd f), w_day = snd (snd f),
                               w_hour = sh, w_min = smi, w_sec = 0\<rparr> tz ''compatible'') (\<lambda>_.
         sbind (hour_of endTimeStr) (\<lambda>eh. sbind (minute_of endTimeStr) (\<lambda>emi.
         sbind (zoned_from zdb \<lparr>w_year = fst f, w_month = fst (snd f), w_day = snd (snd f),
                               w_hour = eh, w_min = emi, w_sec = 0\<rparr> tz ''compatible'') (\<lambda>_.
         slot_loop zdb tz n sm (sh * 60 + smi) (eh * 60 + emi))))))))))
      else Inr [])"

text \<open>
  The \<open>for (;;)\<close> loop over the days: it stops at \<open>toDate\<close> only. \<open>PlainDate.add\<close> throws past the
  last representable date, day 100000000.
\<close>

definition plain_date_limit :: int where
  "plain_date_limit = 100000000"

function gen_days ::
    "zone_db \<Rightarrow> string \<Rightarrow> int \<Rightarrow> rules option \<Rightarrow> int \<Rightarrow> int \<Rightarrow> js_error + gen_slot list" where
  "gen_days zdb tz sm r n to_day =
     sbind (day_slots zdb tz sm r n) (\<lambda>s.
       if n = to_day then Inr s
       else if plain_date_limit \<le> n then Inl Range_Error
       else sbind (gen_days zdb tz sm r (n + 1) to_day) (\<lambda>rest. Inr (s @ rest)))"
  by pat_completeness auto
termination
  by (relation "measure (\<lambda>(zdb, tz, sm, r, n, to_day). nat (plain_date_limit - n))") auto

declare gen_days.simps [simp del]

text \<open>\<open>T.PlainDate.from(s)\<close> on the extended \<open>YYYY-MM-DD\<close> form, as its day number.\<close>

definition parse_plain_date :: "string \<Rightarrow> js_error + int" where
  "parse_plain_date s =
     (case split_on (CHR ''-'') s of
        [y, m, d] \<Rightarrow>
          (if length y = 4 \<and> length m = 2 \<and> length d = 2 \<and> list_all is_digit (y @ m @ d)
             \<and> valid_civil (Civil (digits_val y) (digits_val m) (digits_val d))
           then Inr (epoch_day (Civil (digits_val y) (digits_val m) (digits_val d)))
           else Inl Range_Error)
      | _ \<Rightarrow> Inl Range_Error)"

definition generateSlots ::
    "zone_db \<Rightarrow> string \<Rightarrow> int \<Rightarrow> rules option \<Rightarrow> string \<Rightarrow> string \<Rightarrow> js_error + gen_slot list" where
  "generateSlots zdb tz slotMinutes r fromDate toDate =
     sbind (assertValidTimeZone zdb tz) (\<lambda>_.
     if slotMinutes < 5 \<or> slotMinutes > 240 then Inl (Error ''slotMinutes out of range'')
     else sbind (parse_plain_date fromDate) (\<lambda>from_day.
          sbind (parse_plain_date toDate) (\<lambda>to_day.
          sbind (gen_days zdb tz slotMinutes r from_day to_day) (\<lambda>slots.
          Inr (sort_key (\<lambda>s. iso_instant (startUtc s)) slots)))))"

subsection \<open>The text form of a wall-clock time reads back\<close>

definition wall_at :: "int \<Rightarrow> int \<Rightarrow> wall" where
  "wall_at n mins =
     (let c = civil_of_day n in
      \<lparr>w_year = c_year c, w_month = c_month c, w_day = c_day c,
       w_hour = mins div 60, w_min = mins mod 60, w_sec = 0\<rparr>)"

text \<open>The days whose year has at most six digits and no minus sign.\<close>

definition plain_day :: "int \<Rightarrow> bool" where
  "plain_day n \<longleftrightarrow> 0 \<le> c_year (civil_of_day n) \<and> c_year (civil_of_day n) < 10 ^ 6"

lemma civil_of_day_fields:
  "civil_of_day n = Civil (c_year (civil_of_day n)) (c_month (civil_of_day n)) (c_day (civil_of_day n))"
  by (cases "civil_of_day n") simp

lemma civil_of_day_ranges:
  "1 \<le> c_month (civil_of_day n)" "c_month (civil_of_day n) \<le> 12"
  "1 \<le> c_day (civil_of_day n)"
  "c_day (civil_of_day n) \<le> days_in_month (c_year (civil_of_day n)) (c_month (civil_of_day n))"
  "c_day (civil_of_day n) \<le> 31"
proof -
  have v: "valid_civil (civil_of_day n)" by (rule civil_of_day_correct)
  show "1 \<le> c_month (civil_of_day n)" "c_month (civil_of_day n) \<le> 12"
    "1 \<le> c_day (civil_of_day n)"
    "c_day (civil_of_day n) \<le> days_in_month (c_year (civil_of_day n)) (c_month (civil_of_day n))"
    using v by (cases "civil_of_day n"; simp)+
  then show "c_day (civil_of_day n) \<le> 31"
    by (auto simp: days_in_month_def split: if_splits)
qed

lemma epoch_day_fields:
  "epoch_day (Civil (c_year (civil_of_day n)) (c_month (civil_of_day n)) (c_day (civil_of_day n))) = n"
  using civil_of_day_correct(2) [of n] civil_of_day_fields [of n] by metis

lemma js_number_year_text:
  "0 \<le> y \<Longrightarrow> y < 10 ^ 6 \<Longrightarrow> js_number (year_text y) = Some y"
  by (simp add: year_text_def)

lemma year_text_no_sep:
  "0 \<le> y \<Longrightarrow> CHR ''-'' \<notin> set (year_text y) \<and> CHR ''T'' \<notin> set (year_text y)"
  by (auto simp: year_text_def dest: pad_digits_are_digits)

lemma split_date_text:
  assumes "plain_day n"
  shows "split_on (CHR ''-'') (date_text (civil_of_day n)) =
    [year_text (c_year (civil_of_day n)), pad_digits 2 (c_month (civil_of_day n)),
     pad_digits 2 (c_day (civil_of_day n))]"
proof (cases "civil_of_day n")
  case (Civil y m d)
  have y: "0 \<le> y" using assms Civil by (simp add: plain_day_def)
  have "date_text (Civil y m d)
      = year_text y @ CHR ''-'' # (pad_digits 2 m @ CHR ''-'' # pad_digits 2 d)" by simp
  then show ?thesis
    using year_text_no_sep [OF y] Civil
    by (simp only: split_on_append_sep nondigit_notin_pad_digits is_digit_dash not_False_eq_True
        split_on_no_sep civil.sel)
qed

lemma date_text_no_T: "plain_day n \<Longrightarrow> CHR ''T'' \<notin> set (date_text (civil_of_day n))"
  using year_text_no_sep [of "c_year (civil_of_day n)"]
  by (cases "civil_of_day n") (auto simp: plain_day_def dest: pad_digits_are_digits)

lemma date_numbers:
  assumes "plain_day n"
  defines "ps \<equiv> split_on (CHR ''-'') (date_text (civil_of_day n))"
  shows "part_number ps 0 = Some (Some (c_year (civil_of_day n)))"
    "part_number ps 1 = Some (Some (c_month (civil_of_day n)))"
    "part_number ps 2 = Some (Some (c_day (civil_of_day n)))"
  using assms(1) civil_of_day_ranges [of n]
  by (simp_all add: ps_def part_number_def split_date_text js_number_year_text plain_day_def)

lemma parse_wall_date:
  assumes "plain_day n" "CHR ''T'' \<notin> set t"
  shows "parse_wall (date_text (civil_of_day n) @ ''T'' @ t) =
    (let ts = split_on (CHR '':'') t in
     sbind (field_value (Inr 0) (part_number ts 0)) (\<lambda>hh.
     sbind (field_value (Inr 0) (part_number ts 1)) (\<lambda>mi.
     sbind (field_value (Inr 0) (part_number ts 2)) (\<lambda>ss.
     Inr \<lparr>w_year = c_year (civil_of_day n), w_month = c_month (civil_of_day n),
          w_day = c_day (civil_of_day n), w_hour = hh, w_min = mi, w_sec = ss\<rparr>))))"
proof -
  have "split_on (CHR ''T'') (date_text (civil_of_day n) @ ''T'' @ t) = [date_text (civil_of_day n), t]"
    using split_on_append_sep [OF date_text_no_T [OF assms(1)]] split_on_no_sep [OF assms(2)] by simp
  then show ?thesis
    using date_numbers [OF assms(1)] by (simp add: parse_wall_def Let_def)
qed

lemma split_hhmm:
  assumes "0 \<le> h" "0 \<le> m"
  shows "split_on (CHR '':'') (pad_digits 2 h @ CHR '':'' # pad_digits 2 m @ '':00'')
    = [pad_digits 2 h, pad_digits 2 m, ''00'']"
proof -
  have "pad_digits 2 h @ CHR '':'' # pad_digits 2 m @ '':00''
      = pad_digits 2 h @ CHR '':'' # (pad_digits 2 m @ CHR '':'' # ''00'')" by simp
  then show ?thesis
    by (simp only: split_on_append_sep nondigit_notin_pad_digits is_digit_colon not_False_eq_True)
      (simp add: split_on_no_sep)
qed

lemma js_number_00: "js_number ''00'' = Some 0"
  by code_simp

lemma parse_wall_text:
  assumes "plain_day n" "0 \<le> mins" "mins < 6000"
  shows "parse_wall (wall_text n mins) = Inr (wall_at n mins)"
proof -
  have r: "0 \<le> mins div 60" "mins div 60 < 10 ^ 2" "0 \<le> mins mod 60" "mins mod 60 < 10 ^ 2"
    using assms by (simp_all add: div_less_iff_less_mult pos_imp_zdiv_nonneg_iff
        order_less_trans [OF pos_mod_bound])
  have "CHR ''T'' \<notin> set (pad_digits 2 (mins div 60) @ '':'' @ pad_digits 2 (mins mod 60) @ '':00'')"
    by (auto dest: pad_digits_are_digits)
  then show ?thesis
    using parse_wall_date [OF assms(1)] r
    by (simp add: wall_text_def split_hhmm part_number_def js_number_00 wall_at_def Let_def
        nth_Cons_numeral)
qed

subsection \<open>Resolution of the minutes of a day\<close>

definition day_minute_ms :: "int \<Rightarrow> int \<Rightarrow> int" where
  "day_minute_ms n mins = n * ms_per_day + mins * 60000"

definition resolve_local :: "(int \<Rightarrow> int) \<Rightarrow> string \<Rightarrow> int \<Rightarrow> js_error + int" where
  "resolve_local off opt l =
     sbind (disambiguate off opt l) (\<lambda>t. if \<bar>t\<bar> \<le> instant_limit then Inr t else Inl Range_Error)"

definition hhmm :: "int \<Rightarrow> string" where
  "hhmm mins = pad_digits 2 (mins div 60) @ '':'' @ pad_digits 2 (mins mod 60)"

lemma minute_ranges:
  "0 \<le> mins \<Longrightarrow> mins < 1440 \<Longrightarrow>
     0 \<le> mins div 60 \<and> mins div 60 \<le> 23 \<and> mins div 60 < 10 ^ 2
     \<and> 0 \<le> mins mod 60 \<and> mins mod 60 \<le> 59 \<and> mins mod 60 < (10::int) ^ 2"
  by (simp add: div_less_iff_less_mult pos_imp_zdiv_nonneg_iff) presburger

lemma zoned_from_wall_at:
  assumes "zdb tz = Some off" "0 \<le> mins" "mins < 1440"
  shows "zoned_from zdb (wall_at n mins) tz opt = resolve_local off opt (day_minute_ms n mins)"
proof -
  have c: "constrain_wall (wall_at n mins) = Inr (wall_at n mins)"
    using civil_of_day_ranges [of n] minute_ranges [OF assms(2,3)]
    by (simp add: constrain_wall_def wall_at_def clamp_def Let_def)
  have "local_ms (wall_at n mins)
      = epoch_day (Civil (c_year (civil_of_day n)) (c_month (civil_of_day n)) (c_day (civil_of_day n)))
        * ms_per_day + (mins div 60 * 3600 + mins mod 60 * 60) * 1000"
    by (simp add: local_ms_def wall_at_def Let_def del: civil.collapse)
  also have "\<dots> = day_minute_ms n mins"
  proof -
    have "mins * 60000 = (60 * (mins div 60) + mins mod 60) * 60000" by simp
    then show ?thesis unfolding epoch_day_fields day_minute_ms_def by (simp only: algebra_simps)
  qed
  finally show ?thesis
    by (simp add: zoned_from_def assms(1) c resolve_local_def)
qed

lemma assertValid_zone:
  "assertValidTimeZone zdb tz = Inr () \<Longrightarrow> \<exists>off. zdb tz = Some off"
  by (cases "zdb tz") (auto simp: assertValidTimeZone_def zoned_from_def split: if_splits)

lemma resolveWallClock_wall_text:
  assumes "assertValidTimeZone zdb tz = Inr ()" "zdb tz = Some off" "plain_day n"
    "0 \<le> mins" "mins < 1440"
  shows "resolveWallClock zdb (wall_text n mins) tz p =
    sbind (resolve_local off (policy_text p) (day_minute_ms n mins)) (\<lambda>t.
      Inr \<lparr>wc_instant = t, wc_disambiguated = True, wc_ambiguous = False\<rparr>)"
  using assms by (simp add: resolveWallClock_def parse_wall_text zoned_from_wall_at)

lemma wall_text_hhmm: "wall_text n mins = date_text (civil_of_day n) @ ''T'' @ hhmm mins @ '':00''"
  by (simp add: wall_text_def hhmm_def)

lemma split_hhmm2: "split_on (CHR '':'') (hhmm mins) = [pad_digits 2 (mins div 60), pad_digits 2 (mins mod 60)]"
proof -
  have "hhmm mins = pad_digits 2 (mins div 60) @ CHR '':'' # pad_digits 2 (mins mod 60)"
    by (simp add: hhmm_def)
  then show ?thesis
    by (simp only: split_on_append_sep split_on_no_sep nondigit_notin_pad_digits is_digit_colon
        not_False_eq_True)
qed

lemma hhmm_fields:
  assumes "0 \<le> mins" "mins < 1440"
  shows "hour_of (hhmm mins) = Inr (mins div 60)" "minute_of (hhmm mins) = Inr (mins mod 60)"
proof -
  have "pad_digits 2 (mins mod 60) \<noteq> []" by (metis length_pad_digits list.size(3) zero_neq_numeral)
  then show "hour_of (hhmm mins) = Inr (mins div 60)" "minute_of (hhmm mins) = Inr (mins mod 60)"
    using minute_ranges [OF assms] by (simp_all add: hour_of_def minute_of_def split_hhmm2)
qed

lemma date_fields_plain:
  "plain_day n \<Longrightarrow> date_fields n =
     (c_year (civil_of_day n), c_month (civil_of_day n), c_day (civil_of_day n))"
  using date_numbers [of n] by (simp add: date_fields_def Let_def)

lemma utc_dow_plain:
  assumes "plain_day n" "100 \<le> c_year (civil_of_day n)"
  shows "utc_dow (date_fields n) = iso_weekday n"
proof -
  have "utc_dow (date_fields n) = iso_weekday (epoch_day (Civil (c_year (civil_of_day n))
      (c_month (civil_of_day n)) (c_day (civil_of_day n))))"
    using assms by (simp add: utc_dow_def date_fields_plain del: civil.collapse)
  then show ?thesis by (simp only: epoch_day_fields)
qed

lemma wall_at_split:
  "\<lparr>w_year = c_year (civil_of_day n), w_month = c_month (civil_of_day n),
    w_day = c_day (civil_of_day n), w_hour = mins div 60, w_min = mins mod 60, w_sec = 0\<rparr>
   = wall_at n mins"
  by (simp add: wall_at_def Let_def)

subsection \<open>What a day yields\<close>

definition grid_slots :: "(int \<Rightarrow> int) \<Rightarrow> int \<Rightarrow> int \<Rightarrow> int \<Rightarrow> gen_slot list" where
  "grid_slots \<rho> sm s e =
     filter (\<lambda>g. startUtc g < endUtc g)
       (map (\<lambda>k. \<lparr>startUtc = \<rho> (s + int k * sm), endUtc = \<rho> (s + int k * sm + sm)\<rparr>)
          [0..<nat ((e - s) div sm)])"

lemma grid_slots_step:
  assumes "0 < sm" "s + sm \<le> e"
  shows "grid_slots \<rho> sm s e =
    (if \<rho> s < \<rho> (s + sm) then \<lparr>startUtc = \<rho> s, endUtc = \<rho> (s + sm)\<rparr> # grid_slots \<rho> sm (s + sm) e
     else grid_slots \<rho> sm (s + sm) e)"
proof -
  define m where "m = nat ((e - (s + sm)) div sm)"
  have "(e - s) div sm = (e - (s + sm)) div sm + 1"
    using assms(1) div_add_self2 [of sm "e - (s + sm)"] by simp
  moreover have "0 \<le> (e - (s + sm)) div sm"
    using assms by (simp add: pos_imp_zdiv_nonneg_iff)
  ultimately have n: "nat ((e - s) div sm) = Suc m" by (simp add: m_def)
  show ?thesis
    unfolding grid_slots_def n m_def [symmetric] upt_conv_Cons [OF zero_less_Suc]
      map_Suc_upt [symmetric] list.map map_map comp_def
    by (simp add: algebra_simps)
qed

lemma grid_slots_empty: "e < s + sm \<Longrightarrow> 0 < sm \<Longrightarrow> grid_slots \<rho> sm s e = []"
proof -
  assume "e < s + sm" "0 < sm"
  then have "(e - s) div sm \<le> (sm - 1) div sm" by (intro zdiv_mono1) auto
  also have "(sm - 1) div sm = 0" using \<open>0 < sm\<close> by (intro div_pos_pos_trivial) auto
  finally have "nat ((e - s) div sm) = 0" by simp
  then show ?thesis by (simp only: grid_slots_def upt_0 list.map filter.simps)
qed

lemma slot_loop_grid:
  assumes "\<And>m. cur \<le> m \<Longrightarrow> m \<le> endMin \<Longrightarrow>
      resolveWallClock zdb (wall_text n m) tz Compatible
        = Inr \<lparr>wc_instant = \<rho> m, wc_disambiguated = True, wc_ambiguous = False\<rparr>"
    and "0 < sm"
  shows "slot_loop zdb tz n sm cur endMin = Inr (grid_slots \<rho> sm cur endMin)"
  using assms
proof (induction zdb tz n sm cur endMin rule: slot_loop.induct)
  case (1 zdb tz n sm cur endMin)
  show ?case
  proof (cases "cur + sm \<le> endMin")
    case True
    have g: "0 < sm \<and> cur < endMin \<and> cur + sm \<le> endMin" using True "1.prems"(2) by simp
    have a: "resolveWallClock zdb (wall_text n cur) tz Compatible
        = Inr \<lparr>wc_instant = \<rho> cur, wc_disambiguated = True, wc_ambiguous = False\<rparr>"
      and b: "resolveWallClock zdb (wall_text n (cur + sm)) tz Compatible
        = Inr \<lparr>wc_instant = \<rho> (cur + sm), wc_disambiguated = True, wc_ambiguous = False\<rparr>"
      using g by (auto intro!: "1.prems"(1))
    have "slot_loop zdb tz n sm (cur + sm) endMin = Inr (grid_slots \<rho> sm (cur + sm) endMin)"
      using "1.IH" [OF g a b] "1.prems" g by force
    then show ?thesis
      using g a b by (simp add: slot_loop.simps [of zdb tz n sm cur] grid_slots_step)
  next
    case False
    then show ?thesis
      using "1.prems"(2) by (simp add: slot_loop.simps [of zdb tz n sm cur] grid_slots_empty)
  qed
qed

lemma resolve_wall_text_Inr:
  assumes "assertValidTimeZone zdb tz = Inr ()" "zdb tz = Some off" "plain_day n"
    "0 \<le> m" "m < 1440" "resolve_local off ''compatible'' (day_minute_ms n m) = Inr t"
  shows "resolveWallClock zdb (wall_text n m) tz Compatible
    = Inr \<lparr>wc_instant = t, wc_disambiguated = True, wc_ambiguous = False\<rparr>"
  using assms by (simp add: resolveWallClock_wall_text)

lemma day_slots_grid:
  assumes valid: "assertValidTimeZone zdb tz = Inr ()" "zdb tz = Some off" "plain_day n" "0 < sm"
    and times: "rule_start r = hhmm s" "rule_end r = hhmm e" "0 \<le> s" "s \<le> e" "e < 1440"
    and res: "\<And>m. s \<le> m \<Longrightarrow> m \<le> e \<Longrightarrow> resolve_local off ''compatible'' (day_minute_ms n m) = Inr (\<rho> m)"
  shows "day_slots zdb tz sm r n =
    Inr (if rule_covers r (utc_dow (date_fields n)) then grid_slots \<rho> sm s e else [])"
proof (cases "rule_covers r (utc_dow (date_fields n))")
  case True
  have R: "resolveWallClock zdb (wall_text n m) tz Compatible
      = Inr \<lparr>wc_instant = \<rho> m, wc_disambiguated = True, wc_ambiguous = False\<rparr>"
    if "s \<le> m" "m \<le> e" for m
    using that times by (intro resolve_wall_text_Inr [OF valid(1-3) _ _ res]) auto
  have Z: "zoned_from zdb (wall_at n m) tz ''compatible'' = Inr (\<rho> m)" if "s \<le> m" "m \<le> e" for m
    using that times res by (subst zoned_from_wall_at [of _ _ off]) (auto simp: valid)
  have "slot_loop zdb tz n sm s e = Inr (grid_slots \<rho> sm s e)"
    by (rule slot_loop_grid [OF R valid(4)])
  moreover have "s div 60 * 60 + s mod 60 = s" "e div 60 * 60 + e mod 60 = e" by simp_all
  ultimately show ?thesis
    using True R [of s] R [of e] Z [of s] Z [of e] times
    by (simp add: day_slots_def hhmm_fields date_fields_plain [OF valid(3)] wall_at_split
        wall_text_hhmm)
next
  case False
  then show ?thesis by (simp add: day_slots_def Let_def)
qed

subsection \<open>The loop over the days\<close>

lemma gen_days_concat:
  assumes "\<And>k. n \<le> k \<Longrightarrow> k \<le> to_day \<Longrightarrow> day_slots zdb tz sm r k = Inr (g k)"
    and "n \<le> to_day" "to_day \<le> plain_date_limit"
  shows "gen_days zdb tz sm r n to_day = Inr (concat (map g [n..to_day]))"
  using assms
proof (induction zdb tz sm r n to_day rule: gen_days.induct)
  case (1 zdb tz sm r n to_day)
  show ?case
  proof (cases "n = to_day")
    case True
    then show ?thesis using "1.prems" by (simp add: gen_days.simps [of _ _ _ _ to_day])
  next
    case False
    have d: "day_slots zdb tz sm r n = Inr (g n)" using "1.prems" by simp
    have "gen_days zdb tz sm r (n + 1) to_day = Inr (concat (map g [n + 1..to_day]))"
      using False "1.prems" by (intro "1.IH" [OF d]) auto
    moreover have "[n..to_day] = n # [n + 1..to_day]"
      using "1.prems" by (simp add: upto_rec1)
    ultimately show ?thesis
      using False "1.prems" d by (simp add: gen_days.simps [of _ _ _ _ n])
  qed
qed

text \<open>When \<open>fromDate\<close> is after \<open>toDate\<close> the loop never meets its exit.\<close>

lemma gen_days_past_end:
  assumes "to_day < n"
  shows "\<exists>e. gen_days zdb tz sm r n to_day = Inl e"
  using assms
proof (induction zdb tz sm r n to_day rule: gen_days.induct)
  case (1 zdb tz sm r n to_day)
  show ?case
  proof (cases "day_slots zdb tz sm r n")
    case (Inl e)
    then show ?thesis by (simp add: gen_days.simps [of _ _ _ _ n])
  next
    case (Inr a)
    show ?thesis
    proof (cases "plain_date_limit \<le> n")
      case True
      then show ?thesis using Inr "1.prems" by (simp add: gen_days.simps [of _ _ _ _ n])
    next
      case False
      then obtain e where "gen_days zdb tz sm r (n + 1) to_day = Inl e"
        using "1.IH" [OF Inr] "1.prems" by auto
      then show ?thesis using Inr "1.prems" False by (simp add: gen_days.simps [of _ _ _ _ n])
    qed
  qed
qed

lemma gen_days_Inr_D:
  "gen_days zdb tz sm r n to_day = Inr xs \<Longrightarrow> n \<le> k \<Longrightarrow> k \<le> to_day \<Longrightarrow>
     \<exists>s. day_slots zdb tz sm r k = Inr s"
proof (induction zdb tz sm r n to_day arbitrary: xs rule: gen_days.induct)
  case (1 zdb tz sm r n to_day)
  then obtain s where s: "day_slots zdb tz sm r n = Inr s"
    by (cases "day_slots zdb tz sm r n") (auto simp: gen_days.simps [of _ _ _ _ n])
  show ?case
  proof (cases "k = n")
    case True
    with s show ?thesis by blast
  next
    case False
    with "1.prems" s have "\<not> plain_date_limit \<le> n" "n \<noteq> to_day"
      by (auto simp: gen_days.simps [of _ _ _ _ n] split: if_splits)
    moreover obtain ys where "gen_days zdb tz sm r (n + 1) to_day = Inr ys"
      using "1.prems"(1) s calculation
      by (auto simp: gen_days.simps [of _ _ _ _ n] sbind_Inr_iff)
    ultimately show ?thesis using "1.IH" [OF s] "1.prems" False by auto
  qed
qed

subsection \<open>Ranges of parsed dates\<close>

lemma c_year_mono: "a \<le> b \<Longrightarrow> c_year (civil_of_day a) \<le> c_year (civil_of_day b)"
  using civil_of_day_less_iff [of a b] by (cases "a = b") (auto simp: less_civil_def)

lemma civil_of_day_eqI: "valid_civil c \<Longrightarrow> epoch_day c = n \<Longrightarrow> civil_of_day n = c"
  using civil_of_day_epoch_day by blast

lemma year_0_day: "civil_of_day (- 719528) = Civil 0 1 1"
  and year_100_day: "civil_of_day (- 683003) = Civil 100 1 1"
  and year_9999_day: "civil_of_day 2932896 = Civil 9999 12 31"
  by (intro civil_of_day_eqI; simp add: days_in_month_def leap_def days_before_year_def
      days_before_month_def)+

lemma digits_val_bounds:
  "list_all is_digit s \<Longrightarrow> 0 \<le> digits_val s \<and> digits_val s < 10 ^ length s"
proof (induction s rule: rev_induct)
  case Nil
  then show ?case by (simp add: digits_val_def)
next
  case (snoc c s)
  have "0 \<le> digit_val c" "digit_val c \<le> 9"
    using snoc.prems by (simp_all add: is_digit_def digit_val_def)
  moreover have "0 \<le> digits_val s" "digits_val s < 10 ^ length s"
    using snoc by simp_all
  ultimately show ?case by (simp add: digits_val_snoc)
qed

lemma parse_plain_date_range:
  assumes "parse_plain_date s = Inr n"
  shows "0 \<le> c_year (civil_of_day n)" "c_year (civil_of_day n) \<le> 9999" "n \<le> 2932896"
proof -
  obtain y m d where p: "valid_civil (Civil y m d)" "n = epoch_day (Civil y m d)" "0 \<le> y" "y < 10 ^ 4"
  proof -
    from assms obtain ys ms ds where "length ys = 4" "list_all is_digit ys"
      "valid_civil (Civil (digits_val ys) (digits_val ms) (digits_val ds))"
      "n = epoch_day (Civil (digits_val ys) (digits_val ms) (digits_val ds))"
      by (auto simp: parse_plain_date_def split: list.splits if_splits)
    with digits_val_bounds [of ys] show ?thesis by (intro that) auto
  qed
  then have c: "civil_of_day n = Civil y m d" using civil_of_day_epoch_day by blast
  with p show "0 \<le> c_year (civil_of_day n)" "c_year (civil_of_day n) \<le> 9999" by auto
  show "n \<le> 2932896"
  proof (rule ccontr)
    assume "\<not> n \<le> 2932896"
    then have "civil_of_day 2932896 < civil_of_day n" by (simp add: civil_of_day_less_iff)
    with c p show False
      by (auto simp: year_9999_day less_civil_def days_in_month_def split: if_splits)
  qed
qed

lemma plain_day_between:
  assumes "parse_plain_date f = Inr a" "parse_plain_date t = Inr b" "a \<le> n" "n \<le> b"
  shows "plain_day n" "n \<le> plain_date_limit"
  using parse_plain_date_range [OF assms(1)] parse_plain_date_range [OF assms(2)]
    c_year_mono [OF assms(3)] c_year_mono [OF assms(4)] assms(4)
  by (simp_all add: plain_day_def plain_date_limit_def)

subsection \<open>Order of the generated slots\<close>

lemma sorted_concat_map:
  assumes "\<And>n. n \<in> set ns \<Longrightarrow> sorted_wrt R (g n)"
    and "\<And>n m x y. n \<in> set ns \<Longrightarrow> m \<in> set ns \<Longrightarrow> n < m \<Longrightarrow> x \<in> set (g n) \<Longrightarrow> y \<in> set (g m) \<Longrightarrow> R x y"
    and "sorted_wrt (<) (ns :: int list)"
  shows "sorted_wrt R (concat (map g ns))"
  using assms
proof (induction ns)
  case Nil
  then show ?case by simp
next
  case (Cons n ns)
  have "sorted_wrt R (concat (map g ns))"
    using Cons.prems by (intro Cons.IH) (auto intro: Cons.prems(2))
  moreover have "\<forall>x \<in> set (g n). \<forall>m \<in> set ns. \<forall>y \<in> set (g m). R x y"
  proof (intro ballI)
    fix x m y
    assume "x \<in> set (g n)" "m \<in> set ns" "y \<in> set (g m)"
    then show "R x y"
      using Cons.prems(2) [of n m x y] Cons.prems(3) by simp
  qed
  moreover have "sorted_wrt R (g n)" using Cons.prems(1) by simp
  ultimately show ?case by (auto simp: sorted_wrt_append)
qed

lemma sorted_wrt_upto: "sorted_wrt (<) [a..b]"
proof (induction "nat (b - a + 1)" arbitrary: a)
  case 0
  then show ?case by simp
next
  case (Suc k)
  then have "a \<le> b" by simp
  then have "[a..b] = a # [a + 1..b]" by (simp add: upto_rec1)
  moreover have "sorted_wrt (<) [a + 1..b]" using Suc by simp
  ultimately show ?case by simp
qed

text \<open>A zone whose offset never changes.\<close>

definition fixed_slots :: "int \<Rightarrow> int \<Rightarrow> int \<Rightarrow> int \<Rightarrow> int \<Rightarrow> gen_slot list" where
  "fixed_slots ofs sm s e n =
     map (\<lambda>k. \<lparr>startUtc = day_minute_ms n (s + int k * sm) - ofs,
              endUtc = day_minute_ms n (s + int k * sm + sm) - ofs\<rparr>) [0..<nat ((e - s) div sm)]"

lemma grid_slots_fixed:
  "0 < sm \<Longrightarrow> grid_slots (\<lambda>m. day_minute_ms n m - ofs) sm s e = fixed_slots ofs sm s e n"
  by (simp add: grid_slots_def fixed_slots_def filter_id_conv day_minute_ms_def)

lemma possible_instants_fixed: "possible_instants (\<lambda>_. ofs) l = [l - ofs]"
  by (simp add: possible_instants_def)

lemma resolve_fixed:
  "\<bar>l - ofs\<bar> \<le> instant_limit \<Longrightarrow> resolve_local (\<lambda>_. ofs) ''compatible'' l = Inr (l - ofs)"
  by (simp add: resolve_local_def disambiguate_def possible_instants_fixed first_of_def)

lemma fixed_slots_bounds:
  assumes "g \<in> set (fixed_slots ofs sm s e n)" "0 < sm" "0 \<le> s" "e < 1440"
  shows "n * ms_per_day - ofs \<le> startUtc g" "endUtc g \<le> n * ms_per_day + 1439 * 60000 - ofs"
    "startUtc g < endUtc g"
proof -
  obtain k where k: "k < nat ((e - s) div sm)"
    and g: "g = \<lparr>startUtc = day_minute_ms n (s + int k * sm) - ofs,
              endUtc = day_minute_ms n (s + int k * sm + sm) - ofs\<rparr>"
    using assms(1) by (auto simp: fixed_slots_def)
  have "(int k + 1) * sm \<le> (e - s) div sm * sm"
    using k assms(2) by (intro mult_right_mono) auto
  also have "\<dots> \<le> e - s" using assms(2) by (simp add: minus_mod_eq_div_mult [symmetric])
  finally have "s + int k * sm + sm \<le> e" by (simp add: algebra_simps)
  moreover have "0 \<le> int k * sm" using assms(2) by simp
  ultimately show "n * ms_per_day - ofs \<le> startUtc g"
    "endUtc g \<le> n * ms_per_day + 1439 * 60000 - ofs" "startUtc g < endUtc g"
    using assms by (simp_all add: g day_minute_ms_def)
qed

lemma fixed_slots_disjoint:
  assumes "0 < sm"
  shows "sorted_wrt (\<lambda>x y. endUtc x \<le> startUtc y) (fixed_slots ofs sm s e n)"
proof -
  have "day_minute_ms n (s + int i * sm + sm) \<le> day_minute_ms n (s + int j * sm)" if "i < j" for i j
  proof -
    have "(int i + 1) * sm \<le> int j * sm" using that assms by (intro mult_right_mono) auto
    then show ?thesis by (simp add: day_minute_ms_def algebra_simps)
  qed
  then show ?thesis
    by (simp add: fixed_slots_def sorted_wrt_map sorted_wrt_iff_nth_less)
qed

lemma four_digit_between:
  assumes "0 \<le> n" "n < 2932896" "n * ms_per_day - ofs \<le> t" "t < (n + 1) * ms_per_day - ofs"
    "\<bar>ofs\<bar> \<le> ms_per_day"
  shows "four_digit_year t"
proof -
  have "(n - 1) * ms_per_day \<le> t" "t < (n + 2) * ms_per_day"
    using assms(3-5) by (auto simp: algebra_simps)
  then have "n - 1 \<le> t div ms_per_day" "t div ms_per_day \<le> n + 1"
    by (simp_all add: ms_per_day_def)
  then have "c_year (civil_of_day (- 719528)) \<le> c_year (civil_of_day (t div ms_per_day))"
    "c_year (civil_of_day (t div ms_per_day)) \<le> c_year (civil_of_day 2932896)"
    using assms(1,2) by (auto intro!: c_year_mono)
  then show ?thesis by (simp add: four_digit_year_def year_0_day year_9999_day Let_def)
qed

lemma day_minute_mod_1000: "(day_minute_ms n m - ofs) mod 1000 = (- ofs) mod 1000"
proof -
  have "day_minute_ms n m - ofs = 1000 * (n * 86400 + m * 60) + (- ofs)"
    by (simp add: day_minute_ms_def ms_per_day_def)
  then show ?thesis by (metis mod_mult_self4)
qed

lemma fixed_slots_chronological:
  assumes "0 < sm" "0 \<le> s" "e < 1440"
  shows "sorted_wrt (\<lambda>x y. endUtc x \<le> startUtc y)
    (concat (map (\<lambda>n. if covers n then fixed_slots ofs sm s e n else []) [a..b]))"
proof (rule sorted_concat_map)
  show "sorted_wrt (<) [a..b]" by (rule sorted_wrt_upto)
  show "sorted_wrt (\<lambda>x y. endUtc x \<le> startUtc y) (if covers n then fixed_slots ofs sm s e n else [])"
    for n using fixed_slots_disjoint [OF assms(1)] by simp
  fix n m :: int and x y
  assume "n < m" "x \<in> set (if covers n then fixed_slots ofs sm s e n else [])"
    "y \<in> set (if covers m then fixed_slots ofs sm s e m else [])"
  then have "endUtc x \<le> n * ms_per_day + 1439 * 60000 - ofs" "m * ms_per_day - ofs \<le> startUtc y"
    "(n + 1) * ms_per_day \<le> m * ms_per_day"
    using fixed_slots_bounds [OF _ assms(1-3)]
    by (auto split: if_splits simp: ms_per_day_def simp del: mult_le_cancel_right)
  then show "endUtc x \<le> startUtc y" by (simp add: ms_per_day_def)
qed

lemma sort_key_iso_fixed:
  fixes covers :: "int \<Rightarrow> bool"
  assumes "0 < sm" "0 \<le> s" "e < 1440" "0 \<le> a" "b < 2932896" "\<bar>ofs\<bar> \<le> ms_per_day"
  defines "xs \<equiv> concat (map (\<lambda>n. if covers n then fixed_slots ofs sm s e n else []) [a..b])"
  shows "sort_key (\<lambda>g. iso_instant (startUtc g)) xs = xs"
proof -
  have el: "four_digit_year (startUtc g) \<and> startUtc g mod 1000 = (- ofs) mod 1000
      \<and> startUtc g < endUtc g" if g: "g \<in> set xs" for g
  proof -
    from g obtain n where n: "a \<le> n" "n \<le> b" and gn: "g \<in> set (fixed_slots ofs sm s e n)"
      by (auto simp: xs_def split: if_splits)
    note fb = fixed_slots_bounds [OF gn assms(1-3)]
    have "startUtc g < (n + 1) * ms_per_day - ofs"
      using fb by (simp add: ms_per_day_def)
    then have "four_digit_year (startUtc g)"
      using n fb assms(4-6) by (intro four_digit_between [of n ofs]) auto
    moreover have "startUtc g mod 1000 = (- ofs) mod 1000"
      using gn by (auto simp: fixed_slots_def day_minute_mod_1000)
    ultimately show ?thesis using fb by simp
  qed
  have "sorted_wrt (\<lambda>x y. endUtc x \<le> startUtc y) xs"
    unfolding xs_def by (rule fixed_slots_chronological [OF assms(1-3)])
  then have "sorted_wrt (\<lambda>x y. iso_instant (startUtc x) \<le> iso_instant (startUtc y)) xs"
    by (rule sorted_wrt_mono_rel [rotated]) (use el iso_instant_le_iff in force)
  then have "sorted (map (\<lambda>g. iso_instant (startUtc g)) xs)"
    by (simp add: sorted_map)
  then show ?thesis by (rule sort_key_id_if_sorted)
qed

lemma assertValid_fixed:
  assumes "zdb tz = Some (\<lambda>_. ofs)" "tz \<noteq> []" "\<bar>ofs\<bar> \<le> ms_per_day"
  shows "assertValidTimeZone zdb tz = Inr ()"
proof -
  have "civil_of_day 20454 = Civil 2026 1 1"
    by (rule civil_of_day_eqI) (simp_all add: days_in_month_def leap_def days_before_year_def
        days_before_month_def)
  then have w: "\<lparr>w_year = 2026, w_month = 1, w_day = 1, w_hour = 12, w_min = 0, w_sec = 0\<rparr>
      = wall_at 20454 720" by (simp add: wall_at_def)
  have "resolve_local (\<lambda>_. ofs) ''compatible'' (day_minute_ms 20454 720)
      = Inr (day_minute_ms 20454 720 - ofs)"
    using assms(3) by (intro resolve_fixed) (auto simp: day_minute_ms_def ms_per_day_def instant_limit_def)
  then show ?thesis
    using assms(2) by (simp add: assertValidTimeZone_def w zoned_from_wall_at [of zdb tz "\<lambda>_. ofs"] assms(1))
qed

lemma gen_days_grid:
  assumes "assertValidTimeZone zdb tz = Inr ()" "zdb tz = Some off" "0 < sm"
    and "parse_plain_date f = Inr a" "parse_plain_date t = Inr b" "a \<le> b"
    and "rule_start r = hhmm s" "rule_end r = hhmm e" "0 \<le> s" "s \<le> e" "e < 1440"
    and "\<And>n m. a \<le> n \<Longrightarrow> n \<le> b \<Longrightarrow> s \<le> m \<Longrightarrow> m \<le> e \<Longrightarrow>
      resolve_local off ''compatible'' (day_minute_ms n m) = Inr (\<rho> n m)"
  shows "gen_days zdb tz sm r a b = Inr (concat (map
      (\<lambda>n. if rule_covers r (utc_dow (date_fields n)) then grid_slots (\<rho> n) sm s e else []) [a..b]))"
proof -
  have "day_slots zdb tz sm r n =
      Inr (if rule_covers r (utc_dow (date_fields n)) then grid_slots (\<rho> n) sm s e else [])"
    if "a \<le> n" "n \<le> b" for n
    using that assms plain_day_between [OF assms(4,5)]
    by (intro day_slots_grid [of zdb tz off]) auto
  moreover have "b \<le> plain_date_limit"
    using plain_day_between [OF assms(4,5)] assms(6) by blast
  ultimately show ?thesis
    using assms(6) by (intro gen_days_concat) auto
qed

subsection \<open>Properties\<close>

text \<open>C8. For every zone and every rule given as HH:MM times, if each local minute of the window
  resolves on each day from \<open>fromDate\<close> to \<open>toDate\<close> (to \<open>\<rho> n m\<close> on day \<open>n\<close>), then \<open>generateSlots\<close>
  returns exactly, on the days the rule covers, the slots between consecutive grid times whose end
  is after their start, in the order of the texts of their starts. This covers DST days.\<close>

theorem generateSlots_exact:
  assumes "assertValidTimeZone zdb tz = Inr ()" "zdb tz = Some off" "5 \<le> sm" "sm \<le> 240"
    and "parse_plain_date f = Inr a" "parse_plain_date t = Inr b" "a \<le> b"
    and "rule_start r = hhmm s" "rule_end r = hhmm e" "0 \<le> s" "s \<le> e" "e < 1440"
    and "\<And>n m. a \<le> n \<Longrightarrow> n \<le> b \<Longrightarrow> s \<le> m \<Longrightarrow> m \<le> e \<Longrightarrow>
      resolve_local off ''compatible'' (day_minute_ms n m) = Inr (\<rho> n m)"
  shows "generateSlots zdb tz sm r f t =
    Inr (sort_key (\<lambda>g. iso_instant (startUtc g))
      (concat (map (\<lambda>n. if rule_covers r (utc_dow (date_fields n)) then grid_slots (\<rho> n) sm s e else [])
        [a..b])))"
  using gen_days_grid [of zdb tz off sm f a t b r s e \<rho>] assms by (simp add: generateSlots_def)

lemma generateSlots_fixed:
  assumes "zdb tz = Some (\<lambda>_. ofs)" "tz \<noteq> []" "\<bar>ofs\<bar> \<le> ms_per_day" "5 \<le> sm" "sm \<le> 240"
    and "parse_plain_date f = Inr a" "parse_plain_date t = Inr b" "0 \<le> a" "a \<le> b" "b < 2932896"
    and "rule_start r = hhmm s" "rule_end r = hhmm e" "0 \<le> s" "s \<le> e" "e < 1440"
  shows "\<exists>slots. generateSlots zdb tz sm r f t = Inr slots
    \<and> slots = concat (map (\<lambda>n. if rule_covers r (iso_weekday n) then fixed_slots ofs sm s e n else [])
        [a..b])
    \<and> sorted_wrt (\<lambda>x y. endUtc x \<le> startUtc y) slots"
proof -
  let ?xs = "concat (map (\<lambda>n. if rule_covers r (iso_weekday n) then fixed_slots ofs sm s e n else []) [a..b])"
  have valid: "assertValidTimeZone zdb tz = Inr ()"
    using assms(1-3) by (rule assertValid_fixed)
  have res: "resolve_local (\<lambda>_. ofs) ''compatible'' (day_minute_ms n m) = Inr (day_minute_ms n m - ofs)"
    if "a \<le> n" "n \<le> b" "s \<le> m" "m \<le> e" for n m
  proof (rule resolve_fixed)
    have "0 \<le> day_minute_ms n m" "day_minute_ms n m \<le> 2932896 * ms_per_day + 1440 * 60000"
      using that assms(8,10,13,15) by (auto simp: day_minute_ms_def ms_per_day_def)
    then show "\<bar>day_minute_ms n m - ofs\<bar> \<le> instant_limit"
      using assms(3) by (simp add: instant_limit_def ms_per_day_def)
  qed
  have dow: "utc_dow (date_fields n) = iso_weekday n" if "a \<le> n" "n \<le> b" for n
    using that assms(8) plain_day_between [OF assms(6,7) that] c_year_mono [of "- 683003" n]
    by (intro utc_dow_plain) (auto simp: year_100_day)
  have "gen_days zdb tz sm r a b = Inr (concat (map (\<lambda>n. if rule_covers r (utc_dow (date_fields n))
      then grid_slots (\<lambda>m. day_minute_ms n m - ofs) sm s e else []) [a..b]))"
    using assms by (intro gen_days_grid [where off = "\<lambda>_. ofs"] valid res) auto
  also have "map (\<lambda>n. if rule_covers r (utc_dow (date_fields n))
      then grid_slots (\<lambda>m. day_minute_ms n m - ofs) sm s e else []) [a..b]
    = map (\<lambda>n. if rule_covers r (iso_weekday n) then fixed_slots ofs sm s e n else []) [a..b]"
    using dow assms(4) by (intro map_cong) (auto simp: grid_slots_fixed)
  finally have "generateSlots zdb tz sm r f t = Inr (sort_key (\<lambda>g. iso_instant (startUtc g)) ?xs)"
    using assms valid by (simp add: generateSlots_def)
  moreover have "sort_key (\<lambda>g. iso_instant (startUtc g)) ?xs = ?xs"
    using assms by (intro sort_key_iso_fixed) auto
  moreover have "sorted_wrt (\<lambda>x y. endUtc x \<le> startUtc y) ?xs"
    using assms by (intro fixed_slots_chronological) auto
  ultimately show ?thesis by simp
qed

text \<open>In a zone whose offset does not change, between 1970 and 9999, \<open>generateSlots\<close> returns on
  each covered weekday the \<open>(e - s) div sm\<close> slots of \<open>sm\<close> minutes that tile the window from its start,
  day by day, and the whole list is chronological without overlap.\<close>

theorem generateSlots_fixed_offset:
  assumes "zdb tz = Some (\<lambda>_. ofs)" "tz \<noteq> []" "\<bar>ofs\<bar> \<le> ms_per_day" "5 \<le> sm" "sm \<le> 240"
    and "parse_plain_date f = Inr a" "parse_plain_date t = Inr b" "0 \<le> a" "a \<le> b" "b < 2932896"
    and "rule_start r = hhmm s" "rule_end r = hhmm e" "0 \<le> s" "s \<le> e" "e < 1440"
  shows "\<exists>slots. generateSlots zdb tz sm r f t = Inr slots
    \<and> slots = concat (map (\<lambda>n. if rule_covers r (iso_weekday n) then fixed_slots ofs sm s e n else [])
        [a..b])
    \<and> sorted_wrt (\<lambda>x y. endUtc x \<le> startUtc y) slots"
  using assms by (rule generateSlots_fixed)


subsection \<open>Instants of a local time\<close>

lemma possible_instants_sound: "t \<in> set (possible_instants off l) \<Longrightarrow> t + off t = l"
  unfolding possible_instants_def by (simp only: set_sort set_remdups set_filter) blast

lemma sorted_possible_instants: "sorted (possible_instants off l)"
  by (simp add: possible_instants_def)

lemma disambiguate_compatible:
  assumes "possible_instants off l \<noteq> []"
  shows "disambiguate off ''compatible'' l = Inr (hd (possible_instants off l))"
  using assms by (cases "possible_instants off l") (simp_all add: disambiguate_def first_of_def)

lemma hd_possible_least:
  "u \<in> set (possible_instants off l) \<Longrightarrow> hd (possible_instants off l) \<le> u"
  using sorted_possible_instants [of off l] by (cases "possible_instants off l") auto

text \<open>The offset of New York in 2026, in milliseconds: it springs forward on 8 March at 07:00 UTC
  and falls back on 1 November at 06:00 UTC. It is the concrete zone of the closed statements.\<close>

definition ny_offset :: "int \<Rightarrow> int" where
  "ny_offset t = (if t < 1772953200000 \<or> 1793512800000 \<le> t then - 18000000 else - 14400000)"

definition ny_zone :: zone_db where
  "ny_zone tz = (if tz = ''America/New_York'' then Some ny_offset
                 else if tz = ''UTC'' then Some (\<lambda>_. 0) else None)"

lemma ny_valid: "assertValidTimeZone ny_zone ''America/New_York'' = Inr ()"
  by code_simp

lemma utc_valid: "assertValidTimeZone ny_zone ''UTC'' = Inr ()"
  by code_simp

definition spring_time :: "int \<Rightarrow> int" where
  "spring_time m = day_minute_ms 20520 m + (if m < 180 then 18000000 else 14400000)"

definition fall_time :: "int \<Rightarrow> int" where
  "fall_time m = day_minute_ms 20758 m + (if m < 120 then 14400000 else 18000000)"

lemma ny_spring_resolves:
  "60 \<le> m \<Longrightarrow> m \<le> 240 \<Longrightarrow>
     resolve_local ny_offset ''compatible'' (day_minute_ms 20520 m) = Inr (spring_time m)"
  by (auto simp: resolve_local_def disambiguate_def possible_instants_def ny_offset_def
      day_minute_ms_def ms_per_day_def spring_time_def first_of_def last_of_def instant_limit_def Let_def)

lemma ny_fall_resolves:
  "60 \<le> m \<Longrightarrow> m \<le> 240 \<Longrightarrow>
     resolve_local ny_offset ''compatible'' (day_minute_ms 20758 m) = Inr (fall_time m)"
  by (auto simp: resolve_local_def disambiguate_def possible_instants_def ny_offset_def
      day_minute_ms_def ms_per_day_def fall_time_def first_of_def last_of_def instant_limit_def Let_def)

definition night_rule :: "rules option" where
  "night_rule = Some \<lparr>daysOfWeek = None, startTime = Some ''01:00'', endTime = Some ''04:00''\<rparr>"

lemma night_rule_times: "rule_start night_rule = hhmm 60" "rule_end night_rule = hhmm 240"
  by (code_simp, code_simp)

lemma night_rule_covers [simp]: "rule_covers night_rule d"
  by (simp add: night_rule_def rule_covers_def)

lemma ny_spring_date: "parse_plain_date ''2026-03-08'' = Inr 20520"
  and ny_fall_date: "parse_plain_date ''2026-11-01'' = Inr 20758"
  by (code_simp, code_simp)

lemma ny_gen_days:
  "gen_days ny_zone ''America/New_York'' 30 night_rule 20520 20520 = Inr (grid_slots spring_time 30 60 240)"
  "gen_days ny_zone ''America/New_York'' 30 night_rule 20758 20758 = Inr (grid_slots fall_time 30 60 240)"
  using gen_days_grid [where \<rho> = "\<lambda>_. spring_time" and off = ny_offset, OF ny_valid _ _ ny_spring_date
      ny_spring_date _ night_rule_times, of 30]
    gen_days_grid [where \<rho> = "\<lambda>_. fall_time" and off = ny_offset, OF ny_valid _ _ ny_fall_date
      ny_fall_date _ night_rule_times, of 30] ny_spring_resolves ny_fall_resolves
  by (simp_all add: ny_zone_def)

lemma ny_generate:
  "generateSlots ny_zone ''America/New_York'' 30 night_rule ''2026-03-08'' ''2026-03-08''
     = Inr (sort_key (\<lambda>g. iso_instant (startUtc g)) (grid_slots spring_time 30 60 240))"
  "generateSlots ny_zone ''America/New_York'' 30 night_rule ''2026-11-01'' ''2026-11-01''
     = Inr (sort_key (\<lambda>g. iso_instant (startUtc g)) (grid_slots fall_time 30 60 240))"
  by (simp_all add: generateSlots_def ny_valid ny_spring_date ny_fall_date ny_gen_days)

subsection \<open>Properties of resolution and of the transition days\<close>

text \<open>A wall-clock text with the compatible policy, in a valid zone: when some instant has that
  local time, the result is such an instant, the earliest, and the returned flags are constant,
  so an ambiguous time is never reported as such.\<close>

theorem resolveWallClock_compatible:
  assumes "assertValidTimeZone zdb tz = Inr ()" "zdb tz = Some off" "plain_day n"
    and "0 \<le> mins" "mins < 1440"
    and "possible_instants off (day_minute_ms n mins) \<noteq> []"
    and "\<forall>t \<in> set (possible_instants off (day_minute_ms n mins)). \<bar>t\<bar> \<le> instant_limit"
  shows "\<exists>t. resolveWallClock zdb (wall_text n mins) tz Compatible
      = Inr \<lparr>wc_instant = t, wc_disambiguated = True, wc_ambiguous = False\<rparr>
    \<and> t + off t = day_minute_ms n mins
    \<and> (\<forall>u \<in> set (possible_instants off (day_minute_ms n mins)). t \<le> u)"
proof (intro exI conjI)
  let ?ts = "possible_instants off (day_minute_ms n mins)"
  have h: "hd ?ts \<in> set ?ts" using assms(6) by simp
  show "resolveWallClock zdb (wall_text n mins) tz Compatible
      = Inr \<lparr>wc_instant = hd ?ts, wc_disambiguated = True, wc_ambiguous = False\<rparr>"
    using assms h
    by (simp add: resolveWallClock_wall_text resolve_local_def disambiguate_compatible)
  show "hd ?ts + off (hd ?ts) = day_minute_ms n mins"
    using possible_instants_sound [OF h] .
  show "\<forall>u \<in> set ?ts. hd ?ts \<le> u"
    using hd_possible_least by blast
qed

lemma ny_one_thirty:
  "possible_instants ny_offset (day_minute_ms 20758 90) = [1793511000000, 1793514600000]"
  by (simp add: possible_instants_def ny_offset_def day_minute_ms_def ms_per_day_def)

lemma plain_day_2026: "plain_day 20758"
  using plain_day_between [OF ny_fall_date ny_fall_date] by simp

theorem resolveWallClock_compatible_witness:
  "\<exists>t. resolveWallClock ny_zone (wall_text 20758 90) ''America/New_York'' Compatible
      = Inr \<lparr>wc_instant = t, wc_disambiguated = True, wc_ambiguous = False\<rparr>
    \<and> t + ny_offset t = day_minute_ms 20758 90
    \<and> (\<forall>u \<in> set (possible_instants ny_offset (day_minute_ms 20758 90)). t \<le> u)"
  by (rule resolveWallClock_compatible [OF ny_valid _ plain_day_2026])
    (simp_all add: ny_zone_def ny_one_thirty instant_limit_def)

text \<open>Two of the four policies the type allows, \<open>earliest\<close> and \<open>latest\<close>, are no disambiguation
  option of \<open>Temporal\<close> (it has \<open>earlier\<close> and \<open>later\<close>): no text and no zone resolves with them.\<close>

theorem resolveWallClock_earliest_latest:
  "\<not> (\<exists>r. resolveWallClock zdb s tz Earliest = Inr r) \<and> \<not> (\<exists>r. resolveWallClock zdb s tz Latest = Inr r)"
  by (auto simp: resolveWallClock_def zoned_from_def disambiguate_def sbind_Inr_iff Let_def
      split: option.splits)

text \<open>On the spring-forward day \<open>generateSlots\<close> lists one slot twice: the local times inside the
  gap resolve to instants that the hour after the gap has as well.\<close>

theorem generateSlots_spring_forward_duplicates:
  "\<exists>slots. generateSlots ny_zone ''America/New_York'' 30 night_rule ''2026-03-08'' ''2026-03-08'' = Inr slots
     \<and> \<not> distinct slots
     \<and> count_list slots \<lparr>startUtc = 1772953200000, endUtc = 1772955000000\<rparr> = 2"
proof -
  let ?xs = "grid_slots spring_time 30 60 240"
  have g: "?xs = map (\<lambda>t. \<lparr>startUtc = 1772949600000 + t, endUtc = 1772949600000 + t + 1800000\<rparr>)
      [0, 1800000, 3600000, 3600000, 5400000]"
    by (simp add: grid_slots_def spring_time_def day_minute_ms_def ms_per_day_def upt_rec)
  have "count_list (sort_key (\<lambda>g. iso_instant (startUtc g)) ?xs)
      \<lparr>startUtc = 1772953200000, endUtc = 1772955000000\<rparr> = 2"
    unfolding count_mset [symmetric] mset_sort by (simp add: g)
  moreover have "\<not> distinct (sort_key (\<lambda>g. iso_instant (startUtc g)) ?xs)"
    by (simp add: g)
  ultimately show ?thesis by (simp add: ny_generate)
qed

text \<open>On the fall-back day \<open>generateSlots\<close> lists a slot of 90 minutes for a slot length of 30: its
  start is before the repeated hour and its end resolves after it.\<close>

theorem generateSlots_fall_back_long_slot:
  "\<exists>slots g. generateSlots ny_zone ''America/New_York'' 30 night_rule ''2026-11-01'' ''2026-11-01'' = Inr slots
     \<and> g \<in> set slots \<and> endUtc g - startUtc g = 90 * 60000"
proof -
  have "\<lparr>startUtc = 1793511000000, endUtc = 1793516400000\<rparr> \<in> set (grid_slots fall_time 30 60 240)"
    by (simp add: grid_slots_def fall_time_def day_minute_ms_def ms_per_day_def upt_rec)
  then show ?thesis by (force simp: ny_generate)
qed

subsection \<open>Properties of the reminders and of the cancellation window\<close>

lemma fire_loop_filter:
  "fire_loop start now offs = filter (\<lambda>t. now < t) (map (\<lambda>off. start - off * 60000) offs)"
  by (induction offs) (simp_all add: Let_def)

lemma insort_key_same_order:
  "(\<And>y. y \<in> set ys \<Longrightarrow> f x \<le> f y \<longleftrightarrow> x \<le> y) \<Longrightarrow> insort_key f x ys = insort x ys"
  for f :: "'a::linorder \<Rightarrow> 'b::linorder"
  by (induction ys) auto

lemma sort_key_same_order:
  "(\<And>x y. x \<in> set xs \<Longrightarrow> y \<in> set xs \<Longrightarrow> f x \<le> f y \<longleftrightarrow> x \<le> y) \<Longrightarrow> sort_key f xs = sort xs"
  for f :: "'a::linorder \<Rightarrow> 'b::linorder"
proof (induction xs)
  case Nil
  show ?case by simp
next
  case (Cons x xs)
  then have "sort_key f xs = sort xs" by simp
  moreover have "insort_key f x (sort xs) = insort x (sort xs)"
    using Cons.prems by (intro insort_key_same_order) simp
  ultimately show ?case by simp
qed

text \<open>C10. \<open>reminderFireTimes\<close> is the chronological list of the fire times \<open>slotStart - offset\<close> that are
  still in the future, one per offset, although the source sorts their texts; for offsets that
  are not negative these are the times of \<open>subtractElapsed\<close>.\<close>

theorem reminderFireTimes_chronological:
  assumes "\<forall>off \<in> set offsets. 0 \<le> off \<and> four_digit_year (slotStart - off * 60000)"
  shows "reminderFireTimes slotStart offsets now =
    sort (filter (\<lambda>t. now < t) (map (subtractElapsed slotStart) offsets))"
proof -
  let ?ts = "filter (\<lambda>t. now < t) (map (\<lambda>off. slotStart - off * 60000) offsets)"
  have same: "map (subtractElapsed slotStart) offsets = map (\<lambda>off. slotStart - off * 60000) offsets"
    using assms by (auto simp: subtractElapsed_def)
  have ok: "four_digit_year t \<and> t mod 1000 = slotStart mod 1000" if "t \<in> set ?ts" for t
  proof -
    from that obtain off where o: "off \<in> set offsets" "t = slotStart - off * 60000" by auto
    then have "t = 1000 * (- 60 * off) + slotStart" by simp
    then have "t mod 1000 = slotStart mod 1000" by (metis mod_mult_self4)
    with o assms show ?thesis by blast
  qed
  have "sort_key iso_instant ?ts = sort ?ts"
    using ok iso_instant_le_iff by (intro sort_key_same_order) auto
  then show ?thesis by (simp add: reminderFireTimes_def fire_loop_filter same)
qed

text \<open>The last permitted instant is exactly \<open>h\<close> hours before the start.\<close>

lemma isCancellable_iff:
  "isCancellable now slotStart h \<longleftrightarrow> slotStart - now \<ge> h * 3600000"
  by (auto simp: isCancellable_def Let_def)

subsection \<open>Concrete instances\<close>

theorem generateSlots_exact_witness:
  "generateSlots ny_zone ''America/New_York'' 30 night_rule ''2026-03-08'' ''2026-03-08'' =
    Inr (sort_key (\<lambda>g. iso_instant (startUtc g))
      (concat (map (\<lambda>n. if rule_covers night_rule (utc_dow (date_fields n))
         then grid_slots (\<lambda>m. spring_time m) 30 60 240 else []) [20520..20520])))"
  by (rule generateSlots_exact [where \<rho> = "\<lambda>n m. spring_time m" and off = ny_offset,
        OF ny_valid _ _ _ ny_spring_date ny_spring_date _ night_rule_times])
    (auto simp: ny_zone_def ny_spring_resolves dest: order_antisym)

definition office_rule :: "rules option" where
  "office_rule = Some \<lparr>daysOfWeek = Some [1, 2, 3, 4, 5], startTime = None, endTime = None\<rparr>"

lemma office_rule_times: "rule_start office_rule = hhmm 540" "rule_end office_rule = hhmm 1020"
  by (code_simp, code_simp)

theorem generateSlots_fixed_offset_witness:
  "\<exists>slots. generateSlots ny_zone ''UTC'' 30 office_rule ''2026-03-08'' ''2026-11-01'' = Inr slots
    \<and> slots = concat (map (\<lambda>n. if rule_covers office_rule (iso_weekday n)
         then fixed_slots 0 30 540 1020 n else []) [20520..20758])
    \<and> sorted_wrt (\<lambda>x y. endUtc x \<le> startUtc y) slots"
  by (rule generateSlots_fixed_offset [OF _ _ _ _ _ ny_spring_date ny_fall_date _ _ _ office_rule_times])
    (simp_all add: ny_zone_def ms_per_day_def)


theorem reminderFireTimes_chronological_witness:
  "reminderFireTimes 1793548800000 [1440, 60] 1793500000000 =
    sort (filter (\<lambda>t. 1793500000000 < t) (map (subtractElapsed 1793548800000) [1440, 60]))"
proof (rule reminderFireTimes_chronological)
  have "four_digit_year 1793462400000" "four_digit_year 1793545200000" by code_simp+
  then show "\<forall>off \<in> set [1440, 60]. 0 \<le> off \<and> four_digit_year (1793548800000 - off * 60000)"
    by simp
qed

end
