(* ===== verification/Store.thy ===== *)
theory Store
  imports Prelude
begin

text \<open>
  The PostgreSQL tables of \<^verbatim>\<open>packages/db/migrations\<close> the services read and write, each as its list of
  rows, and one function per SQL statement. A statement either raises an error with its SQLSTATE
  code or returns its rows and the new tables; the constraints of the schema (primary keys, the
  partial unique index \<open>bookings_one_live_per_slot\<close>, foreign keys, status checks) are the guards of the
  writes. Instants are milliseconds, identifiers are texts.
\<close>

subsection \<open>Rows\<close>

datatype slot_status = Open | Held | Blocked

text \<open>\<open>Held\<close> is the text \<open>booked\<close> of a slot; \<open>Booked\<close> below is the text \<open>booked\<close> of a booking.\<close>

datatype booking_status = Booked | Completed | Cancelled | No_Show

datatype reminder_status = Scheduled | Sending | Sent | R_Cancelled | Skipped | Failed

record slot_row =
  s_id :: string
  s_provider :: string
  s_start :: int
  s_end :: int
  s_tz :: string
  s_status :: slot_status

record booking_row =
  b_id :: string
  b_slot :: string
  b_client :: string
  b_tz :: string
  b_status :: booking_status
  b_version :: int
  b_provider :: "string option"
  b_event_type :: "string option"
  b_created :: int
  b_cancelled_at :: "int option"

record provider_row =
  p_id :: string
  p_name :: string
  p_tz :: string
  p_slot_minutes :: int
  p_window :: int
  p_notice :: "int option"

record client_row =
  c_id :: string
  c_email :: string
  c_name :: string
  c_company :: string
  c_opt_out :: bool

record event_type_row =
  e_id :: string
  e_provider :: string
  e_title :: string
  e_slug :: string
  e_duration :: int
  e_price :: "int option"
  e_active :: bool

record reminder_row =
  r_id :: string
  r_booking :: string
  r_offset :: int
  r_fire :: int
  r_status :: reminder_status
  r_attempts :: int
  r_locked :: "int option"
  r_sent_at :: "int option"
  r_message :: "string option"
  r_error :: "string option"

record idem_row =
  i_client :: string
  i_key :: string
  i_hash :: string
  i_status :: int
  i_booking :: string

record note_row =
  n_id :: string
  n_type :: string
  n_provider :: "string option"
  n_client :: "string option"
  n_booking :: "string option"
  n_title :: string
  n_message :: string
  n_read :: bool
  n_created :: int

record activity_row =
  a_action :: string
  a_provider :: "string option"
  a_client :: "string option"
  a_booking :: "string option"
  a_created :: int

record tables =
  slots :: "slot_row list"
  bookings :: "booking_row list"
  providers :: "provider_row list"
  clients :: "client_row list"
  event_types :: "event_type_row list"
  reminders :: "reminder_row list"
  idempotency :: "idem_row list"
  notifs :: "note_row list"
  activities :: "activity_row list"

subsection \<open>Errors\<close>

datatype exn =
    Pg_Error (pg_code: string) (pg_text: string)
  | Js_Error (js_text: string)
  | Http_Exception (http_status: int) (http_text: string)
  | Reminder_Error (re_text: string) (re_code: string) (re_status: int)
  | Network_Error (ne_text: string)
  | Provider_Error (pe_text: string) (pe_message: "string option")
  | Email_Error (em_text: string) (em_code: string) (em_message: "string option")

fun exn_text :: "exn \<Rightarrow> string" where
  "exn_text (Pg_Error _ m) = m"
| "exn_text (Js_Error m) = m"
| "exn_text (Http_Exception _ m) = m"
| "exn_text (Reminder_Error m _ _) = m"
| "exn_text (Network_Error m) = m"
| "exn_text (Provider_Error m _) = m"
| "exn_text (Email_Error m _ _) = m"

text \<open>\<open>e.code === '23505' || e.code === '23P01'\<close>.\<close>

fun is_conflict :: "exn \<Rightarrow> bool" where
  "is_conflict (Pg_Error c _) = (c = ''23505'' \<or> c = ''23P01'')"
| "is_conflict _ = False"

definition unique_violation :: exn where
  "unique_violation = Pg_Error ''23505'' ''duplicate key value violates unique constraint''"

definition fk_violation :: exn where
  "fk_violation = Pg_Error ''23503'' ''insert or update violates foreign key constraint''"

definition check_violation :: exn where
  "check_violation = Pg_Error ''23514'' ''new row violates check constraint''"

lemma is_conflict_simps [simp]:
  "is_conflict unique_violation" "\<not> is_conflict fk_violation" "\<not> is_conflict check_violation"
  by (simp_all add: unique_violation_def fk_violation_def check_violation_def)

subsection \<open>Statements\<close>

text \<open>A statement gets \<open>now()\<close> and the identifier a \<open>gen_random_uuid()\<close> default draws.\<close>

type_synonym 'a stmt = "int \<Rightarrow> string \<Rightarrow> tables \<Rightarrow> exn + 'a \<times> tables"

definition sel :: "(tables \<Rightarrow> 'a) \<Rightarrow> 'a stmt" where
  "sel f n u t = Inr (f t, t)"

definition slots_by_id :: "string \<Rightarrow> tables \<Rightarrow> slot_row list" where
  "slots_by_id i t = filter (\<lambda>s. s_id s = i) (slots t)"

definition bookings_by_id :: "string \<Rightarrow> tables \<Rightarrow> booking_row list" where
  "bookings_by_id i t = filter (\<lambda>b. b_id b = i) (bookings t)"

definition providers_by_id :: "string \<Rightarrow> tables \<Rightarrow> provider_row list" where
  "providers_by_id i t = filter (\<lambda>p. p_id p = i) (providers t)"

definition clients_by_id :: "string \<Rightarrow> tables \<Rightarrow> client_row list" where
  "clients_by_id i t = filter (\<lambda>c. c_id c = i) (clients t)"

definition event_types_by_id :: "string \<Rightarrow> tables \<Rightarrow> event_type_row list" where
  "event_types_by_id i t = filter (\<lambda>e. e_id e = i) (event_types t)"

definition idem_by_key :: "string \<Rightarrow> string \<Rightarrow> tables \<Rightarrow> idem_row list" where
  "idem_by_key c k t = filter (\<lambda>i. i_client i = c \<and> i_key i = k) (idempotency t)"

definition live :: "booking_row \<Rightarrow> bool" where
  "live b \<longleftrightarrow> b_status b \<noteq> Cancelled"

definition live_on :: "string \<Rightarrow> tables \<Rightarrow> booking_row list" where
  "live_on s t = filter (\<lambda>b. live b \<and> b_slot b = s) (bookings t)"

text \<open>\<open>UPDATE slots SET status = 'booked' WHERE id = $1 AND status = 'open' AND ... RETURNING\<close>.\<close>

definition claim_slot :: "string \<Rightarrow> (int \<Rightarrow> bool) \<Rightarrow> slot_row list stmt" where
  "claim_slot i ok n u t =
     (let hit = (\<lambda>s. s_id s = i \<and> s_status s = Open \<and> ok (s_start s));
          book = (\<lambda>s. s\<lparr>s_status := Held\<rparr>)
      in Inr (map book (filter hit (slots t)), t\<lparr>slots := upd_where hit book (slots t)\<rparr>))"

definition set_slot_open :: "string \<Rightarrow> unit stmt" where
  "set_slot_open i n u t =
     Inr ((), t\<lparr>slots := upd_where (\<lambda>s. s_id s = i) (\<lambda>s. s\<lparr>s_status := Open\<rparr>) (slots t)\<rparr>)"

definition new_booking ::
    "string \<Rightarrow> string \<Rightarrow> string \<Rightarrow> string option \<Rightarrow> string option \<Rightarrow> int \<Rightarrow> int \<Rightarrow> string \<Rightarrow> booking_row" where
  "new_booking slot client tz prov et ver n u =
     \<lparr>b_id = u, b_slot = slot, b_client = client, b_tz = tz, b_status = Booked, b_version = ver,
      b_provider = prov, b_event_type = et, b_created = n, b_cancelled_at = None\<rparr>"

definition insert_booking ::
    "string \<Rightarrow> string \<Rightarrow> string \<Rightarrow> string option \<Rightarrow> string option \<Rightarrow> int \<Rightarrow> booking_row stmt" where
  "insert_booking slot client tz prov et ver n u t =
     (if u \<in> b_id ` set (bookings t) \<or> live_on slot t \<noteq> [] then Inl unique_violation
      else if slot \<notin> s_id ` set (slots t) \<or> client \<notin> c_id ` set (clients t)
        \<or> (case prov of None \<Rightarrow> False | Some p \<Rightarrow> p \<notin> p_id ` set (providers t)) then Inl fk_violation
      else let b = new_booking slot client tz prov et ver n u in
        Inr (b, t\<lparr>bookings := bookings t @ [b]\<rparr>))"

definition new_reminder :: "string \<Rightarrow> int \<Rightarrow> int \<Rightarrow> string \<Rightarrow> reminder_row" where
  "new_reminder bk off fire u =
     \<lparr>r_id = u, r_booking = bk, r_offset = off, r_fire = fire, r_status = Scheduled, r_attempts = 0,
      r_locked = None, r_sent_at = None, r_message = None, r_error = None\<rparr>"

definition insert_reminder :: "string \<Rightarrow> int \<Rightarrow> int \<Rightarrow> unit stmt" where
  "insert_reminder bk off fire n u t =
     (if u \<in> r_id ` set (reminders t) \<or> (bk, off) \<in> (\<lambda>r. (r_booking r, r_offset r)) ` set (reminders t)
        then Inl unique_violation
      else if bk \<notin> b_id ` set (bookings t) then Inl fk_violation
      else Inr ((), t\<lparr>reminders := reminders t @ [new_reminder bk off fire u]\<rparr>))"

definition insert_idem :: "string \<Rightarrow> string \<Rightarrow> string \<Rightarrow> string \<Rightarrow> unit stmt" where
  "insert_idem c k h bk n u t =
     (if (c, k) \<in> (\<lambda>i. (i_client i, i_key i)) ` set (idempotency t) then Inl unique_violation
      else if c \<notin> c_id ` set (clients t) then Inl fk_violation
      else Inr ((), t\<lparr>idempotency := idempotency t @
        [\<lparr>i_client = c, i_key = k, i_hash = h, i_status = 201, i_booking = bk\<rparr>]\<rparr>))"

fun booking_status_of :: "string \<Rightarrow> booking_status option" where
  "booking_status_of s =
     (if s = ''booked'' then Some Booked else if s = ''completed'' then Some Completed
      else if s = ''cancelled'' then Some Cancelled else if s = ''no_show'' then Some No_Show
      else None)"

fun booking_status_text :: "booking_status \<Rightarrow> string" where
  "booking_status_text Booked = ''booked''"
| "booking_status_text Completed = ''completed''"
| "booking_status_text Cancelled = ''cancelled''"
| "booking_status_text No_Show = ''no_show''"

lemma booking_status_of_text [simp]: "booking_status_of (booking_status_text s) = Some s"
  by (cases s) auto

text \<open>
  \<open>UPDATE bookings SET status = ... WHERE id = ...\<close>: the text is checked against the allowed
  statuses, and a booking that becomes live again is checked against the partial unique index.
\<close>

definition set_booking ::
    "string \<Rightarrow> string \<Rightarrow> (int \<Rightarrow> booking_row \<Rightarrow> booking_row) \<Rightarrow> unit stmt" where
  "set_booking i st f n u t =
     (case booking_status_of st of
        None \<Rightarrow> if bookings_by_id i t = [] then Inr ((), t) else Inl check_violation
      | Some s \<Rightarrow>
          (let hit = (\<lambda>b. b_id b = i); t' = t\<lparr>bookings := upd_where hit (\<lambda>b. (f n b)\<lparr>b_status := s\<rparr>) (bookings t)\<rparr>
           in if s \<noteq> Cancelled \<and> (\<exists>b \<in> set (bookings_by_id i t). 1 < length (live_on (b_slot b) t'))
              then Inl unique_violation else Inr ((), t')))"

definition cancel_reminders :: "string \<Rightarrow> (reminder_status \<Rightarrow> bool) \<Rightarrow> unit stmt" where
  "cancel_reminders bk p n u t =
     Inr ((), t\<lparr>reminders := upd_where (\<lambda>r. r_booking r = bk \<and> p (r_status r))
       (\<lambda>r. r\<lparr>r_status := R_Cancelled\<rparr>) (reminders t)\<rparr>)"

definition insert_note ::
    "string \<Rightarrow> string option \<Rightarrow> string option \<Rightarrow> string option \<Rightarrow> string \<Rightarrow> string \<Rightarrow> unit stmt" where
  "insert_note ty p c bk title msg n u t =
     Inr ((), t\<lparr>notifs := notifs t @ [\<lparr>n_id = u, n_type = ty, n_provider = p, n_client = c,
       n_booking = bk, n_title = title, n_message = msg, n_read = False, n_created = n\<rparr>]\<rparr>)"

definition insert_activity :: "string \<Rightarrow> string option \<Rightarrow> string option \<Rightarrow> string option \<Rightarrow> unit stmt" where
  "insert_activity act p c bk n u t =
     Inr ((), t\<lparr>activities := activities t @ [\<lparr>a_action = act, a_provider = p, a_client = c,
       a_booking = bk, a_created = n\<rparr>]\<rparr>)"

subsection \<open>What the schema enforces\<close>

definition keys_ok :: "tables \<Rightarrow> bool" where
  "keys_ok t \<longleftrightarrow> distinct (map s_id (slots t)) \<and> distinct (map b_id (bookings t))
     \<and> distinct (map (\<lambda>i. (i_client i, i_key i)) (idempotency t))
     \<and> distinct (map (\<lambda>r. (r_booking r, r_offset r)) (reminders t))"

definition one_live_per_slot :: "tables \<Rightarrow> bool" where
  "one_live_per_slot t \<longleftrightarrow> (\<forall>s. length (live_on s t) \<le> 1)"

definition refs_ok :: "tables \<Rightarrow> bool" where
  "refs_ok t \<longleftrightarrow> (\<forall>b \<in> set (bookings t). b_slot b \<in> s_id ` set (slots t) \<and> b_client b \<in> c_id ` set (clients t))
     \<and> (\<forall>r \<in> set (reminders t). r_booking r \<in> b_id ` set (bookings t))"

text \<open>
  The agreement of the two status columns: a live booking's slot is held, and a held slot has a
  live booking. The schema does not enforce it; the services have to.
\<close>

definition live_held :: "tables \<Rightarrow> bool" where
  "live_held t \<longleftrightarrow> (\<forall>s \<in> set (slots t). live_on (s_id s) t \<noteq> [] \<longrightarrow> s_status s = Held)"

definition held_live :: "tables \<Rightarrow> bool" where
  "held_live t \<longleftrightarrow> (\<forall>s \<in> set (slots t). s_status s = Held \<longrightarrow> live_on (s_id s) t \<noteq> [])"

definition schema_ok :: "tables \<Rightarrow> bool" where
  "schema_ok t \<longleftrightarrow> keys_ok t \<and> one_live_per_slot t \<and> refs_ok t"

definition consistent :: "tables \<Rightarrow> bool" where
  "consistent t \<longleftrightarrow> schema_ok t \<and> live_held t \<and> held_live t"

subsection \<open>Every statement keeps what the schema enforces\<close>

definition keeps_stmt :: "(tables \<Rightarrow> bool) \<Rightarrow> 'a stmt \<Rightarrow> bool" where
  "keeps_stmt I st \<longleftrightarrow> (\<forall>n u t a t'. I t \<longrightarrow> st n u t = Inr (a, t') \<longrightarrow> I t')"

lemma keeps_stmtI:
  "(\<And>n u t a t'. I t \<Longrightarrow> st n u t = Inr (a, t') \<Longrightarrow> I t') \<Longrightarrow> keeps_stmt I st"
  by (auto simp: keeps_stmt_def)

lemma keeps_stmtD: "keeps_stmt I st \<Longrightarrow> I t \<Longrightarrow> st n u t = Inr (a, t') \<Longrightarrow> I t'"
  by (auto simp: keeps_stmt_def)

lemma sel_keeps [pres_intros]: "keeps_stmt I (sel f)"
  by (simp add: keeps_stmt_def sel_def)

lemma live_on_cong: "bookings t' = bookings t \<Longrightarrow> live_on s t' = live_on s t"
  by (simp add: live_on_def)

lemma schema_ok_slots:
  assumes "schema_ok t" "map s_id ss = map s_id (slots t)"
  shows "schema_ok (t\<lparr>slots := ss\<rparr>)"
proof -
  have "s_id ` set ss = s_id ` set (slots t)"
    using assms(2) by (metis list.set_map)
  then show ?thesis
    using assms by (simp add: schema_ok_def keys_ok_def one_live_per_slot_def refs_ok_def live_on_def)
qed

lemma claim_slot_schema [pres_intros]: "keeps_stmt schema_ok (claim_slot i ok)"
  by (rule keeps_stmtI) (auto simp: claim_slot_def Let_def map_upd_where intro!: schema_ok_slots)

lemma set_slot_open_schema [pres_intros]: "keeps_stmt schema_ok (set_slot_open i)"
  by (rule keeps_stmtI) (auto simp: set_slot_open_def map_upd_where intro!: schema_ok_slots)

lemma live_on_append:
  "live_on s (t\<lparr>bookings := bookings t @ [b]\<rparr>) = live_on s t @ (if live b \<and> b_slot b = s then [b] else [])"
  by (simp add: live_on_def)

lemma insert_booking_schema [pres_intros]:
  "keeps_stmt schema_ok (insert_booking slot client tz prov et ver)"
proof (rule keeps_stmtI)
  fix n u t b t'
  assume ok: "schema_ok t" and ins: "insert_booking slot client tz prov et ver n u t = Inr (b, t')"
  then have new: "u \<notin> b_id ` set (bookings t)" "live_on slot t = []" "slot \<in> s_id ` set (slots t)"
    "client \<in> c_id ` set (clients t)"
    and t': "t' = t\<lparr>bookings := bookings t @ [b]\<rparr>" and b: "b = new_booking slot client tz prov et ver n u"
    by (auto simp: insert_booking_def Let_def split: if_splits option.splits)
  have "keys_ok t'" "refs_ok t'"
    using ok new by (auto simp: t' b schema_ok_def keys_ok_def refs_ok_def new_booking_def)
  moreover have "one_live_per_slot t'"
    using ok new by (auto simp: t' b schema_ok_def one_live_per_slot_def live_on_append new_booking_def)
  ultimately show "schema_ok t'" by (simp add: schema_ok_def)
qed

lemma insert_reminder_schema [pres_intros]: "keeps_stmt schema_ok (insert_reminder bk off fire)"
  by (rule keeps_stmtI)
    (auto simp: insert_reminder_def schema_ok_def keys_ok_def refs_ok_def one_live_per_slot_def
      live_on_def new_reminder_def split: if_splits)

lemma insert_idem_schema [pres_intros]: "keeps_stmt schema_ok (insert_idem c k h bk)"
  by (rule keeps_stmtI)
    (auto simp: insert_idem_def schema_ok_def keys_ok_def refs_ok_def one_live_per_slot_def
      live_on_def split: if_splits)

lemma schema_ok_other:
  "schema_ok t \<Longrightarrow> schema_ok (t\<lparr>notifs := x\<rparr>)"
  "schema_ok t \<Longrightarrow> schema_ok (t\<lparr>activities := y\<rparr>)"
  by (simp_all add: schema_ok_def keys_ok_def refs_ok_def one_live_per_slot_def live_on_def)

lemma insert_note_schema [pres_intros]: "keeps_stmt schema_ok (insert_note ty p c bk title msg)"
  by (rule keeps_stmtI) (auto simp: insert_note_def intro: schema_ok_other)

lemma insert_activity_schema [pres_intros]: "keeps_stmt schema_ok (insert_activity act p c bk)"
  by (rule keeps_stmtI) (auto simp: insert_activity_def intro: schema_ok_other)

lemma schema_ok_reminders:
  assumes "schema_ok t" "map r_booking rs = map r_booking (reminders t)"
    "map r_offset rs = map r_offset (reminders t)"
  shows "schema_ok (t\<lparr>reminders := rs\<rparr>)"
proof -
  have "map (\<lambda>r. (r_booking r, r_offset r)) rs = zip (map r_booking rs) (map r_offset rs)"
    "map (\<lambda>r. (r_booking r, r_offset r)) (reminders t)
      = zip (map r_booking (reminders t)) (map r_offset (reminders t))"
    by (simp_all add: zip_map_map zip_same_conv_map)
  then have "map (\<lambda>r. (r_booking r, r_offset r)) rs = map (\<lambda>r. (r_booking r, r_offset r)) (reminders t)"
    using assms by simp
  moreover have "r_booking ` set rs = r_booking ` set (reminders t)"
    using assms(2) by (metis list.set_map)
  ultimately show ?thesis
    using assms(1)
    by (auto simp: schema_ok_def keys_ok_def one_live_per_slot_def refs_ok_def live_on_def
        image_subset_iff [symmetric])
qed

lemma cancel_reminders_schema [pres_intros]: "keeps_stmt schema_ok (cancel_reminders bk p)"
  by (rule keeps_stmtI)
    (auto simp: cancel_reminders_def map_upd_where intro!: schema_ok_reminders)

text \<open>The columns an update of a booking leaves alone.\<close>

definition keeps_refs :: "(int \<Rightarrow> booking_row \<Rightarrow> booking_row) \<Rightarrow> bool" where
  "keeps_refs f \<longleftrightarrow> (\<forall>n b. b_id (f n b) = b_id b \<and> b_slot (f n b) = b_slot b \<and> b_client (f n b) = b_client b)"

lemma live_on_cancelled:
  assumes "keeps_refs f"
  shows "live_on x (t\<lparr>bookings := upd_where (\<lambda>b. b_id b = i) (\<lambda>b. (f n b)\<lparr>b_status := Cancelled\<rparr>) bs\<rparr>)
    = filter (\<lambda>b. live b \<and> b_slot b = x \<and> b_id b \<noteq> i) bs"
proof -
  have "filter (\<lambda>b. live b \<and> b_slot b = x) (upd_where (\<lambda>b. b_id b = i) (\<lambda>b. (f n b)\<lparr>b_status := Cancelled\<rparr>) bs)
    = filter (\<lambda>b. live b \<and> b_slot b = x \<and> b_id b \<noteq> i) bs"
    by (induction bs) (auto simp: live_def)
  then show ?thesis by (simp add: live_on_def)
qed

lemma live_on_other_slot:
  assumes "keeps_refs f" "\<And>b. b \<in> set bs \<Longrightarrow> b_id b = i \<Longrightarrow> b_slot b \<noteq> x"
  shows "live_on x (t\<lparr>bookings := upd_where (\<lambda>b. b_id b = i) (\<lambda>b. (f n b)\<lparr>b_status := st\<rparr>) bs\<rparr>)
    = filter (\<lambda>b. live b \<and> b_slot b = x) bs"
proof -
  have "filter (\<lambda>b. live b \<and> b_slot b = x) (upd_where (\<lambda>b. b_id b = i) (\<lambda>b. (f n b)\<lparr>b_status := st\<rparr>) bs)
    = filter (\<lambda>b. live b \<and> b_slot b = x) bs"
    using assms by (induction bs) (auto simp: keeps_refs_def)
  then show ?thesis by (simp add: live_on_def)
qed

lemma filter_length_mono: "(\<And>x. x \<in> set xs \<Longrightarrow> p x \<Longrightarrow> q x) \<Longrightarrow> length (filter p xs) \<le> length (filter q xs)"
  by (induction xs) (auto simp: le_SucI)

lemma keys_refs_set_booking:
  fixes t :: tables and i :: string and n :: int and s :: booking_status
  assumes "keys_ok t" "refs_ok t" "keeps_refs f"
  defines "t' \<equiv> t\<lparr>bookings := upd_where (\<lambda>b. b_id b = i) (\<lambda>b. (f n b)\<lparr>b_status := s\<rparr>) (bookings t)\<rparr>"
  shows "keys_ok t'" "refs_ok t'"
proof -
  let ?bs = "upd_where (\<lambda>b. b_id b = i) (\<lambda>b. (f n b)\<lparr>b_status := s\<rparr>) (bookings t)"
  have ids: "map b_id ?bs = map b_id (bookings t)"
    using assms(3) by (intro map_upd_where) (simp add: keeps_refs_def)
  then show "keys_ok t'" using assms(1) by (simp add: t'_def keys_ok_def)
  have "b_id ` set ?bs = b_id ` set (bookings t)" using ids by (metis list.set_map)
  moreover have "b_slot b \<in> s_id ` set (slots t) \<and> b_client b \<in> c_id ` set (clients t)"
    if "b \<in> set ?bs" for b
    using that assms(2,3) by (auto elim!: in_upd_whereE simp: refs_ok_def keeps_refs_def)
  ultimately show "refs_ok t'" using assms(2) by (simp add: t'_def refs_ok_def)
qed

lemma set_booking_schema:
  assumes "keeps_refs f"
  shows "keeps_stmt schema_ok (set_booking i st f)"
proof (rule keeps_stmtI)
  fix n u t a t'
  assume ok: "schema_ok t" and upd: "set_booking i st f n u t = Inr (a, t')"
  show "schema_ok t'"
  proof (cases "booking_status_of st")
    case None
    with upd ok show ?thesis by (simp add: set_booking_def split: if_splits)
  next
    case (Some s)
    define bs where "bs = upd_where (\<lambda>b. b_id b = i) (\<lambda>b. (f n b)\<lparr>b_status := s\<rparr>) (bookings t)"
    have t': "t' = t\<lparr>bookings := bs\<rparr>"
      and guard: "s \<noteq> Cancelled \<Longrightarrow> b \<in> set (bookings_by_id i t) \<Longrightarrow> length (live_on (b_slot b) t') \<le> 1" for b
      using upd Some by (auto simp: set_booking_def bs_def Let_def not_less split: if_splits)
    have one: "length (live_on x t') \<le> 1" for x
    proof (cases "\<exists>b \<in> set (bookings_by_id i t). b_slot b = x")
      case True
      then obtain b where b: "b \<in> set (bookings_by_id i t)" "b_slot b = x" by blast
      show ?thesis
      proof (cases "s = Cancelled")
        case True
        have "live_on x t' = filter (\<lambda>b. live b \<and> b_slot b = x \<and> b_id b \<noteq> i) (bookings t)"
          unfolding t' bs_def True by (rule live_on_cancelled [OF assms])
        moreover have "length (filter (\<lambda>b. live b \<and> b_slot b = x \<and> b_id b \<noteq> i) (bookings t))
            \<le> length (filter (\<lambda>b. live b \<and> b_slot b = x) (bookings t))"
          by (rule filter_length_mono) auto
        ultimately show ?thesis
          using ok by (metis live_on_def one_live_per_slot_def order_trans schema_ok_def)
      next
        case False
        with guard b show ?thesis by blast
      qed
    next
      case False
      then have "live_on x t' = filter (\<lambda>b. live b \<and> b_slot b = x) (bookings t)"
        unfolding t' bs_def by (intro live_on_other_slot [OF assms]) (auto simp: bookings_by_id_def)
      then show ?thesis using ok by (simp add: schema_ok_def one_live_per_slot_def live_on_def)
    qed
    show ?thesis
      using keys_refs_set_booking [where t = t and f = f and i = i and n = n and s = s] assms ok one
      by (simp add: schema_ok_def t' bs_def one_live_per_slot_def)
  qed
qed

text \<open>\<open>UPDATE reminder_jobs SET ... WHERE ... RETURNING *\<close>.\<close>

definition upd_reminders ::
    "(reminder_row \<Rightarrow> bool) \<Rightarrow> (int \<Rightarrow> reminder_row \<Rightarrow> reminder_row) \<Rightarrow> reminder_row list stmt" where
  "upd_reminders p f n u t =
     Inr (map (f n) (filter p (reminders t)), t\<lparr>reminders := upd_where p (f n) (reminders t)\<rparr>)"

definition keeps_reminder_key :: "(int \<Rightarrow> reminder_row \<Rightarrow> reminder_row) \<Rightarrow> bool" where
  "keeps_reminder_key f \<longleftrightarrow> (\<forall>n r. r_booking (f n r) = r_booking r \<and> r_offset (f n r) = r_offset r)"

lemma upd_reminders_schema:
  "keeps_reminder_key f \<Longrightarrow> keeps_stmt schema_ok (upd_reminders p f)"
  by (rule keeps_stmtI)
    (auto simp: upd_reminders_def keeps_reminder_key_def map_upd_where intro!: schema_ok_reminders)

end
