(* ===== verification/Consistency.thy ===== *)
theory Consistency
  imports Store
begin

text \<open>
  The effects the booking operations have on the tables when they succeed, as functions on the
  tables, and when they keep the two status columns in agreement: a slot is held exactly while a
  live booking is on it.
\<close>

lemma consistent_iff:
  "consistent t \<longleftrightarrow> schema_ok t \<and> (\<forall>s \<in> set (slots t). s_status s = Held \<longleftrightarrow> live_on (s_id s) t \<noteq> [])"
  by (auto simp: consistent_def live_held_def held_live_def)

lemma consistent_schema: "consistent t \<Longrightarrow> schema_ok t"
  by (simp add: consistent_def)

lemma booking_unique:
  "schema_ok t \<Longrightarrow> b \<in> set (bookings t) \<Longrightarrow> b' \<in> set (bookings t) \<Longrightarrow> b_id b = b_id b' \<Longrightarrow> b = b'"
  by (auto simp: schema_ok_def keys_ok_def intro: distinct_map_eqD)

lemma slot_unique:
  "schema_ok t \<Longrightarrow> s \<in> set (slots t) \<Longrightarrow> s' \<in> set (slots t) \<Longrightarrow> s_id s = s_id s' \<Longrightarrow> s = s'"
  by (auto simp: schema_ok_def keys_ok_def intro: distinct_map_eqD)

lemma bookings_by_id_Cons:
  assumes "schema_ok t" "bookings_by_id i t = b # bs"
  shows "b \<in> set (bookings t)" "b_id b = i" "bs = []"
  using filter_key_Cons [of b_id "bookings t" i b bs] assms
  by (auto simp: schema_ok_def keys_ok_def bookings_by_id_def)

lemma slots_by_id_Cons:
  assumes "schema_ok t" "slots_by_id i t = s # ss"
  shows "s \<in> set (slots t)" "s_id s = i" "ss = []"
  using filter_key_Cons [of s_id "slots t" i s ss] assms
  by (auto simp: schema_ok_def keys_ok_def slots_by_id_def)

lemma bookings_by_id_mem: "bookings_by_id i t = b # bs \<Longrightarrow> b \<in> set (bookings t) \<and> b_id b = i"
  by (metis (mono_tags, lifting) bookings_by_id_def list.set_intros(1) mem_Collect_eq set_filter)

lemma slots_by_id_mem: "slots_by_id i t = s # ss \<Longrightarrow> s \<in> set (slots t) \<and> s_id s = i"
  by (metis (mono_tags, lifting) slots_by_id_def list.set_intros(1) mem_Collect_eq set_filter)

lemma clients_by_id_mem: "clients_by_id i t = c # cs \<Longrightarrow> c \<in> set (clients t) \<and> c_id c = i"
  by (metis (mono_tags, lifting) clients_by_id_def list.set_intros(1) mem_Collect_eq set_filter)

lemma live_on_unique:
  assumes "schema_ok t" "b \<in> set (bookings t)" "live b"
  shows "live_on (b_slot b) t = [b]"
proof -
  have "b \<in> set (live_on (b_slot b) t)" using assms by (simp add: live_on_def)
  moreover have "length (live_on (b_slot b) t) \<le> 1"
    using assms(1) by (simp add: schema_ok_def one_live_per_slot_def)
  ultimately show ?thesis by (cases "live_on (b_slot b) t") auto
qed

subsection \<open>Effects\<close>

definition with_status :: "string \<Rightarrow> booking_status \<Rightarrow> (booking_row \<Rightarrow> booking_row) \<Rightarrow> tables \<Rightarrow> tables" where
  "with_status i st f t =
     t\<lparr>bookings := upd_where (\<lambda>b. b_id b = i) (\<lambda>b. (f b)\<lparr>b_status := st\<rparr>) (bookings t)\<rparr>"

definition freed :: "string \<Rightarrow> tables \<Rightarrow> tables" where
  "freed i t = t\<lparr>slots := upd_where (\<lambda>s. s_id s = i) (\<lambda>s. s\<lparr>s_status := Open\<rparr>) (slots t)\<rparr>"

definition held :: "string \<Rightarrow> tables \<Rightarrow> tables" where
  "held i t = t\<lparr>slots := upd_where (\<lambda>s. s_id s = i) (\<lambda>s. s\<lparr>s_status := Held\<rparr>) (slots t)\<rparr>"

definition with_booking :: "booking_row \<Rightarrow> tables \<Rightarrow> tables" where
  "with_booking b t = t\<lparr>bookings := bookings t @ [b]\<rparr>"

definition refs_kept :: "(booking_row \<Rightarrow> booking_row) \<Rightarrow> bool" where
  "refs_kept f \<longleftrightarrow> keeps_refs (\<lambda>_. f)"

lemma effect_slots [simp]:
  "slots (with_status i st f t) = slots t" "slots (with_booking b t) = slots t"
  "bookings (freed i t) = bookings t" "bookings (held i t) = bookings t"
  "bookings (with_booking b t) = bookings t @ [b]"
  by (simp_all add: with_status_def with_booking_def freed_def held_def)

lemma held_columns [simp]:
  "s_id ` set (slots (held i t)) = s_id ` set (slots t)" "clients (held i t) = clients t"
  "reminders (held i t) = reminders t" "idempotency (held i t) = idempotency t"
  by (simp_all add: held_def image_upd_where)

lemma with_booking_columns [simp]:
  "clients (with_booking b t) = clients t" "reminders (with_booking b t) = reminders t"
  "idempotency (with_booking b t) = idempotency t"
  by (simp_all add: with_booking_def)

lemma live_on_freed [simp]: "live_on x (freed i t) = live_on x t"
  and live_on_held [simp]: "live_on x (held i t) = live_on x t"
  by (simp_all add: live_on_def)

lemma live_on_with_booking:
  "live_on x (with_booking b t) = live_on x t @ (if live b \<and> b_slot b = x then [b] else [])"
  by (simp add: live_on_def)

lemma freed_schema: "schema_ok t \<Longrightarrow> schema_ok (freed i t)"
  and held_schema: "schema_ok t \<Longrightarrow> schema_ok (held i t)"
  by (auto simp: freed_def held_def map_upd_where intro!: schema_ok_slots)

lemma with_status_schema:
  assumes "schema_ok t" "refs_kept f" "st = Cancelled \<or> (\<forall>b \<in> set (bookings t). b_id b = i \<longrightarrow> live b)"
  shows "schema_ok (with_status i st f t)"
proof -
  have k: "keeps_refs (\<lambda>_. f)" using assms(2) by (simp add: refs_kept_def)
  have "length (live_on x (with_status i st f t)) \<le> length (live_on x t)" for x
  proof (cases "st = Cancelled")
    case True
    have "live_on x (with_status i st f t) = filter (\<lambda>b. live b \<and> b_slot b = x \<and> b_id b \<noteq> i) (bookings t)"
      unfolding with_status_def True using live_on_cancelled [OF k, where x = x and t = t and i = i and bs = "bookings t"] by simp
    then show ?thesis by (auto simp: live_on_def intro: filter_length_mono)
  next
    case False
    have "length (filter (\<lambda>b. live b \<and> b_slot b = x) (upd_where (\<lambda>b. b_id b = i) (\<lambda>b. (f b)\<lparr>b_status := st\<rparr>) bs))
        \<le> length (filter (\<lambda>b. live b \<and> b_slot b = x) bs)"
      if "set bs \<subseteq> set (bookings t)" for bs
      using that assms(3) False k by (induction bs) (auto simp: keeps_refs_def)
    then show ?thesis by (simp add: live_on_def with_status_def)
  qed
  then have "one_live_per_slot (with_status i st f t)"
    using assms(1) by (meson one_live_per_slot_def order_trans schema_ok_def)
  then show ?thesis
    using keys_refs_set_booking [where t = t and f = "\<lambda>_. f" and i = i and s = st and n = 0] k assms(1)
    by (simp add: schema_ok_def with_status_def)
qed

lemma live_on_with_status_live:
  assumes "refs_kept f" "st \<noteq> Cancelled" "\<forall>b \<in> set (bookings t). b_id b = i \<longrightarrow> live b"
  shows "live_on x (with_status i st f t) \<noteq> [] \<longleftrightarrow> live_on x t \<noteq> []"
proof -
  have "(filter (\<lambda>b. live b \<and> b_slot b = x) (upd_where (\<lambda>b. b_id b = i) (\<lambda>b. (f b)\<lparr>b_status := st\<rparr>) bs) = [])
      = (filter (\<lambda>b. live b \<and> b_slot b = x) bs = [])"
    if "set bs \<subseteq> set (bookings t)" for bs
    using that assms by (induction bs) (auto simp: refs_kept_def keeps_refs_def live_def)
  then show ?thesis by (simp add: live_on_def with_status_def)
qed

lemma freed_slotE:
  assumes "s \<in> set (slots (freed i t))"
  obtains s0 where "s0 \<in> set (slots t)" "s_id s = s_id s0"
    "s_status s = (if s_id s0 = i then Open else s_status s0)"
  using assms by (auto simp: freed_def elim!: in_upd_whereE)

lemma held_slotE:
  assumes "s \<in> set (slots (held i t))"
  obtains s0 where "s0 \<in> set (slots t)" "s_id s = s_id s0"
    "s_status s = (if s_id s0 = i then Held else s_status s0)"
  using assms by (auto simp: held_def elim!: in_upd_whereE)

lemma consistent_slot:
  "consistent t \<Longrightarrow> s \<in> set (slots t) \<Longrightarrow> s_status s = Held \<longleftrightarrow> live_on (s_id s) t \<noteq> []"
  by (simp add: consistent_iff)

lemma consistentI:
  "schema_ok t \<Longrightarrow> (\<And>s. s \<in> set (slots t) \<Longrightarrow> s_status s = Held \<longleftrightarrow> live_on (s_id s) t \<noteq> []) \<Longrightarrow> consistent t"
  by (simp add: consistent_iff)

text \<open>Completing a live booking.\<close>

lemma consistent_finish:
  assumes "consistent t" "b \<in> set (bookings t)" "b_id b = i" "live b" "st \<noteq> Cancelled" "refs_kept f"
  shows "consistent (with_status i st f t)"
proof -
  have l: "\<forall>b \<in> set (bookings t). b_id b = i \<longrightarrow> live b"
    using assms booking_unique [OF consistent_schema [OF assms(1)]] by blast
  then show ?thesis
    using assms with_status_schema [of t f st i] live_on_with_status_live [OF assms(6,5) l]
    by (simp add: consistent_iff)
qed

text \<open>Cancelling a live booking and opening its slot.\<close>

lemma consistent_cancel:
  assumes "consistent t" "b \<in> set (bookings t)" "b_id b = i" "live b" "refs_kept f"
  shows "consistent (freed (b_slot b) (with_status i Cancelled f t))"
proof -
  note ok = consistent_schema [OF assms(1)]
  have k: "keeps_refs (\<lambda>_. f)" using assms(5) by (simp add: refs_kept_def)
  have live_after: "live_on x (with_status i Cancelled f t) = filter (\<lambda>c. b_id c \<noteq> i) (live_on x t)" for x
    unfolding with_status_def using live_on_cancelled [OF k, where x = x and t = t and i = i and bs = "bookings t"]
    by (simp add: live_on_def)
  have same: "live_on x (with_status i Cancelled f t) = (if x = b_slot b then [] else live_on x t)" for x
  proof (cases "x = b_slot b")
    case True
    then show ?thesis using live_on_unique [OF ok assms(2,4)] assms(3) by (simp add: live_after)
  next
    case False
    have "b_id c \<noteq> i" if "c \<in> set (live_on x t)" for c
      using that False assms(2,3) booking_unique [OF ok, of c b] by (auto simp: live_on_def)
    then show ?thesis using False by (simp add: live_after filter_id_conv)
  qed
  show ?thesis
  proof (rule consistentI)
    show "schema_ok (freed (b_slot b) (with_status i Cancelled f t))"
      using with_status_schema [OF ok assms(5)] by (simp add: freed_schema)
    fix s
    assume "s \<in> set (slots (freed (b_slot b) (with_status i Cancelled f t)))"
    then obtain s0 where "s0 \<in> set (slots t)" "s_id s = s_id s0"
      "s_status s = (if s_id s0 = b_slot b then Open else s_status s0)"
      by (rule freed_slotE) simp
    then show "s_status s = Held \<longleftrightarrow> live_on (s_id s) (freed (b_slot b) (with_status i Cancelled f t)) \<noteq> []"
      using consistent_slot [OF assms(1)] by (simp add: same)
  qed
qed

text \<open>Cancelling without opening the slot leaves a held slot that no live booking is on.\<close>

lemma cancel_strands:
  assumes "schema_ok t" "b \<in> set (bookings t)" "b_id b = i" "live b" "refs_kept f"
    "s \<in> set (slots t)" "s_id s = b_slot b" "s_status s = Held"
  shows "\<not> held_live (with_status i Cancelled f t)"
proof -
  have k: "keeps_refs (\<lambda>_. f)" using assms(5) by (simp add: refs_kept_def)
  have "live_on (s_id s) (with_status i Cancelled f t)
      = filter (\<lambda>b. live b \<and> b_slot b = s_id s \<and> b_id b \<noteq> i) (bookings t)"
    unfolding with_status_def using live_on_cancelled [OF k, where x = "s_id s" and t = t and i = i and bs = "bookings t"] by simp
  also have "\<dots> = filter (\<lambda>c. b_id c \<noteq> i) (live_on (s_id s) t)"
    by (simp add: live_on_def)
  also have "\<dots> = []" using live_on_unique [OF assms(1,2,4)] assms(3,7) by simp
  finally show ?thesis using assms(6,8) by (auto simp: held_live_def)
qed

text \<open>Booking an open slot.\<close>

lemma consistent_book:
  assumes "consistent t" "s \<in> set (slots t)" "s_id s = b_slot b" "s_status s = Open"
    "b_id b \<notin> b_id ` set (bookings t)" "live b" "b_client b \<in> c_id ` set (clients t)"
  shows "consistent (with_booking b (held (b_slot b) t))"
proof -
  note ok = consistent_schema [OF assms(1)]
  have none: "live_on (b_slot b) t = []"
    using assms(1-4) by (force simp: consistent_iff)
  have "schema_ok (held (b_slot b) t)" by (rule held_schema [OF ok])
  moreover have "b_slot b \<in> s_id ` set (slots t)" using assms(2,3) by (metis imageI)
  moreover have "s_id ` set (slots (held (b_slot b) t)) = s_id ` set (slots t)"
    by (simp add: held_def image_upd_where)
  ultimately have "schema_ok (with_booking b (held (b_slot b) t))"
    using assms(5,7) none
    by (auto simp: schema_ok_def keys_ok_def refs_ok_def one_live_per_slot_def live_on_with_booking
        with_booking_def held_def live_on_def)
  then show ?thesis
  proof (rule consistentI)
    fix x
    assume "x \<in> set (slots (with_booking b (held (b_slot b) t)))"
    then obtain s0 where "s0 \<in> set (slots t)" "s_id x = s_id s0"
      "s_status x = (if s_id s0 = b_slot b then Held else s_status s0)"
      unfolding effect_slots by (rule held_slotE)
    then show "s_status x = Held \<longleftrightarrow> live_on (s_id x) (with_booking b (held (b_slot b) t)) \<noteq> []"
      using consistent_slot [OF assms(1)] assms(6) by (auto simp: live_on_with_booking)
  qed
qed

text \<open>The other tables play no part.\<close>

lemma consistent_other:
  "consistent (t\<lparr>notifs := x\<rparr>) = consistent t" "consistent (t\<lparr>activities := y\<rparr>) = consistent t"
  "consistent (t\<lparr>idempotency := z\<rparr>) \<longleftrightarrow> consistent t" if "distinct (map (\<lambda>i. (i_client i, i_key i)) z)"
    "distinct (map (\<lambda>i. (i_client i, i_key i)) (idempotency t))"
  using that by (simp_all add: consistent_iff schema_ok_def keys_ok_def refs_ok_def one_live_per_slot_def live_on_def)

end
