(* ===== verification/Program.thy ===== *)
theory Program
  imports Consistency
begin

text \<open>
  Programs of the services: JavaScript functions that call the database driver and other services
  and may throw at each call. A program maps an environment and a world to a value or an exception
  and the next world. The environment holds what lies outside the repository: which external call
  fails (\<open>fault\<close>, by the number of the call), the clock, the identifiers the database draws, the
  behaviour of the driver's pool, and the operations of the job queue. The world holds the tables,
  the open transaction, the connections checked out and the queue's state.
\<close>

subsection \<open>Environment and world\<close>

datatype chan = Pool | Client nat

text \<open>A transaction keeps the tables it started from and whether a statement of it has failed.\<close>

datatype tx_state = No_Tx | In_Tx chan tables bool

record 'q world =
  tabs :: tables
  tx :: tx_state
  tick :: nat
  leased :: "nat list"
  queue :: 'q

record 'q env =
  fault :: "nat \<Rightarrow> exn option"
  lands :: "nat \<Rightarrow> bool"
  clock_ms :: "nat \<Rightarrow> int"
  fresh :: "nat \<Rightarrow> string"
  pool_pins :: bool
  driver_dates :: bool
  double_release :: "exn option"
  range_text :: string
  queue_add :: "string \<Rightarrow> string \<Rightarrow> int \<Rightarrow> 'q \<Rightarrow> exn + 'q"
  queue_get :: "string \<Rightarrow> 'q \<Rightarrow> exn + bool"
  queue_remove :: "string \<Rightarrow> 'q \<Rightarrow> exn + 'q"

type_synonym ('q, 'a) prog = "'q env \<Rightarrow> 'q world \<Rightarrow> (exn + 'a) \<times> 'q world"

text \<open>What other sessions see: the snapshot while a transaction is open.\<close>

definition committed :: "'q world \<Rightarrow> tables" where
  "committed w = (case tx w of No_Tx \<Rightarrow> tabs w | In_Tx _ s _ \<Rightarrow> s)"

subsection \<open>Control flow\<close>

definition ret :: "'a \<Rightarrow> ('q, 'a) prog" where
  "ret a e w = (Inr a, w)"

definition raise :: "exn \<Rightarrow> ('q, 'a) prog" where
  "raise x e w = (Inl x, w)"

definition bind :: "('q, 'a) prog \<Rightarrow> ('a \<Rightarrow> ('q, 'b) prog) \<Rightarrow> ('q, 'b) prog" where
  "bind m f e w = (case m e w of (Inl x, w') \<Rightarrow> (Inl x, w') | (Inr a, w') \<Rightarrow> f a e w')"

definition andthen :: "('q, 'a) prog \<Rightarrow> ('q, 'b) prog \<Rightarrow> ('q, 'b) prog" where
  "andthen m n = bind m (\<lambda>_. n)"

definition try_catch :: "('q, 'a) prog \<Rightarrow> (exn \<Rightarrow> ('q, 'a) prog) \<Rightarrow> ('q, 'a) prog" where
  "try_catch m h e w = (case m e w of (Inl x, w') \<Rightarrow> h x e w' | (Inr a, w') \<Rightarrow> (Inr a, w'))"

text \<open>\<open>try { m } finally { c }\<close>: an exception of \<open>c\<close> replaces the outcome of \<open>m\<close>.\<close>

definition try_finally :: "('q, 'a) prog \<Rightarrow> ('q, unit) prog \<Rightarrow> ('q, 'a) prog" where
  "try_finally m c e w =
     (case m e w of (r, w') \<Rightarrow> (case c e w' of (Inl x, w'') \<Rightarrow> (Inl x, w'') | (Inr _, w'') \<Rightarrow> (r, w'')))"

definition swallow :: "('q, 'a) prog \<Rightarrow> ('q, unit) prog" where
  "swallow m = try_catch (bind m (\<lambda>_. ret ())) (\<lambda>_. ret ())"

definition unless_fails :: "'a \<Rightarrow> ('q, 'a) prog \<Rightarrow> ('q, 'a) prog" where
  "unless_fails d m = try_catch m (\<lambda>_. ret d)"

primrec for_each :: "'a list \<Rightarrow> ('a \<Rightarrow> ('q, unit) prog) \<Rightarrow> ('q, unit) prog" where
  "for_each [] f = ret ()"
| "for_each (x # xs) f = andthen (f x) (for_each xs f)"

subsection \<open>External calls\<close>

definition bump :: "'q world \<Rightarrow> 'q world" where
  "bump w = w\<lparr>tick := Suc (tick w)\<rparr>"

fun fail_tx :: "tx_state \<Rightarrow> tx_state" where
  "fail_tx (In_Tx c s _) = In_Tx c s True"
| "fail_tx No_Tx = No_Tx"

text \<open>After an error every statement of the transaction is refused until it ends.\<close>

fun tx_refuses :: "tx_state \<Rightarrow> bool" where
  "tx_refuses (In_Tx _ _ f) = f"
| "tx_refuses No_Tx = False"

definition aborted_error :: exn where
  "aborted_error = Pg_Error ''25P02'' ''current transaction is aborted''"

definition query :: "chan \<Rightarrow> 'a stmt \<Rightarrow> ('q, 'a) prog" where
  "query ch st e w =
     (case fault e (tick w) of
        Some x \<Rightarrow> (Inl x, (bump w)\<lparr>tx := fail_tx (tx w)\<rparr>)
      | None \<Rightarrow>
          if tx_refuses (tx w) then (Inl aborted_error, bump w)
          else (case st (clock_ms e (tick w)) (fresh e (tick w)) (tabs w) of
              Inl x \<Rightarrow> (Inl x, (bump w)\<lparr>tx := fail_tx (tx w)\<rparr>)
            | Inr (a, t) \<Rightarrow> (Inr a, (bump w)\<lparr>tabs := t\<rparr>)))"

text \<open>
  \<open>BEGIN\<close>, \<open>COMMIT\<close>, \<open>ROLLBACK\<close>. Through \<open>pool.query\<close> they reach the same connection as the statements
  between them only if the pool hands out the same connection each time (\<open>pool_pins\<close>); otherwise
  they have no effect on those statements, which commit one by one.
\<close>

definition no_effect :: "'q env \<Rightarrow> chan \<Rightarrow> bool" where
  "no_effect e ch \<longleftrightarrow> ch = Pool \<and> \<not> pool_pins e"

definition begin_tx :: "chan \<Rightarrow> ('q, unit) prog" where
  "begin_tx ch e w =
     (case fault e (tick w) of
        Some x \<Rightarrow> (Inl x, bump w)
      | None \<Rightarrow>
          if no_effect e ch \<or> tx w \<noteq> No_Tx then (Inr (), bump w)
          else (Inr (), (bump w)\<lparr>tx := In_Tx ch (tabs w) False\<rparr>))"

definition end_tx :: "bool \<Rightarrow> 'q world \<Rightarrow> 'q world" where
  "end_tx ok w =
     (case tx w of No_Tx \<Rightarrow> w
      | In_Tx _ s failed \<Rightarrow> if ok \<and> \<not> failed then w\<lparr>tx := No_Tx\<rparr> else w\<lparr>tx := No_Tx, tabs := s\<rparr>)"

text \<open>A \<open>COMMIT\<close> whose acknowledgement is lost may have been carried out (\<open>lands\<close>) or not.\<close>

definition commit_tx :: "chan \<Rightarrow> ('q, unit) prog" where
  "commit_tx ch e w =
     (case fault e (tick w) of
        Some x \<Rightarrow> (Inl x, if no_effect e ch then bump w else end_tx (lands e (tick w)) (bump w))
      | None \<Rightarrow> (Inr (), if no_effect e ch then bump w else end_tx True (bump w)))"

definition rollback_tx :: "chan \<Rightarrow> ('q, unit) prog" where
  "rollback_tx ch e w =
     (case fault e (tick w) of
        Some x \<Rightarrow> (Inl x, bump w)
      | None \<Rightarrow> (Inr (), if no_effect e ch then bump w else end_tx False (bump w)))"

definition connect :: "('q, nat) prog" where
  "connect e w =
     (case fault e (tick w) of
        Some x \<Rightarrow> (Inl x, bump w)
      | None \<Rightarrow> (Inr (tick w), (bump w)\<lparr>leased := tick w # leased w\<rparr>))"

text \<open>\<open>client.release()\<close>; the driver's documentation has a second release throw.\<close>

definition release :: "nat \<Rightarrow> ('q, unit) prog" where
  "release c e w =
     (if c \<in> set (leased w) then (Inr (), w\<lparr>leased := removeAll c (leased w)\<rparr>)
      else case double_release e of None \<Rightarrow> (Inr (), w) | Some x \<Rightarrow> (Inl x, w))"

definition now :: "('q, int) prog" where
  "now e w = (Inr (clock_ms e (tick w)), w)"

definition ask :: "('q env \<Rightarrow> 'a) \<Rightarrow> ('q, 'a) prog" where
  "ask f e w = (Inr (f e), w)"

definition queue_call :: "('q env \<Rightarrow> 'q \<Rightarrow> exn + 'q) \<Rightarrow> ('q, unit) prog" where
  "queue_call f e w =
     (case fault e (tick w) of Some x \<Rightarrow> (Inl x, bump w)
      | None \<Rightarrow> (case f e (queue w) of Inl x \<Rightarrow> (Inl x, bump w)
        | Inr q \<Rightarrow> (Inr (), (bump w)\<lparr>queue := q\<rparr>)))"

definition queue_ask :: "('q env \<Rightarrow> 'q \<Rightarrow> exn + 'a) \<Rightarrow> ('q, 'a) prog" where
  "queue_ask f e w =
     (case fault e (tick w) of Some x \<Rightarrow> (Inl x, bump w)
      | None \<Rightarrow> (f e (queue w), bump w))"

subsection \<open>Execution of a program without faults\<close>

lemma run_simps [prog_simps]:
  "ret a e w = (Inr a, w)"
  "raise x e w = (Inl x, w)"
  "bind m f e w = (case m e w of (Inl x, w') \<Rightarrow> (Inl x, w') | (Inr a, w') \<Rightarrow> f a e w')"
  "andthen m n e w = (case m e w of (Inl x, w') \<Rightarrow> (Inl x, w') | (Inr a, w') \<Rightarrow> n e w')"
  "try_catch m h e w = (case m e w of (Inl x, w') \<Rightarrow> h x e w' | (Inr a, w') \<Rightarrow> (Inr a, w'))"
  by (simp_all add: ret_def raise_def bind_def andthen_def try_catch_def)

lemma now_run [prog_simps]: "now e w = (Inr (clock_ms e (tick w)), w)"
  and ask_run [prog_simps]: "ask f e w = (Inr (f e), w)"
  by (simp_all add: now_def ask_def)

lemma swallow_run [prog_simps]:
  "swallow m e w = (case m e w of (_, w') \<Rightarrow> (Inr (), w'))"
  by (simp add: swallow_def prog_simps split: prod.splits sum.splits)

lemma unless_fails_run [prog_simps]:
  "unless_fails d m e w = (case m e w of (Inl x, w') \<Rightarrow> (Inr d, w') | (Inr a, w') \<Rightarrow> (Inr a, w'))"
  by (simp add: unless_fails_def prog_simps split: prod.splits sum.splits)

definition reliable :: "'q env \<Rightarrow> bool" where
  "reliable e \<longleftrightarrow> fault e = (\<lambda>_. None)"

lemma reliable_fault [simp]: "reliable e \<Longrightarrow> fault e n = None"
  by (simp add: reliable_def)

lemma bump_simps [simp]:
  "tabs (bump w) = tabs w" "tx (bump w) = tx w" "tick (bump w) = Suc (tick w)"
  "leased (bump w) = leased w" "queue (bump w) = queue w"
  by (simp_all add: bump_def)

subsection \<open>Weakest preconditions\<close>

text \<open>\<open>Q\<close> holds of a normal outcome, \<open>E\<close> of an exception.\<close>

definition wp ::
    "('q, 'a) prog \<Rightarrow> ('a \<Rightarrow> 'q world \<Rightarrow> bool) \<Rightarrow> (exn \<Rightarrow> 'q world \<Rightarrow> bool) \<Rightarrow> 'q env \<Rightarrow> 'q world \<Rightarrow> bool" where
  "wp m Q E e w = (case m e w of (Inr a, w') \<Rightarrow> Q a w' | (Inl x, w') \<Rightarrow> E x w')"

lemma wp_mono:
  "wp m Q E e w \<Longrightarrow> (\<And>a w'. Q a w' \<Longrightarrow> Q' a w') \<Longrightarrow> (\<And>x w'. E x w' \<Longrightarrow> E' x w') \<Longrightarrow> wp m Q' E' e w"
  by (auto simp: wp_def split: prod.splits sum.splits)

lemma wp_ret [simp]: "wp (ret a) Q E e = Q a"
  and wp_raise [simp]: "wp (raise x) Q E e = E x"
  and wp_now [simp]: "wp now R E e = (\<lambda>w. R (clock_ms e (tick w)) w)"
  and wp_ask [simp]: "wp (ask f) S E e = S (f e)"
  by (rule ext, simp add: wp_def prog_simps)+

lemma wp_bind [simp]: "wp (bind m f) Q E e = wp m (\<lambda>a. wp (f a) Q E e) E e"
  by (rule ext) (auto simp: wp_def bind_def split: prod.splits sum.splits)

lemma wp_andthen [simp]: "wp (andthen m n) Q E e = wp m (\<lambda>_. wp n Q E e) E e"
  by (simp add: andthen_def)

lemma wp_try_catch [simp]: "wp (try_catch m h) Q E e = wp m Q (\<lambda>x. wp (h x) Q E e) e"
  by (rule ext) (auto simp: wp_def try_catch_def split: prod.splits sum.splits)

lemma wp_swallow [simp]: "wp (swallow m) Q E e = wp m (\<lambda>_. Q ()) (\<lambda>_. Q ()) e"
  by (simp add: swallow_def)

lemma wp_unless_fails [simp]: "wp (unless_fails d m) Q E e = wp m Q (\<lambda>_. Q d) e"
  by (simp add: unless_fails_def)

lemma wp_try_finally [simp]:
  "wp (try_finally m c) Q E e =
     wp m (\<lambda>a. wp c (\<lambda>_. Q a) E e) (\<lambda>x. wp c (\<lambda>_. E x) E e) e"
  by (rule ext) (auto simp: wp_def try_finally_def split: prod.splits sum.splits)

lemma wp_for_each:
  assumes "\<And>x w. x \<in> set xs \<Longrightarrow> J w \<Longrightarrow> wp (f x) (\<lambda>_. J) E e w"
  shows "J w \<Longrightarrow> wp (for_each xs f) (\<lambda>_. J) E e w"
  using assms
proof (induction xs arbitrary: w)
  case Nil
  then show ?case by simp
next
  case (Cons x xs)
  have "wp (f x) (\<lambda>_. J) E e w" using Cons.prems by simp
  then show ?case
    by (simp, rule wp_mono) (use Cons in auto)
qed

subsection \<open>Programs that keep an invariant of the tables\<close>

text \<open>Whatever fails and whenever, both the current tables and what other sessions see keep it.\<close>

definition holds :: "(tables \<Rightarrow> bool) \<Rightarrow> 'q world \<Rightarrow> bool" where
  "holds I w \<longleftrightarrow> I (tabs w) \<and> I (committed w)"

definition keeps :: "(tables \<Rightarrow> bool) \<Rightarrow> ('q, 'a) prog \<Rightarrow> bool" where
  "keeps I m \<longleftrightarrow> (\<forall>e w. holds I w \<longrightarrow> holds I (snd (m e w)))"

lemma keeps_ret [pres_intros]: "keeps I (ret a)"
  and keeps_raise [pres_intros]: "keeps I (raise x)"
  and keeps_now [pres_intros]: "keeps I now"
  and keeps_ask [pres_intros]: "keeps I (ask f)"
  by (simp_all add: keeps_def prog_simps)

lemma keepsD: "keeps I m \<Longrightarrow> m e w = (r, w') \<Longrightarrow> holds I w \<Longrightarrow> holds I w'"
  by (metis keeps_def snd_conv)

lemma keepsI: "(\<And>e w r w'. m e w = (r, w') \<Longrightarrow> holds I w \<Longrightarrow> holds I w') \<Longrightarrow> keeps I m"
  by (metis keeps_def surjective_pairing)

lemma keeps_bind [pres_intros]:
  "keeps I m \<Longrightarrow> (\<And>a. keeps I (f a)) \<Longrightarrow> keeps I (bind m f)"
  by (rule keepsI) (auto simp: bind_def dest: keepsD split: prod.splits sum.splits)

lemma keeps_andthen [pres_intros]: "keeps I m \<Longrightarrow> keeps I n \<Longrightarrow> keeps I (andthen m n)"
  unfolding andthen_def by (intro keeps_bind)

lemma keeps_try_catch [pres_intros]:
  "keeps I m \<Longrightarrow> (\<And>x. keeps I (h x)) \<Longrightarrow> keeps I (try_catch m h)"
  by (rule keepsI) (auto simp: try_catch_def dest: keepsD split: prod.splits sum.splits)

lemma keeps_try_finally [pres_intros]:
  "keeps I m \<Longrightarrow> keeps I c \<Longrightarrow> keeps I (try_finally m c)"
  by (rule keepsI) (auto simp: try_finally_def dest: keepsD split: prod.splits sum.splits)

lemma keeps_swallow [pres_intros]: "keeps I m \<Longrightarrow> keeps I (swallow m)"
  unfolding swallow_def by (intro pres_intros)

lemma keeps_unless_fails [pres_intros]: "keeps I m \<Longrightarrow> keeps I (unless_fails d m)"
  unfolding unless_fails_def by (intro pres_intros)

lemma keeps_if [pres_intros]:
  "keeps I m \<Longrightarrow> keeps I n \<Longrightarrow> keeps I (if b then m else n)"
  by simp

lemma keeps_case_list [pres_intros]:
  "keeps I m \<Longrightarrow> (\<And>x xs. keeps I (f x xs)) \<Longrightarrow> keeps I (case l of [] \<Rightarrow> m | x # xs \<Rightarrow> f x xs)"
  by (simp split: list.split)

lemma keeps_case_option [pres_intros]:
  "keeps I m \<Longrightarrow> (\<And>x. keeps I (f x)) \<Longrightarrow> keeps I (case l of None \<Rightarrow> m | Some x \<Rightarrow> f x)"
  by (simp split: option.split)

lemma keeps_case_prod [pres_intros]:
  "(\<And>y z. keeps I (f y z)) \<Longrightarrow> keeps I (case p of (y, z) \<Rightarrow> f y z)"
  by (simp split: prod.split)

lemma keeps_for_each [pres_intros]:
  "(\<And>x. keeps I (f x)) \<Longrightarrow> keeps I (for_each xs f)"
  by (induction xs) (auto intro: pres_intros)

lemma committed_fail_tx [simp]: "committed (w\<lparr>tx := fail_tx (tx w)\<rparr>) = committed w"
  by (cases "tx w") (simp_all add: committed_def)

lemma committed_bump [simp]: "committed (bump w) = committed w"
  by (simp add: committed_def split: tx_state.split)

lemma committed_No_Tx [simp]: "tx w = No_Tx \<Longrightarrow> committed w = tabs w"
  and committed_In_Tx [simp]: "tx w = In_Tx c s f \<Longrightarrow> committed w = s"
  by (simp_all add: committed_def)

lemma holds_bump [simp]: "holds I (bump w) = holds I w"
  by (simp add: holds_def)

lemma committed_query_fail [simp]: "committed ((bump w)\<lparr>tx := fail_tx (tx w)\<rparr>) = committed w"
  using committed_fail_tx [of "bump w"] by simp

lemma keeps_query [pres_intros]: "keeps_stmt I st \<Longrightarrow> keeps I (query ch st)"
proof -
  assume st: "keeps_stmt I st"
  have "holds I (snd (query ch st e w))" if h: "holds I w" for e :: "'b env" and w
  proof (cases "fault e (tick w) = None \<and> \<not> tx_refuses (tx w)")
    case False
    then show ?thesis using h by (auto simp: query_def holds_def split: option.splits)
  next
    case True
    show ?thesis
    proof (cases "st (clock_ms e (tick w)) (fresh e (tick w)) (tabs w)")
      case (Inl x)
      then show ?thesis using h True by (simp add: query_def holds_def)
    next
      case (Inr p)
      obtain a t where p: "p = (a, t)" by (cases p)
      have "I t" using keeps_stmtD [OF st _ Inr [unfolded p]] h by (simp add: holds_def)
      then show ?thesis
        using h True Inr p by (cases "tx w") (simp_all add: query_def holds_def committed_def)
    qed
  qed
  then show ?thesis by (simp add: keeps_def)
qed

lemma keeps_begin_tx [pres_intros]: "keeps I (begin_tx ch)"
  by (auto simp: keeps_def begin_tx_def holds_def split: option.splits)

lemma holds_end_tx: "holds I w \<Longrightarrow> holds I (end_tx ok w)"
  by (cases "tx w") (auto simp: end_tx_def holds_def committed_def)

lemma keeps_commit_tx [pres_intros]: "keeps I (commit_tx ch)"
  by (auto simp: keeps_def commit_tx_def holds_end_tx split: option.splits)

lemma keeps_rollback_tx [pres_intros]: "keeps I (rollback_tx ch)"
  by (auto simp: keeps_def rollback_tx_def holds_end_tx split: option.splits)

lemma holds_other [simp]:
  "holds I (w\<lparr>leased := l\<rparr>) = holds I w" "holds I (w\<lparr>queue := q\<rparr>) = holds I w"
  by (simp_all add: holds_def committed_def split: tx_state.split)

lemma keeps_connect [pres_intros]: "keeps I connect"
  by (auto simp: keeps_def connect_def split: option.splits)

lemma keeps_release [pres_intros]: "keeps I (release c)"
  by (auto simp: keeps_def release_def split: option.splits)

lemma keeps_queue_call [pres_intros]: "keeps I (queue_call f)"
  by (auto simp: keeps_def queue_call_def split: option.splits sum.splits)

lemma keeps_queue_ask [pres_intros]: "keeps I (queue_ask f)"
  by (auto simp: keeps_def queue_ask_def split: option.splits)

text \<open>
  The statements of the services, as the interface between the schema and the programs: an
  invariant every statement keeps is kept by every service.
\<close>

locale table_invariant =
  fixes I :: "tables \<Rightarrow> bool"
  assumes claim_slot_keeps: "keeps_stmt I (claim_slot i ok)"
    and set_slot_open_keeps: "keeps_stmt I (set_slot_open i)"
    and insert_booking_keeps: "keeps_stmt I (insert_booking s c tz p et v)"
    and insert_reminder_keeps: "keeps_stmt I (insert_reminder bk off fire)"
    and insert_idem_keeps: "keeps_stmt I (insert_idem c k h bk)"
    and set_booking_keeps: "keeps_refs f \<Longrightarrow> keeps_stmt I (set_booking i st f)"
    and cancel_reminders_keeps: "keeps_stmt I (cancel_reminders bk q)"
    and upd_reminders_keeps: "keeps_reminder_key g \<Longrightarrow> keeps_stmt I (upd_reminders r g)"
    and insert_note_keeps: "keeps_stmt I (insert_note ty p' c' bk' title msg)"
    and insert_activity_keeps: "keeps_stmt I (insert_activity act p' c' bk')"
begin

lemmas stmt_keeps = claim_slot_keeps set_slot_open_keeps insert_booking_keeps insert_reminder_keeps
  insert_idem_keeps set_booking_keeps cancel_reminders_keeps upd_reminders_keeps insert_note_keeps
  insert_activity_keeps sel_keeps

lemma keeps_committed:
  "keeps I m \<Longrightarrow> tx w = No_Tx \<Longrightarrow> I (tabs w) \<Longrightarrow> I (committed (snd (m e w)))"
  by (simp add: keeps_def holds_def committed_def)

end

interpretation schema: table_invariant schema_ok
  by unfold_locales
    (auto intro: pres_intros set_booking_schema upd_reminders_schema)

subsection \<open>Transactions under arbitrary faults\<close>

text \<open>\<open>in_tx s T\<close>: a transaction that started from \<open>s\<close> has reached the tables \<open>T\<close>; no statement of it has
  failed. \<open>committed\<close> is \<open>s\<close> then, and stays \<open>s\<close> when a statement fails and when it is rolled back.\<close>

definition in_tx :: "tables \<Rightarrow> tables \<Rightarrow> 'q world \<Rightarrow> bool" where
  "in_tx s T w \<longleftrightarrow> (\<exists>c. tx w = In_Tx c s False) \<and> tabs w = T"

definition idle :: "tables \<Rightarrow> 'q world \<Rightarrow> bool" where
  "idle T w \<longleftrightarrow> tx w = No_Tx \<and> tabs w = T"

lemma idle_committed: "idle T w \<Longrightarrow> committed w = T"
  by (simp add: idle_def)

lemma in_tx_committed: "in_tx s T w \<Longrightarrow> committed w = s"
  by (auto simp: in_tx_def intro: committed_In_Tx)

lemma idle_leased [simp]: "idle T (w\<lparr>leased := l\<rparr>) = idle T w"
  and idle_queue [simp]: "idle T (w\<lparr>queue := q\<rparr>) = idle T w"
  and idle_bump [simp]: "idle T (bump w) = idle T w"
  by (simp_all add: idle_def)

lemma committed_leased [simp]: "committed (w\<lparr>leased := l\<rparr>) = committed w"
  and committed_queue [simp]: "committed (w\<lparr>queue := q\<rparr>) = committed w"
  by (simp_all add: committed_def split: tx_state.split)

lemma wp_begin:
  assumes "idle T w" "\<not> no_effect e ch"
    and "\<And>w'. in_tx T T w' \<Longrightarrow> leased w' = leased w \<Longrightarrow> Q () w'"
    and "\<And>x w'. idle T w' \<Longrightarrow> leased w' = leased w \<Longrightarrow> E x w'"
  shows "wp (begin_tx ch) Q E e w"
  using assms(1,2) by (auto simp: wp_def begin_tx_def idle_def in_tx_def split: option.split
      intro!: assms(3,4))

lemma wp_query_in_tx:
  assumes "in_tx s T w"
    and "\<And>n u a T' w'. st n u T = Inr (a, T') \<Longrightarrow> in_tx s T' w' \<Longrightarrow> leased w' = leased w \<Longrightarrow> Q a w'"
    and "\<And>x w'. committed w' = s \<Longrightarrow> leased w' = leased w \<Longrightarrow> E x w'"
  shows "wp (query ch st) Q E e w"
proof -
  obtain c where w: "tx w = In_Tx c s False" "tabs w = T" using assms(1) by (auto simp: in_tx_def)
  show ?thesis
  proof (cases "fault e (tick w)")
    case (Some x)
    then show ?thesis using assms(3) [of "(bump w)\<lparr>tx := fail_tx (tx w)\<rparr>"] w by (simp add: wp_def query_def)
  next
    case None
    show ?thesis
    proof (cases "st (clock_ms e (tick w)) (fresh e (tick w)) T")
      case (Inl x)
      then show ?thesis
        using None assms(3) [of "(bump w)\<lparr>tx := fail_tx (tx w)\<rparr>"] w by (simp add: wp_def query_def)
    next
      case (Inr p)
      obtain a T' where "p = (a, T')" by (cases p)
      then show ?thesis
        using None Inr w assms(2) [of _ _ a T' "(bump w)\<lparr>tabs := T'\<rparr>"]
        by (auto simp: wp_def query_def in_tx_def)
    qed
  qed
qed

lemma wp_query_idle:
  assumes "idle T w"
    and "\<And>n u a T' w'. st n u T = Inr (a, T') \<Longrightarrow> idle T' w' \<Longrightarrow> leased w' = leased w \<Longrightarrow> Q a w'"
    and "\<And>x w'. idle T w' \<Longrightarrow> leased w' = leased w \<Longrightarrow> E x w'"
  shows "wp (query ch st) Q E e w"
proof -
  have w: "tx w = No_Tx" "tabs w = T" using assms(1) by (auto simp: idle_def)
  have bad: "E x ((bump w)\<lparr>tx := fail_tx (tx w)\<rparr>)" for x
    using w by (intro assms(3)) (auto simp: idle_def)
  show ?thesis
  proof (cases "fault e (tick w)")
    case (Some x)
    then show ?thesis using bad w by (simp add: wp_def query_def)
  next
    case None
    show ?thesis
    proof (cases "st (clock_ms e (tick w)) (fresh e (tick w)) T")
      case (Inl x)
      then show ?thesis using None bad w by (simp add: wp_def query_def)
    next
      case (Inr p)
      obtain a T' where "p = (a, T')" by (cases p)
      then show ?thesis
        using None Inr w assms(2) [of _ _ a T' "(bump w)\<lparr>tabs := T'\<rparr>"]
        by (auto simp: wp_def query_def idle_def)
    qed
  qed
qed

lemma wp_sel_in_tx:
  assumes "in_tx s T w"
    and "\<And>w'. in_tx s T w' \<Longrightarrow> leased w' = leased w \<Longrightarrow> Q (f T) w'"
    and "\<And>x w'. committed w' = s \<Longrightarrow> leased w' = leased w \<Longrightarrow> E x w'"
  shows "wp (query ch (sel f)) Q E e w"
  using assms by (intro wp_query_in_tx [OF assms(1)]) (auto simp: sel_def)

lemma wp_sel_idle:
  assumes "idle T w"
    and "\<And>w'. idle T w' \<Longrightarrow> leased w' = leased w \<Longrightarrow> Q (f T) w'"
    and "\<And>x w'. idle T w' \<Longrightarrow> leased w' = leased w \<Longrightarrow> E x w'"
  shows "wp (query ch (sel f)) Q E e w"
  using assms by (intro wp_query_idle [OF assms(1)]) (auto simp: sel_def)

lemma end_tx_in_tx:
  "in_tx s T w \<Longrightarrow> idle (if ok then T else s) (end_tx ok (bump w)) \<and> leased (end_tx ok (bump w)) = leased w"
  by (auto simp: in_tx_def end_tx_def idle_def)

lemma wp_commit:
  assumes "in_tx s T w" "\<not> no_effect e ch"
    and "\<And>w'. idle T w' \<Longrightarrow> leased w' = leased w \<Longrightarrow> Q () w'"
    and "\<And>x w'. idle s w' \<Longrightarrow> leased w' = leased w \<Longrightarrow> E x w'"
    and "\<And>x w' n. lands e n \<Longrightarrow> idle T w' \<Longrightarrow> leased w' = leased w \<Longrightarrow> E x w'"
  shows "wp (commit_tx ch) Q E e w"
proof (cases "fault e (tick w)")
  case None
  then show ?thesis
    using assms(2) end_tx_in_tx [OF assms(1), of True]
    by (auto simp: wp_def commit_tx_def intro!: assms(3))
next
  case (Some x)
  have end': "idle (if lands e (tick w) then T else s) (end_tx (lands e (tick w)) (bump w))"
    "leased (end_tx (lands e (tick w)) (bump w)) = leased w"
    using end_tx_in_tx [OF assms(1)] by blast+
  then have "E x (end_tx (lands e (tick w)) (bump w))"
    using assms(4) [OF _ end'(2)] assms(5) [OF _ _ end'(2)] by (cases "lands e (tick w)") simp_all
  then show ?thesis using Some assms(2) by (simp add: wp_def commit_tx_def)
qed

lemma wp_rollback:
  assumes "\<And>w'. committed w' = committed w \<Longrightarrow> leased w' = leased w \<Longrightarrow> Q () w'"
    and "\<And>x w'. committed w' = committed w \<Longrightarrow> leased w' = leased w \<Longrightarrow> E x w'"
  shows "wp (rollback_tx ch) Q E e w"
proof -
  have "committed (end_tx False (bump w)) = committed w \<and> leased (end_tx False (bump w)) = leased w"
    by (cases "tx w") (simp_all add: end_tx_def)
  then show ?thesis
    by (auto simp: wp_def rollback_tx_def split: option.split intro!: assms)
qed

lemma wp_rollback_idle:
  assumes "idle T w" "\<And>w'. idle T w' \<Longrightarrow> Q () w'" "\<And>x w'. idle T w' \<Longrightarrow> E x w'"
  shows "wp (rollback_tx ch) Q E e w"
  using assms(1)
  by (auto simp: wp_def rollback_tx_def end_tx_def idle_def split: option.split intro!: assms(2,3))

lemma wp_release:
  assumes "\<And>w'. committed w' = committed w \<Longrightarrow> Q () w'" "\<And>x w'. committed w' = committed w \<Longrightarrow> E x w'"
  shows "wp (release c) Q E e w"
  by (auto simp: wp_def release_def split: option.split intro!: assms)

lemma wp_queue_call:
  assumes "idle T w" "\<And>w'. idle T w' \<Longrightarrow> Q () w'" "\<And>x w'. idle T w' \<Longrightarrow> E x w'"
  shows "wp (queue_call f) Q E e w"
  using assms(1) by (auto simp: wp_def queue_call_def split: option.split sum.split intro!: assms(2,3))

lemma wp_queue_ask:
  assumes "idle T w" "\<And>a w'. idle T w' \<Longrightarrow> Q a w'" "\<And>x w'. idle T w' \<Longrightarrow> E x w'"
  shows "wp (queue_ask f) Q E e w"
  using assms(1) by (auto simp: wp_def queue_ask_def split: option.split sum.split intro!: assms(2,3))

subsection \<open>Runs in which nothing fails\<close>

lemma wp_query_ok:
  assumes "reliable e" "\<not> tx_refuses (tx w)" "st (clock_ms e (tick w)) (fresh e (tick w)) (tabs w) = Inr (a, T')"
    and "\<And>w'. tabs w' = T' \<Longrightarrow> tx w' = tx w \<Longrightarrow> tick w' = Suc (tick w) \<Longrightarrow> Q a w'"
  shows "wp (query ch st) Q E e w"
  using assms(1-3) by (auto simp: wp_def query_def intro!: assms(4))

lemma wp_sel_ok:
  assumes "reliable e" "\<not> tx_refuses (tx w)"
    and "\<And>w'. tabs w' = tabs w \<Longrightarrow> tx w' = tx w \<Longrightarrow> tick w' = Suc (tick w) \<Longrightarrow> Q (f (tabs w)) w'"
  shows "wp (query ch (sel f)) Q E e w"
  using assms by (intro wp_query_ok) (auto simp: sel_def)

lemma wp_begin_ok:
  assumes "reliable e" "tx w = No_Tx" "\<not> no_effect e ch"
    and "\<And>w'. tabs w' = tabs w \<Longrightarrow> tx w' = In_Tx ch (tabs w) False \<Longrightarrow> tick w' = Suc (tick w) \<Longrightarrow> Q () w'"
  shows "wp (begin_tx ch) Q E e w"
  using assms(1-3) by (auto simp: wp_def begin_tx_def intro!: assms(4))

lemma wp_commit_ok:
  assumes "reliable e" "tx w = In_Tx c s False" "\<not> no_effect e ch"
    and "\<And>w'. tabs w' = tabs w \<Longrightarrow> tx w' = No_Tx \<Longrightarrow> tick w' = Suc (tick w) \<Longrightarrow> Q () w'"
  shows "wp (commit_tx ch) Q E e w"
  using assms(1-3) by (auto simp: wp_def commit_tx_def end_tx_def intro!: assms(4))

lemma wp_returns: "wp m Q (\<lambda>_ _. False) e w \<Longrightarrow> \<exists>a w'. m e w = (Inr a, w') \<and> Q a w'"
  by (auto simp: wp_def split: prod.splits sum.splits)

text \<open>Case distinctions of a program.\<close>

lemma wp_if:
  "(c \<Longrightarrow> wp m Q E e w) \<Longrightarrow> (\<not> c \<Longrightarrow> wp n Q E e w) \<Longrightarrow> wp (if c then m else n) Q E e w"
  by simp

lemma wp_list_case:
  "(l = [] \<Longrightarrow> wp m Q E e w) \<Longrightarrow> (\<And>x xs. l = x # xs \<Longrightarrow> wp (f x xs) Q E e w) \<Longrightarrow>
     wp (case l of [] \<Rightarrow> m | x # xs \<Rightarrow> f x xs) Q E e w"
  by (cases l) simp_all

lemma wp_option_case:
  "(x = None \<Longrightarrow> wp m Q E e w) \<Longrightarrow> (\<And>y. x = Some y \<Longrightarrow> wp (f y) Q E e w) \<Longrightarrow>
     wp (case x of None \<Rightarrow> m | Some y \<Rightarrow> f y) Q E e w"
  by (cases x) simp_all

lemma wp_prod_case:
  "(\<And>y z. x = (y, z) \<Longrightarrow> wp (f y z) Q E e w) \<Longrightarrow> wp (case x of (y, z) \<Rightarrow> f y z) Q E e w"
  by (cases x) simp

lemmas wp_cases = wp_if wp_list_case wp_option_case wp_prod_case

subsection \<open>A concrete world\<close>

text \<open>One provider with an open slot and a slot held by a booking of its one client, and an environment
  in which nothing fails and the clock stands still. The closed statements use them.\<close>

definition demo_tables :: tables where
  "demo_tables =
     \<lparr>slots = [\<lparr>s_id = ''s1'', s_provider = ''p1'', s_start = 1793548800000, s_end = 1793550600000,
                s_tz = ''UTC'', s_status = Held\<rparr>,
              \<lparr>s_id = ''s2'', s_provider = ''p1'', s_start = 1793635200000, s_end = 1793637000000,
                s_tz = ''UTC'', s_status = Open\<rparr>],
      bookings = [\<lparr>b_id = ''b1'', b_slot = ''s1'', b_client = ''c1'', b_tz = ''UTC'', b_status = Booked,
                   b_version = 1, b_provider = None, b_event_type = None, b_created = 0,
                   b_cancelled_at = None\<rparr>],
      providers = [\<lparr>p_id = ''p1'', p_name = ''Ada'', p_tz = ''UTC'', p_slot_minutes = 30, p_window = 24,
                    p_notice = None\<rparr>],
      clients = [\<lparr>c_id = ''c1'', c_email = ''c1@x.org'', c_name = ''Bob'', c_company = [], c_opt_out = False\<rparr>],
      event_types = [], reminders = [], idempotency = [], notifs = [], activities = []\<rparr>"

definition demo_env :: "unit env" where
  "demo_env = \<lparr>fault = (\<lambda>_. None), lands = (\<lambda>_. False), clock_ms = (\<lambda>_. 1793000000000),
     fresh = (\<lambda>n. replicate (Suc n) (CHR ''x'')), pool_pins = True, driver_dates = True,
     double_release = None, range_text = ''invalid ISO 8601 string'',
     queue_add = (\<lambda>_ _ _ q. Inr q), queue_get = (\<lambda>_ _. Inr False),
     queue_remove = (\<lambda>_ q. Inr q)\<rparr>"

definition demo_world :: "unit world" where
  "demo_world = \<lparr>tabs = demo_tables, tx = No_Tx, tick = 0, leased = [], queue = ()\<rparr>"

lemma demo_idle: "idle demo_tables demo_world"
  by (simp add: idle_def demo_world_def)

lemma demo_reliable: "reliable demo_env"
  by (simp add: reliable_def demo_env_def)

lemma demo_schema: "schema_ok demo_tables"
  by (auto simp: schema_ok_def keys_ok_def refs_ok_def one_live_per_slot_def live_on_def demo_tables_def)

lemma demo_consistent: "consistent demo_tables"
  using demo_schema by (auto simp: consistent_iff demo_tables_def live_on_def live_def)

end
