(* ===== verification/Lifecycle.thy ===== *)
theory Lifecycle
  imports Consistency Program Time_Core
begin

text \<open>
  \<^verbatim>\<open>apps/api/src/bookings/lifecycle.service.ts\<close> (the transition table, the cancellation decision, the
  auto-complete predicate) and \<^verbatim>\<open>apps/api/src/lifecycle/lifecycle.service.ts\<close> (the Prisma service
  that carries a transition or a cancellation out in one transaction).
\<close>

subsection \<open>The decisions\<close>

fun VALID_TRANSITIONS :: "booking_status \<Rightarrow> booking_status list" where
  "VALID_TRANSITIONS Booked = [Completed, Cancelled]"
| "VALID_TRANSITIONS Completed = []"
| "VALID_TRANSITIONS Cancelled = []"
| "VALID_TRANSITIONS No_Show = []"

definition isValidTransition :: "booking_status \<Rightarrow> booking_status \<Rightarrow> bool" where
  "isValidTransition old new \<longleftrightarrow> new \<in> set (VALID_TRANSITIONS old)"

datatype cancel_error = Version_Mismatch | Window_Expired | Invalid_Transition

record cancel_request =
  cr_booking :: string
  cr_version :: int
  cr_if_match :: int
  cr_now :: int
  cr_window :: int
  cr_start :: int

record cancel_result =
  allowed :: bool
  error :: "cancel_error option"
  slot_reopened :: bool

definition evaluateCancellation :: "cancel_request \<Rightarrow> booking_status \<Rightarrow> int \<Rightarrow> cancel_result" where
  "evaluateCancellation req currentStatus currentVersion =
     (if \<not> isValidTransition currentStatus Cancelled
        then \<lparr>allowed = False, error = Some Invalid_Transition, slot_reopened = False\<rparr>
      else if cr_if_match req \<noteq> currentVersion
        then \<lparr>allowed = False, error = Some Version_Mismatch, slot_reopened = False\<rparr>
      else let windowMs = cr_window req * 60 * 60 * 1000;
               deadlineMs = cr_start req - windowMs
        in if deadlineMs < cr_now req
           then \<lparr>allowed = False, error = Some Window_Expired, slot_reopened = False\<rparr>
           else \<lparr>allowed = True, error = None, slot_reopened = True\<rparr>)"

definition shouldAutoComplete :: "int \<Rightarrow> int \<Rightarrow> int \<Rightarrow> bool" where
  "shouldAutoComplete slotEnd now_ms graceMinutes = (let graceMs = graceMinutes * 60 * 1000 in now_ms \<ge> slotEnd + graceMs)"

subsection \<open>The Prisma service\<close>

text \<open>\<open>prisma.$transaction(f)\<close>: commits when \<open>f\<close> returns, rolls back and rethrows when it throws.\<close>

definition prisma :: chan where "prisma = Client 0"

definition prisma_transaction :: "('q, 'a) prog \<Rightarrow> ('q, 'a) prog" where
  "prisma_transaction f =
     andthen (begin_tx prisma)
       (bind (try_catch f (\<lambda>x. andthen (swallow (rollback_tx prisma)) (raise x)))
         (\<lambda>a. andthen (commit_tx prisma) (ret a)))"

text \<open>\<open>tx.slot.update({ where: { id }, data: { status: open } })\<close> throws when there is no such row.\<close>

definition slot_update_open :: "string \<Rightarrow> unit stmt" where
  "slot_update_open i n u t =
     (if slots_by_id i t = [] then Inl (Js_Error ''Record to update not found.'') else set_slot_open i n u t)"

fun allowedTransitions :: "booking_status \<Rightarrow> booking_status list" where
  "allowedTransitions Booked = [Completed, Cancelled, No_Show]"
| "allowedTransitions Completed = []"
| "allowedTransitions Cancelled = []"
| "allowedTransitions No_Show = []"

definition transition :: "string \<Rightarrow> booking_status \<Rightarrow> int option \<Rightarrow> ('q, booking_row) prog" where
  "transition i toStatus expectedVersion = prisma_transaction (
     bind (query prisma (sel (bookings_by_id i))) (\<lambda>rows. case rows of
       [] \<Rightarrow> raise (Js_Error ''Booking not found'')
     | b # _ \<Rightarrow>
         if (case expectedVersion of None \<Rightarrow> False | Some v \<Rightarrow> b_version b \<noteq> v)
           then raise (Js_Error ''Version conflict'')
         else if toStatus \<notin> set (allowedTransitions (b_status b))
           then raise (Js_Error (''Invalid transition: '' @ booking_status_text (b_status b) @ '' -> ''
             @ booking_status_text toStatus))
         else andthen (query prisma (set_booking i (booking_status_text toStatus)
                (\<lambda>_ x. x\<lparr>b_version := b_version b + 1\<rparr>)))
           (andthen (if toStatus = Cancelled then query prisma (slot_update_open (b_slot b)) else ret ())
             (ret (b\<lparr>b_status := toStatus, b_version := b_version b + 1\<rparr>)))))"

definition cancel :: "string \<Rightarrow> int \<Rightarrow> ('q, booking_row) prog" where
  "cancel i providerWindowHours = prisma_transaction (
     bind (query prisma (sel (\<lambda>t. map (\<lambda>b. (b, slots_by_id (b_slot b) t)) (bookings_by_id i t)))) (\<lambda>rows.
     case rows of
       [] \<Rightarrow> raise (Js_Error ''Booking not found'')
     | (b, ss) # _ \<Rightarrow>
         if b_status b \<noteq> Booked then raise (Js_Error ''Booking not available for cancellation'')
         else let windowMs = providerWindowHours * 60 * 60 * 1000 in
           bind now (\<lambda>c. case ss of
             [] \<Rightarrow> raise (Js_Error ''Cannot read properties of null'')
           | s # _ \<Rightarrow>
               let remainingMs = s_start s - c in
               if remainingMs < windowMs then raise (Js_Error ''Cancellation window violation'')
               else andthen (query prisma (set_booking i ''cancelled'' (\<lambda>_ x. x\<lparr>b_version := b_version b + 1\<rparr>)))
                 (andthen (query prisma (slot_update_open (b_slot b)))
                   (ret (b\<lparr>b_status := Cancelled, b_version := b_version b + 1\<rparr>))))))"

subsection \<open>Transactions that throw leave no trace\<close>

lemma not_no_effect_prisma [simp]: "\<not> no_effect e prisma"
  by (simp add: no_effect_def prisma_def)

lemma wp_prisma_transaction:
  fixes w :: "'q world"
  assumes "idle T w"
    and body: "\<And>w'. in_tx T T w' \<Longrightarrow> wp f (\<lambda>a w''. \<exists>T'. P a T' \<and> in_tx T T' w'') (\<lambda>_ w''. committed w'' = T) e w'"
  shows "wp (prisma_transaction f)
    (\<lambda>a w'. \<exists>T'. P a T' \<and> idle T' w')
    (\<lambda>_ w'. committed w' = T \<or> (\<exists>n. lands e n) \<and> (\<exists>a T'. P a T' \<and> idle T' w')) e w"
  unfolding prisma_transaction_def
proof (simp, rule wp_begin [OF assms(1)])
  show "\<not> no_effect e prisma" by simp
next
  fix w' :: "'q world"
  assume "in_tx T T w'"
  from body [OF this]
  show "wp f (\<lambda>a. wp (commit_tx prisma) (\<lambda>_ w'. \<exists>T'. P a T' \<and> idle T' w')
      (\<lambda>_ w'. committed w' = T \<or> (\<exists>n. lands e n) \<and> (\<exists>a T'. P a T' \<and> idle T' w')) e)
    (\<lambda>x. wp (rollback_tx prisma) (\<lambda>_ w'. committed w' = T \<or> (\<exists>n. lands e n) \<and> (\<exists>a T'. P a T' \<and> idle T' w'))
       (\<lambda>_ w'. committed w' = T \<or> (\<exists>n. lands e n) \<and> (\<exists>a T'. P a T' \<and> idle T' w')) e) e w'"
  proof (rule wp_mono)
    fix a and w'' :: "'q world"
    assume "\<exists>T'. P a T' \<and> in_tx T T' w''"
    then obtain T' where T': "P a T'" "in_tx T T' w''" by blast
    show "wp (commit_tx prisma) (\<lambda>_ w'. \<exists>T'. P a T' \<and> idle T' w')
      (\<lambda>_ w'. committed w' = T \<or> (\<exists>n. lands e n) \<and> (\<exists>a T'. P a T' \<and> idle T' w')) e w''"
      by (rule wp_commit [OF T'(2)]) (use T' in \<open>auto simp: idle_committed\<close>)
  next
    fix x and w'' :: "'q world"
    assume "committed w'' = T"
    then show "wp (rollback_tx prisma) (\<lambda>_ w'. committed w' = T \<or> (\<exists>n. lands e n) \<and> (\<exists>a T'. P a T' \<and> idle T' w'))
       (\<lambda>_ w'. committed w' = T \<or> (\<exists>n. lands e n) \<and> (\<exists>a T'. P a T' \<and> idle T' w')) e w''"
      by (intro wp_rollback) simp_all
  qed
qed (simp add: idle_committed)

lemma set_booking_Inr:
  "set_booking i (booking_status_text s) f n u T = Inr (a, T') \<Longrightarrow> T' = with_status i s (f n) T"
  by (auto simp: set_booking_def with_status_def Let_def simp del: booking_status_of.simps split: if_splits)

lemma set_booking_cancelled:
  "set_booking i ''cancelled'' f n u T = Inr (a, T') \<Longrightarrow> T' = with_status i Cancelled (f n) T"
  using set_booking_Inr [of i Cancelled] by simp

lemma slot_update_open_Inr: "slot_update_open i n u T = Inr (a, T') \<Longrightarrow> T' = freed i T"
  by (auto simp: slot_update_open_def set_slot_open_def freed_def split: if_splits)

lemma allowed_from_booked: "s \<in> set (allowedTransitions old) \<longleftrightarrow> old = Booked \<and> s \<noteq> Booked"
  by (cases old; cases s) auto

text \<open>What a successful transition did.\<close>

definition transition_effect :: "booking_row \<Rightarrow> booking_status \<Rightarrow> tables \<Rightarrow> tables" where
  "transition_effect b st t =
     (let t1 = with_status (b_id b) st (\<lambda>x. x\<lparr>b_version := b_version b + 1\<rparr>) t
      in if st = Cancelled then freed (b_slot b) t1 else t1)"

definition transitioned ::
    "string \<Rightarrow> booking_status \<Rightarrow> int option \<Rightarrow> tables \<Rightarrow> booking_row \<Rightarrow> tables \<Rightarrow> bool" where
  "transitioned i st ev t r t' \<longleftrightarrow>
     (\<exists>b. b \<in> set (bookings t) \<and> b_id b = i \<and> b_status b = Booked \<and> st \<noteq> Booked
        \<and> (\<forall>v. ev = Some v \<longrightarrow> b_version b = v)
        \<and> r = b\<lparr>b_status := st, b_version := b_version b + 1\<rparr> \<and> t' = transition_effect b st t)"

lemma wp_transition:
  assumes "idle T w"
  shows "wp (transition i st ev) (\<lambda>r w'. \<exists>T'. transitioned i st ev T r T' \<and> idle T' w')
    (\<lambda>_ w'. committed w' = T \<or> (\<exists>n. lands e n) \<and> (\<exists>r T'. transitioned i st ev T r T' \<and> idle T' w')) e w"
  unfolding transition_def
  apply (rule wp_prisma_transaction [OF assms])
  apply (simp, rule wp_sel_in_tx, assumption)
   apply (intro wp_cases)
      apply (simp_all add: in_tx_committed)
  apply (frule bookings_by_id_mem)
  apply (intro conjI impI)
   apply (rule wp_query_in_tx, assumption)
    apply (rule wp_query_in_tx, assumption)
     apply (auto simp: transitioned_def allowed_from_booked transition_effect_def split: option.splits
         dest!: set_booking_Inr set_booking_cancelled slot_update_open_Inr)[3]
  apply (rule wp_query_in_tx, assumption)
   apply (auto simp: transitioned_def allowed_from_booked transition_effect_def split: option.splits
         dest!: set_booking_Inr)
  done

definition cancelled ::
    "string \<Rightarrow> int \<Rightarrow> int \<Rightarrow> tables \<Rightarrow> booking_row \<Rightarrow> tables \<Rightarrow> bool" where
  "cancelled i h c t r t' \<longleftrightarrow>
     (\<exists>b s. b \<in> set (bookings t) \<and> b_id b = i \<and> b_status b = Booked \<and> s \<in> set (slots t) \<and> s_id s = b_slot b
        \<and> isCancellable c (s_start s) h
        \<and> r = b\<lparr>b_status := Cancelled, b_version := b_version b + 1\<rparr>
        \<and> t' = transition_effect b Cancelled t)"

lemma window_isCancellable: "\<not> start - c < h * 60 * 60 * 1000 \<Longrightarrow> isCancellable c start h"
  by (simp add: isCancellable_def Let_def)

lemma wp_cancel:
  assumes "idle T w"
  shows "wp (cancel i h) (\<lambda>r w'. \<exists>T'. (\<exists>n. cancelled i h (clock_ms e n) T r T') \<and> idle T' w')
    (\<lambda>_ w'. committed w' = T \<or> (\<exists>n. lands e n) \<and> (\<exists>r T'. (\<exists>n. cancelled i h (clock_ms e n) T r T') \<and> idle T' w')) e w"
  unfolding cancel_def Let_def
  apply (rule wp_prisma_transaction [OF assms])
  apply (simp, rule wp_sel_in_tx, assumption)
   apply (intro wp_cases)
     apply (simp_all add: in_tx_committed)
  apply (intro conjI impI wp_cases)
    apply (simp_all add: in_tx_committed)
  apply (rule wp_query_in_tx, assumption)
   apply (rule wp_query_in_tx, assumption)
    apply (drule set_booking_cancelled slot_update_open_Inr)+
    apply (clarsimp simp: map_eq_Cons_conv)
    apply (drule slots_by_id_mem bookings_by_id_mem)+
    apply (rule exI, rule conjI [rotated], assumption)
    apply (simp add: cancelled_def transition_effect_def)
    apply (blast intro: window_isCancellable [simplified])
   apply simp_all
  done

subsection \<open>Properties\<close>

text \<open>A cancellation is allowed exactly for a booked booking, with the current version, up to the
  cancellation window; the decision is the one \<open>isCancellable\<close> of the time package takes and the one
  the Prisma service takes on the remaining time, and an allowed one reopens the slot.\<close>

theorem evaluateCancellation_allowed:
  "allowed (evaluateCancellation req st v) \<longleftrightarrow>
     st = Booked \<and> cr_if_match req = v \<and> isCancellable (cr_now req) (cr_start req) (cr_window req)"
  by (cases st)
    (auto simp: evaluateCancellation_def isValidTransition_def isCancellable_def Let_def)

text \<open>C11. Whatever fails, a transition is all or nothing: it returns the updated row and has then moved
  a booked booking to the new status, with the next version and, for a cancellation, its slot
  opened; or it throws and what other sessions see is unchanged, unless only the acknowledgement of
  the commit was lost.\<close>

theorem transition_atomic:
  assumes "idle T w"
  shows "case transition i st ev e w of
      (Inr r, w') \<Rightarrow> \<exists>T'. transitioned i st ev T r T' \<and> idle T' w'
    | (Inl _, w') \<Rightarrow> committed w' = T
        \<or> (\<exists>n. lands e n) \<and> (\<exists>r T'. transitioned i st ev T r T' \<and> idle T' w')"
  using wp_transition [OF assms, of i st ev e] by (simp add: wp_def)

theorem transition_atomic_witness:
  "case transition ''b1'' Cancelled (Some 1) demo_env demo_world of
      (Inr r, w') \<Rightarrow> \<exists>T'. transitioned ''b1'' Cancelled (Some 1) demo_tables r T' \<and> idle T' w'
    | (Inl _, w') \<Rightarrow> committed w' = demo_tables
        \<or> (\<exists>n. lands demo_env n)
          \<and> (\<exists>r T'. transitioned ''b1'' Cancelled (Some 1) demo_tables r T' \<and> idle T' w')"
  by (rule transition_atomic [OF demo_idle])

lemma refs_kept_version: "refs_kept (\<lambda>x. x\<lparr>b_version := v\<rparr>)"
  by (simp add: refs_kept_def keeps_refs_def)

lemma transition_effect_consistent:
  assumes "consistent t" "b \<in> set (bookings t)" "b_status b = Booked"
  shows "consistent (transition_effect b st t)"
proof -
  have "live b" using assms(3) by (simp add: live_def)
  then show ?thesis
    using consistent_cancel [OF assms(1,2) refl _ refs_kept_version]
      consistent_finish [OF assms(1,2) refl _ _ refs_kept_version]
    by (auto simp: transition_effect_def Let_def)
qed

lemma transitioned_consistent: "transitioned i st ev t r t' \<Longrightarrow> consistent t \<Longrightarrow> consistent t'"
  by (auto simp: transitioned_def intro: transition_effect_consistent)

lemma cancelled_consistent: "cancelled i h c t r t' \<Longrightarrow> consistent t \<Longrightarrow> consistent t'"
  by (auto simp: cancelled_def intro: transition_effect_consistent)

text \<open>The Prisma service keeps the agreement of slot and booking statuses under any faults: after
  a transition or a cancellation, returned or thrown, a slot is held exactly when a live booking
  is on it, in what other sessions see.\<close>

theorem lifecycle_service_consistent:
  assumes "idle T w" "consistent T"
  shows "consistent (committed (snd (transition i st ev e w))) \<and> consistent (committed (snd (cancel i h e w)))"
proof
  show "consistent (committed (snd (transition i st ev e w)))"
    using wp_transition [OF assms(1), of i st ev e] assms(2)
    by (auto simp: wp_def idle_committed split: prod.splits sum.splits dest: transitioned_consistent)
  show "consistent (committed (snd (cancel i h e w)))"
    using wp_cancel [OF assms(1), of i h e] assms(2)
    by (auto simp: wp_def idle_committed split: prod.splits sum.splits dest: cancelled_consistent)
qed

theorem lifecycle_service_consistent_witness:
  "consistent (committed (snd (transition ''b1'' No_Show None demo_env demo_world)))
   \<and> consistent (committed (snd (cancel ''b1'' 24 demo_env demo_world)))"
  by (rule lifecycle_service_consistent [OF demo_idle demo_consistent])

subsection \<open>The life of a booking\<close>

inductive lifecycle_steps :: "tables \<Rightarrow> tables \<Rightarrow> bool" where
  none: "lifecycle_steps t t"
| trans: "lifecycle_steps t t' \<Longrightarrow> transitioned i st ev t' r t'' \<Longrightarrow> lifecycle_steps t t''"
| canc: "lifecycle_steps t t' \<Longrightarrow> cancelled i h c t' r t'' \<Longrightarrow> lifecycle_steps t t''"

lemma bookings_transition_effect:
  "bookings (transition_effect b st t) =
     upd_where (\<lambda>x. b_id x = b_id b) (\<lambda>x. x\<lparr>b_version := b_version b + 1, b_status := st\<rparr>) (bookings t)"
  by (simp add: transition_effect_def Let_def with_status_def)

lemma schema_transition_effect:
  "schema_ok t \<Longrightarrow> b \<in> set (bookings t) \<Longrightarrow> b_status b = Booked \<Longrightarrow> schema_ok (transition_effect b st t)"
  using booking_unique [of t b]
  by (auto simp: transition_effect_def Let_def live_def intro!: freed_schema with_status_schema refs_kept_version)
    (metis booking_status.distinct(3))+

lemma terminal_kept:
  assumes "schema_ok t" "b \<in> set (bookings t)" "b_status b = Booked"
    "x \<in> set (bookings t)" "b_status x \<noteq> Booked"
  shows "x \<in> set (bookings (transition_effect b st t))"
proof -
  have "b_id x \<noteq> b_id b" using booking_unique [OF assms(1,2,4)] assms(3,5) by metis
  then show ?thesis using assms(4) by (force simp: bookings_transition_effect set_upd_where)
qed

lemma lifecycle_schema: "lifecycle_steps t t' \<Longrightarrow> schema_ok t \<Longrightarrow> schema_ok t'"
  by (induction rule: lifecycle_steps.induct)
    (auto simp: transitioned_def cancelled_def intro: schema_transition_effect)


definition demo_booking :: booking_row where
  "demo_booking = hd (bookings demo_tables)"

lemma demo_booking_in: "demo_booking \<in> set (bookings demo_tables)" "b_status demo_booking = Booked"
    "b_id demo_booking = ''b1''" "b_slot demo_booking = ''s1''" "b_version demo_booking = 1"
  by (simp_all add: demo_booking_def demo_tables_def)


end
