(* ===== verification/Reminder_Queue.thy ===== *)
theory Reminder_Queue
  imports Program "HOL-Library.Product_Lexorder"
begin

text \<open>
  \<^verbatim>\<open>apps/api/src/reminders/reminder.queue.ts\<close>: the manager that mirrors the scheduled rows of
  \<open>reminder_jobs\<close> into a job queue. The queue itself (BullMQ) is outside the repository: what the
  manager relies on is the locale \<open>job_queue\<close>, and the store that stands for it in
  \<^verbatim>\<open>apps/api/src/reminders/reminder.idempotency.test.ts\<close> is its instance.
\<close>

subsection \<open>The manager\<close>

definition job_id :: "string \<Rightarrow> int \<Rightarrow> string" where
  "job_id bk off = ''reminder:'' @ bk @ '':'' @ int_text off"

definition scheduled_rows :: "string \<Rightarrow> int \<Rightarrow> tables \<Rightarrow> reminder_row list" where
  "scheduled_rows bk off t =
     filter (\<lambda>r. r_booking r = bk \<and> r_offset r = off \<and> r_status r = Scheduled) (reminders t)"

definition skip_rows :: "string \<Rightarrow> int \<Rightarrow> reminder_row list stmt" where
  "skip_rows bk off =
     upd_reminders (\<lambda>r. r_booking r = bk \<and> r_offset r = off \<and> r_status r = Scheduled)
       (\<lambda>_ r. r\<lparr>r_status := Skipped\<rparr>)"

definition enqueue_offset :: "string \<Rightarrow> int \<Rightarrow> int \<Rightarrow> int \<Rightarrow> ('q, unit) prog" where
  "enqueue_offset bk slotStart now_ms off =
     (let fireTime = slotStart - off * 60 * 1000 in
      if fireTime \<le> now_ms then andthen (query Pool (skip_rows bk off)) (ret ())
      else let delayMs = fireTime - now_ms in
        bind (query Pool (sel (\<lambda>t. take 1 (scheduled_rows bk off t)))) (\<lambda>reminderRows.
        case reminderRows of [] \<Rightarrow> ret ()
        | r # _ \<Rightarrow> queue_call (\<lambda>e. queue_add e (job_id bk off) (r_id r) delayMs)))"

definition enqueueForBooking :: "string \<Rightarrow> int \<Rightarrow> int list \<Rightarrow> int \<Rightarrow> ('q, unit) prog" where
  "enqueueForBooking bk slotStart offsets now_ms = for_each offsets (enqueue_offset bk slotStart now_ms)"

definition due_rows :: "tables \<Rightarrow> (string \<times> int \<times> int) list" where
  "due_rows t =
     sort_key (\<lambda>(bk, off, start). (start, - off))
       (concat (map (\<lambda>r. concat (map (\<lambda>b. map (\<lambda>s. (r_booking r, r_offset r, s_start s)) (slots_by_id (b_slot b) t))
          (filter (\<lambda>b. b_status b = Booked) (bookings_by_id (r_booking r) t))))
        (filter (\<lambda>r. r_status r = Scheduled) (reminders t))))"

definition reconcileScheduledReminders :: "('q, unit) prog" where
  "reconcileScheduledReminders =
     bind (query Pool (sel due_rows)) (\<lambda>rows.
     bind now (\<lambda>c.
     for_each rows (\<lambda>(bk, off, start). swallow (enqueueForBooking bk start [off] c))))"

definition pending :: "reminder_status \<Rightarrow> bool" where
  "pending s \<longleftrightarrow> s = Scheduled \<or> s = Sending"

definition remove_job :: "string \<Rightarrow> ('q, unit) prog" where
  "remove_job jid =
     swallow (bind (queue_ask (\<lambda>e. queue_get e jid)) (\<lambda>job.
       if job then queue_call (\<lambda>e. queue_remove e jid) else ret ()))"

definition cancelForBooking :: "string \<Rightarrow> ('q, unit) prog" where
  "cancelForBooking bk =
     bind (query Pool (sel (\<lambda>t. filter (\<lambda>r. r_booking r = bk \<and> pending (r_status r)) (reminders t)))) (\<lambda>rows.
     andthen (for_each rows (\<lambda>r. remove_job (job_id bk (r_offset r))))
       (query Pool (cancel_reminders bk pending)))"

definition cancelReminderJob :: "string \<Rightarrow> string \<Rightarrow> int \<Rightarrow> ('q, unit) prog" where
  "cancelReminderJob rid bk off =
     andthen (remove_job (job_id bk off))
       (andthen (query Pool (upd_reminders (\<lambda>r. r_id r = rid \<and> pending (r_status r))
          (\<lambda>_ r. r\<lparr>r_status := R_Cancelled\<rparr>))) (ret ()))"

lemma job_id_inj: "job_id bk a = job_id bk b \<longleftrightarrow> a = b"
  by (simp add: job_id_def int_text_inj)

subsection \<open>What the manager relies on\<close>

text \<open>A job queue as the manager sees it: the jobs by identifier, each with its payload and delay. Adding
  under an identifier in use changes nothing.\<close>

type_synonym job_view = "string \<Rightarrow> (string \<times> int) option"

definition add_job :: "string \<Rightarrow> string \<Rightarrow> int \<Rightarrow> job_view \<Rightarrow> job_view" where
  "add_job j r d v = (case v j of None \<Rightarrow> v(j \<mapsto> (r, d)) | Some _ \<Rightarrow> v)"

locale job_queue =
  fixes add :: "string \<Rightarrow> string \<Rightarrow> int \<Rightarrow> 'q \<Rightarrow> exn + 'q"
    and get :: "string \<Rightarrow> 'q \<Rightarrow> exn + bool"
    and remove :: "string \<Rightarrow> 'q \<Rightarrow> exn + 'q"
    and jobs :: "'q \<Rightarrow> job_view"
  assumes add_jobs: "\<exists>q'. add j r d q = Inr q' \<and> jobs q' = add_job j r d (jobs q)"
    and get_jobs: "get j q = Inr (jobs q j \<noteq> None)"
    and remove_jobs: "\<exists>q'. remove j q = Inr q' \<and> jobs q' = (jobs q)(j := None)"
begin

definition runs_on :: "'q env \<Rightarrow> bool" where
  "runs_on e \<longleftrightarrow> reliable e \<and> queue_add e = add \<and> queue_get e = get \<and> queue_remove e = remove"

end

text \<open>The effect of an enqueue on the rows and the jobs, as one function.\<close>

definition enqueue_step ::
    "string \<Rightarrow> int \<Rightarrow> int \<Rightarrow> int \<Rightarrow> tables \<times> job_view \<Rightarrow> tables \<times> job_view" where
  "enqueue_step bk start c off st = (case st of (t, v) \<Rightarrow>
     if start - off * 60000 \<le> c
     then (t\<lparr>reminders := upd_where (\<lambda>r. r_booking r = bk \<and> r_offset r = off \<and> r_status r = Scheduled)
             (\<lambda>r. r\<lparr>r_status := Skipped\<rparr>) (reminders t)\<rparr>, v)
     else (case scheduled_rows bk off t of [] \<Rightarrow> (t, v)
       | r # _ \<Rightarrow> (t, add_job (job_id bk off) (r_id r) (start - off * 60000 - c) v)))"

context job_queue begin

lemma enqueue_offset_run:
  assumes "runs_on e" "tx w = No_Tx"
  shows "\<exists>w'. enqueue_offset bk start c off e w = (Inr (), w') \<and> tx w' = No_Tx
    \<and> (tabs w', jobs (queue w')) = enqueue_step bk start c off (tabs w, jobs (queue w))"
proof (cases "start - off * 60000 \<le> c")
  case True
  then show ?thesis
    using assms by (auto simp: enqueue_offset_def enqueue_step_def runs_on_def prog_simps query_def
        skip_rows_def upd_reminders_def)
next
  case False
  show ?thesis
  proof (cases "scheduled_rows bk off (tabs w)")
    case Nil
    then show ?thesis
      using assms False by (auto simp: enqueue_offset_def enqueue_step_def runs_on_def prog_simps
          query_def sel_def)
  next
    case (Cons r rs)
    obtain q' where "add (job_id bk off) (r_id r) (start - off * 60000 - c) (queue w) = Inr q'"
      "jobs q' = add_job (job_id bk off) (r_id r) (start - off * 60000 - c) (jobs (queue w))"
      using add_jobs by blast
    then show ?thesis
      using assms False Cons by (auto simp: enqueue_offset_def enqueue_step_def runs_on_def prog_simps
          query_def sel_def queue_call_def mult.commute [of off])
  qed
qed

lemma enqueue_run:
  assumes "runs_on e" "tx w = No_Tx"
  shows "\<exists>w'. enqueueForBooking bk start offs c e w = (Inr (), w') \<and> tx w' = No_Tx
    \<and> (tabs w', jobs (queue w')) = fold (enqueue_step bk start c) offs (tabs w, jobs (queue w))"
  unfolding enqueueForBooking_def
  using assms(2)
proof (induction offs arbitrary: w)
  case Nil
  then show ?case by (simp add: prog_simps)
next
  case (Cons off offs)
  obtain w1 where w1: "enqueue_offset bk start c off e w = (Inr (), w1)" "tx w1 = No_Tx"
    "(tabs w1, jobs (queue w1)) = enqueue_step bk start c off (tabs w, jobs (queue w))"
    using enqueue_offset_run [OF assms(1) Cons.prems] by blast
  then show ?case using Cons.IH [OF w1(2)] by (simp add: prog_simps)
qed

end

subsection \<open>The store of the idempotency test\<close>

text \<open>\<open>jobStore\<close> of the test: a map from identifiers to jobs, as an association list in insertion
  order; \<open>delete\<close> is how the test takes jobs out.\<close>

type_synonym job_store = "(string \<times> string \<times> int) list"

definition store_add :: "string \<Rightarrow> string \<Rightarrow> int \<Rightarrow> job_store \<Rightarrow> exn + job_store" where
  "store_add j r d q = Inr (if map_of q j \<noteq> None then q else q @ [(j, (r, d))])"

definition store_get :: "string \<Rightarrow> job_store \<Rightarrow> exn + bool" where
  "store_get j q = Inr (map_of q j \<noteq> None)"

definition store_delete :: "string \<Rightarrow> job_store \<Rightarrow> exn + job_store" where
  "store_delete j q = Inr (filter (\<lambda>p. fst p \<noteq> j) q)"

lemma map_of_filter_key: "map_of (filter (\<lambda>p. fst p \<noteq> j) q) = (map_of q)(j := None)"
  by (induction q) auto

interpretation store: job_queue store_add store_get store_delete map_of
proof unfold_locales
  show "\<exists>q'. store_add j r d q = Inr q' \<and> map_of q' = add_job j r d (map_of q)" for j r d q
    by (auto simp: store_add_def add_job_def map_add_def fun_eq_iff split: option.splits)
  show "store_get j q = Inr (map_of q j \<noteq> None)" for j q
    by (simp add: store_get_def)
  show "\<exists>q'. store_delete j q = Inr q' \<and> map_of q' = (map_of q)(j := None)" for j q
    by (simp add: store_delete_def map_of_filter_key)
qed

subsection \<open>Enqueueing twice\<close>

lemma scheduled_rows_skip_other:
  "off' \<noteq> off \<Longrightarrow> scheduled_rows bk off
     (t\<lparr>reminders := upd_where (\<lambda>r. r_booking r = bk \<and> r_offset r = off' \<and> r_status r = Scheduled)
       (\<lambda>r. r\<lparr>r_status := Skipped\<rparr>) rs\<rparr>) = filter (\<lambda>r. r_booking r = bk \<and> r_offset r = off \<and> r_status r = Scheduled) rs"
  unfolding scheduled_rows_def by (induction rs) auto

text \<open>The state the enqueue of one offset reaches and keeps: past offsets have no scheduled row left,
  future offsets with a scheduled row have their job.\<close>

definition settled :: "string \<Rightarrow> int \<Rightarrow> int \<Rightarrow> int \<Rightarrow> tables \<times> job_view \<Rightarrow> bool" where
  "settled bk start c off st = (case st of (t, v) \<Rightarrow>
     if start - off * 60000 \<le> c then scheduled_rows bk off t = []
     else scheduled_rows bk off t = [] \<or> v (job_id bk off) \<noteq> None)"

lemma enqueue_step_settles: "settled bk start c off (enqueue_step bk start c off st)"
proof -
  have "filter (\<lambda>r. r_booking r = bk \<and> r_offset r = off \<and> r_status r = Scheduled)
      (upd_where (\<lambda>r. r_booking r = bk \<and> r_offset r = off \<and> r_status r = Scheduled)
        (\<lambda>r. r\<lparr>r_status := Skipped\<rparr>) rs) = []" for rs :: "reminder_row list"
    by (induction rs) auto
  then show ?thesis
    by (cases st) (auto simp: settled_def enqueue_step_def scheduled_rows_def add_job_def
        split: list.splits option.splits if_splits)
qed

lemma enqueue_step_keeps_settled:
  assumes "settled bk start c off st"
  shows "settled bk start c off (enqueue_step bk start c off' st)"
proof (cases "off' = off")
  case True
  then show ?thesis by (simp add: enqueue_step_settles)
next
  case False
  then show ?thesis
    using assms scheduled_rows_skip_other [OF False, of bk]
    by (cases st) (auto simp: settled_def enqueue_step_def add_job_def scheduled_rows_def [symmetric]
        split: list.splits option.splits if_splits)
qed

lemma settled_step_id:
  assumes "settled bk start c off st"
  shows "enqueue_step bk start c off st = st"
proof (cases st)
  case (Pair t v)
  show ?thesis
  proof (cases "start - off * 60000 \<le> c")
    case True
    then have "scheduled_rows bk off t = []" using assms Pair by (simp add: settled_def)
    then have "upd_where (\<lambda>r. r_booking r = bk \<and> r_offset r = off \<and> r_status r = Scheduled)
        (\<lambda>r. r\<lparr>r_status := Skipped\<rparr>) (reminders t) = reminders t"
      by (intro upd_where_none) (auto simp: scheduled_rows_def filter_empty_conv)
    then show ?thesis using True Pair by (simp add: enqueue_step_def)
  next
    case False
    then show ?thesis
      using assms Pair by (auto simp: settled_def enqueue_step_def add_job_def split: list.splits option.splits)
  qed
qed

lemma fold_settles:
  "(off \<in> set offs \<or> settled bk start c off st) \<Longrightarrow>
     settled bk start c off (fold (enqueue_step bk start c) offs st)"
proof (induction offs arbitrary: st)
  case Nil
  then show ?case by simp
next
  case (Cons o1 offs)
  have "off \<in> set offs \<or> settled bk start c off (enqueue_step bk start c o1 st)"
    using Cons.prems enqueue_step_settles [of bk start c o1 st]
      enqueue_step_keeps_settled [of bk start c off st o1] by (cases "off = o1") auto
  then show ?case using Cons.IH by simp
qed

lemma fold_settled_id:
  "(\<And>off. off \<in> set offs \<Longrightarrow> settled bk start c off st) \<Longrightarrow> fold (enqueue_step bk start c) offs st = st"
  by (induction offs) (simp_all add: settled_step_id)

lemma enqueue_twice:
  "fold (enqueue_step bk start c) offs (fold (enqueue_step bk start c) offs st)
     = fold (enqueue_step bk start c) offs st"
  by (rule fold_settled_id) (simp add: fold_settles)

context job_queue begin

text \<open>Enqueueing the same reminders again changes neither the rows nor the jobs.\<close>

lemma enqueue_again:
  assumes "runs_on e" "tx w = No_Tx" "enqueueForBooking bk start offs c e w = (r, w1)"
  shows "r = Inr () \<and> (\<exists>w2. enqueueForBooking bk start offs c e w1 = (Inr (), w2)
    \<and> tabs w2 = tabs w1 \<and> jobs (queue w2) = jobs (queue w1))"
proof -
  have w1: "r = Inr ()" "tx w1 = No_Tx"
    "(tabs w1, jobs (queue w1)) = fold (enqueue_step bk start c) offs (tabs w, jobs (queue w))"
    using enqueue_run [OF assms(1,2), of bk start offs c] assms(3) by auto
  obtain w2 where "enqueueForBooking bk start offs c e w1 = (Inr (), w2)"
    "(tabs w2, jobs (queue w2)) = fold (enqueue_step bk start c) offs (tabs w1, jobs (queue w1))"
    using enqueue_run [OF assms(1) w1(2), of bk start offs c] by blast
  then have "(tabs w2, jobs (queue w2)) = (tabs w1, jobs (queue w1))"
    unfolding w1(3) enqueue_twice by simp
  with \<open>enqueueForBooking bk start offs c e w1 = (Inr (), w2)\<close> w1(1) show ?thesis by simp
qed

text \<open>Every future reminder with a scheduled row has its job afterwards.\<close>

lemma enqueue_complete:
  assumes "runs_on e" "tx w = No_Tx" "enqueueForBooking bk start offs c e w = (r, w1)"
    "off \<in> set offs" "row \<in> set (scheduled_rows bk off (tabs w1))"
  shows "jobs (queue w1) (job_id bk off) \<noteq> None \<and> c < start - off * 60000"
proof -
  have "settled bk start c off (tabs w1, jobs (queue w1))"
    using enqueue_run [OF assms(1,2), of bk start offs c] assms(3,4) by (auto simp: fold_settles)
  then show ?thesis using assms(5) by (auto simp: settled_def split: if_splits)
qed

end

subsection \<open>Cancelling the reminders of a booking\<close>

definition reminders_cancelled :: "string \<Rightarrow> tables \<Rightarrow> tables" where
  "reminders_cancelled bk t =
     t\<lparr>reminders := upd_where (\<lambda>r. r_booking r = bk \<and> pending (r_status r))
       (\<lambda>r. r\<lparr>r_status := R_Cancelled\<rparr>) (reminders t)\<rparr>"

lemma wp_remove_job:
  assumes "idle T w"
  shows "wp (remove_job j) (\<lambda>_. idle T) E e w"
  unfolding remove_job_def
  apply simp
  apply (rule wp_queue_ask [OF assms])
   apply (intro wp_cases)
    apply (simp_all add: wp_queue_call)
  done

lemma wp_cancelForBooking:
  assumes "idle T w"
  shows "wp (cancelForBooking bk) (\<lambda>_. idle (reminders_cancelled bk T)) (\<lambda>_. idle T) e w"
  unfolding cancelForBooking_def
  apply simp
  apply (rule wp_sel_idle [OF assms])
   apply (rule wp_mono [OF wp_for_each [where J = "idle T"]])
      apply (erule wp_remove_job)
     apply assumption
    apply (rule wp_query_idle, assumption)
     apply (auto simp: cancel_reminders_def reminders_cancelled_def)
  done

subsection \<open>The manager keeps every invariant of the tables\<close>

context table_invariant begin

lemma keeps_enqueue_offset: "keeps I (enqueue_offset bk start c off)"
  unfolding enqueue_offset_def Let_def skip_rows_def
  by (intro pres_intros upd_reminders_keeps) (simp add: keeps_reminder_key_def)

lemma keeps_enqueueForBooking: "keeps I (enqueueForBooking bk start offs c)"
  unfolding enqueueForBooking_def by (intro pres_intros keeps_enqueue_offset)

lemma keeps_remove_job: "keeps I (remove_job j)"
  unfolding remove_job_def by (intro pres_intros)

lemma keeps_cancelForBooking: "keeps I (cancelForBooking bk)"
  unfolding cancelForBooking_def by (intro pres_intros keeps_remove_job cancel_reminders_keeps)

lemma keeps_cancelReminderJob: "keeps I (cancelReminderJob rid bk off)"
  unfolding cancelReminderJob_def
  by (intro pres_intros keeps_remove_job upd_reminders_keeps) (simp add: keeps_reminder_key_def)

lemma keeps_reconcile: "keeps I reconcileScheduledReminders"
  unfolding reconcileScheduledReminders_def
  by (intro pres_intros) (auto split: prod.split intro!: pres_intros keeps_enqueueForBooking)

end

subsection \<open>Properties\<close>

text \<open>Enqueueing is idempotent: on a queue that keeps one job per identifier, enqueueing the same
  reminders of a booking a second time returns and changes neither a row nor a job, and after the
  first time every offset still scheduled lies in the future and has its job.\<close>

theorem enqueue_idempotent:
  assumes "reliable e" "queue_add e = store_add" "queue_get e = store_get" "queue_remove e = store_delete"
    and "tx w = No_Tx" "enqueueForBooking bk start offs c e w = (r, w1)"
  shows "r = Inr ()
    \<and> (\<exists>w2. enqueueForBooking bk start offs c e w1 = (Inr (), w2)
        \<and> tabs w2 = tabs w1 \<and> map_of (queue w2) = map_of (queue w1))
    \<and> (\<forall>off \<in> set offs. scheduled_rows bk off (tabs w1) \<noteq> [] \<longrightarrow>
        map_of (queue w1) (job_id bk off) \<noteq> None \<and> c < start - off * 60000)"
proof -
  have on: "store.runs_on e" using assms(1-4) by (simp add: store.runs_on_def)
  show ?thesis
    using store.enqueue_again [OF on assms(5,6)]
      store.enqueue_complete [OF on assms(5,6) _ hd_in_set] by blast
qed

definition store_env :: "job_store env" where
  "store_env = \<lparr>fault = (\<lambda>_. None), lands = (\<lambda>_. False), clock_ms = (\<lambda>_. 1793000000000),
     fresh = (\<lambda>n. replicate (Suc n) (CHR ''x'')), pool_pins = True, driver_dates = True,
     double_release = None, range_text = ''invalid ISO 8601 string'', queue_add = store_add, queue_get = store_get, queue_remove = store_delete\<rparr>"

definition store_world :: "job_store world" where
  "store_world =
     \<lparr>tabs = demo_tables\<lparr>reminders := [new_reminder ''b1'' 1440 1793462400000 ''r1'',
        new_reminder ''b1'' 60 1793545200000 ''r2'']\<rparr>,
      tx = No_Tx, tick = 0, leased = [], queue = []\<rparr>"

theorem enqueue_idempotent_witness:
  "let w1 = snd (enqueueForBooking ''b1'' 1793548800000 [1440, 60] 1793500000000 store_env store_world) in
   (\<exists>w2. enqueueForBooking ''b1'' 1793548800000 [1440, 60] 1793500000000 store_env w1 = (Inr (), w2)
      \<and> tabs w2 = tabs w1 \<and> map_of (queue w2) = map_of (queue w1))"
proof -
  obtain r w1 where run: "enqueueForBooking ''b1'' 1793548800000 [1440, 60] 1793500000000 store_env store_world = (r, w1)"
    by fastforce
  have "reliable store_env" "queue_add store_env = store_add" "queue_get store_env = store_get"
    "queue_remove store_env = store_delete" "tx store_world = No_Tx"
    by (simp_all add: store_env_def store_world_def reliable_def)
  from enqueue_idempotent [OF this run] show ?thesis by (simp add: run)
qed

lemma reminders_cancelled_none_pending:
  "r \<in> set (reminders (reminders_cancelled bk t)) \<Longrightarrow> r_booking r = bk \<Longrightarrow> \<not> pending (r_status r)"
  unfolding reminders_cancelled_def
  by (simp, erule in_upd_whereE) (simp_all, metis pending_def reminder_status.distinct reminder_row.select_convs(5)
      reminder_row.surjective reminder_row.update_convs(5))

text \<open>\<open>cancelForBooking\<close> is safe under any failure: if it returns, no reminder of the booking is
  scheduled or being sent any more and no other row has changed, although the removals from the
  queue may all have failed; if it throws, the tables are as they were.\<close>

theorem cancelForBooking_safe:
  assumes "idle T w"
  shows "case cancelForBooking bk e w of
      (Inr _, w') \<Rightarrow> idle (reminders_cancelled bk T) w'
        \<and> (\<forall>r \<in> set (reminders (tabs w')). r_booking r = bk \<longrightarrow> \<not> pending (r_status r))
    | (Inl _, w') \<Rightarrow> idle T w'"
  using wp_cancelForBooking [OF assms, of bk e]
  by (auto simp: wp_def idle_def dest: reminders_cancelled_none_pending split: prod.splits sum.splits)

theorem cancelForBooking_safe_witness:
  "case cancelForBooking ''b1'' demo_env demo_world of
      (Inr _, w') \<Rightarrow> idle (reminders_cancelled ''b1'' demo_tables) w'
        \<and> (\<forall>r \<in> set (reminders (tabs w')). r_booking r = ''b1'' \<longrightarrow> \<not> pending (r_status r))
    | (Inl _, w') \<Rightarrow> idle demo_tables w'"
  by (rule cancelForBooking_safe [OF demo_idle])

end
