(* ===== verification/Json.thy ===== *)
theory Json
  imports Prelude
begin

text \<open>
  \<open>JSON.stringify\<close> on an object whose values are strings, which is how the services build the hash of
  a request, together with a reader for the texts it writes. Fields whose value is \<open>undefined\<close>
  are left out, as \<open>JSON.stringify\<close> does.
\<close>

definition quote_char :: char where "quote_char = CHR 0x22"
definition backslash :: char where "backslash = CHR 0x5C"

definition hex_char :: "nat \<Rightarrow> char" where
  "hex_char n = (if n < 10 then char_of (48 + n) else char_of (87 + n))"

definition hex_val :: "char \<Rightarrow> nat" where
  "hex_val c = (let n = of_char c in if n < 58 then n - 48 else n - 87)"

text \<open>The escape of one character of a JSON string.\<close>

definition json_esc :: "char \<Rightarrow> string" where
  "json_esc c =
     (let n = (of_char c :: nat) in
      if n = 34 then [backslash, quote_char]
      else if n = 92 then [backslash, backslash]
      else if n = 8 then [backslash, CHR ''b'']
      else if n = 9 then [backslash, CHR ''t'']
      else if n = 10 then [backslash, CHR ''n'']
      else if n = 12 then [backslash, CHR ''f'']
      else if n = 13 then [backslash, CHR ''r'']
      else if n < 32 then [backslash, CHR ''u'', CHR ''0'', CHR ''0'', hex_char (n div 16), hex_char (n mod 16)]
      else [c])"

definition json_string :: "string \<Rightarrow> string" where
  "json_string s = quote_char # concat (map json_esc s) @ [quote_char]"

fun json_fields :: "(string \<times> string option) list \<Rightarrow> string list" where
  "json_fields [] = []"
| "json_fields ((k, None) # fs) = json_fields fs"
| "json_fields ((k, Some v) # fs) = (json_string k @ CHR '':'' # json_string v) # json_fields fs"

fun join_commas :: "string list \<Rightarrow> string" where
  "join_commas [] = []"
| "join_commas [s] = s"
| "join_commas (s # t # ss) = s @ CHR '','' # join_commas (t # ss)"

definition stringify :: "(string \<times> string option) list \<Rightarrow> string" where
  "stringify fs = CHR ''{'' # join_commas (json_fields fs) @ ''}''"

subsection \<open>Reading it back\<close>

text \<open>The rest of a string after its opening quote, up to the closing one.\<close>

definition unescape1 :: "char \<Rightarrow> char option" where
  "unescape1 c =
     (if c = quote_char \<or> c = backslash then Some c
      else if c = CHR ''b'' then Some (char_of (8::nat)) else if c = CHR ''t'' then Some (char_of (9::nat))
      else if c = CHR ''n'' then Some (char_of (10::nat)) else if c = CHR ''f'' then Some (char_of (12::nat))
      else if c = CHR ''r'' then Some (char_of (13::nat)) else None)"

definition push_char :: "char \<Rightarrow> (string \<times> string) option \<Rightarrow> (string \<times> string) option" where
  "push_char c r = map_option (\<lambda>(s, t). (c # s, t)) r"

fun read_string :: "string \<Rightarrow> (string \<times> string) option" where
  "read_string [] = None"
| "read_string [c] = (if c = quote_char then Some ([], []) else None)"
| "read_string (c # d # r) =
     (if c = quote_char then Some ([], d # r)
      else if c \<noteq> backslash then push_char c (read_string (d # r))
      else if d = CHR ''u'' then
        (case r of z # y # h # l # r' \<Rightarrow> push_char (char_of (16 * hex_val h + hex_val l)) (read_string r')
         | _ \<Rightarrow> None)
      else (case unescape1 d of None \<Rightarrow> None | Some x \<Rightarrow> push_char x (read_string r)))"

lemma hex_roundtrip: "n < 16 \<Longrightarrow> hex_val (hex_char n) = n"
  by (auto simp: hex_val_def hex_char_def)

lemma char_eqI: "(of_char c :: nat) = n \<Longrightarrow> c = char_of n"
  by (metis char_of_char)

lemma special_chars: "char_of (34::nat) = quote_char" "char_of (92::nat) = backslash"
  by (code_simp, code_simp)

lemma read_string_plain:
  "c \<noteq> quote_char \<Longrightarrow> c \<noteq> backslash \<Longrightarrow> t \<noteq> [] \<Longrightarrow> read_string (c # t) = push_char c (read_string t)"
  by (cases t) simp_all

lemma read_string_esc:
  "t \<noteq> [] \<Longrightarrow> read_string (json_esc c @ t) = push_char c (read_string t)"
proof -
  assume t: "t \<noteq> []"
  let ?n = "of_char c :: nat"
  consider "?n = 34" | "?n = 92" | "?n \<in> {8, 9, 10, 12, 13}"
    | "?n < 32" "?n \<notin> {8, 9, 10, 12, 13}" | "32 \<le> ?n" "?n \<noteq> 34" "?n \<noteq> 92" by force
  then show ?thesis
  proof cases
    case 1
    then show ?thesis
      using char_eqI [OF 1]
      by (simp add: json_esc_def special_chars unescape1_def) (simp add: quote_char_def backslash_def)
  next
    case 2
    then show ?thesis
      using char_eqI [OF 2]
      by (simp add: json_esc_def special_chars unescape1_def) (simp add: quote_char_def backslash_def)
  next
    case 3
    then show ?thesis
      by (auto simp: json_esc_def unescape1_def quote_char_def backslash_def dest: char_eqI)
  next
    case 4
    have "char_of (16 * hex_val (hex_char (?n div 16)) + hex_val (hex_char (?n mod 16))) = c"
      using 4 by (simp add: hex_roundtrip)
    then show ?thesis
      using 4 by (simp add: json_esc_def Let_def) (simp add: backslash_def quote_char_def)
  next
    case 5
    then have "c \<noteq> quote_char" "c \<noteq> backslash" by (auto simp: quote_char_def backslash_def)
    then show ?thesis using 5 t by (simp add: json_esc_def read_string_plain)
  qed
qed

lemma read_string_quoted: "read_string (concat (map json_esc s) @ quote_char # rest) = Some (s, rest)"
proof (induction s)
  case Nil
  then show ?case by (cases rest) simp_all
next
  case (Cons c s)
  then show ?case by (simp add: read_string_esc push_char_def)
qed

lemma json_string_prefix:
  "json_string a @ x = json_string b @ y \<Longrightarrow> a = b \<and> x = y"
proof -
  assume "json_string a @ x = json_string b @ y"
  then have "concat (map json_esc a) @ quote_char # x = concat (map json_esc b) @ quote_char # y"
    by (simp add: json_string_def)
  then show ?thesis by (metis read_string_quoted option.inject prod.inject)
qed

lemma json_string_nonempty: "json_string s = quote_char # concat (map json_esc s) @ [quote_char]"
  by (simp add: json_string_def)

text \<open>Two objects with the same text have the same defined fields, in the same order.\<close>

fun defined_fields :: "(string \<times> string option) list \<Rightarrow> (string \<times> string) list" where
  "defined_fields [] = []"
| "defined_fields ((k, None) # fs) = defined_fields fs"
| "defined_fields ((k, Some v) # fs) = (k, v) # defined_fields fs"

lemma json_fields_defined:
  "json_fields fs = map (\<lambda>(k, v). json_string k @ CHR '':'' # json_string v) (defined_fields fs)"
  by (induction fs rule: json_fields.induct) simp_all

lemma join_fields_inj:
  "join_commas (map (\<lambda>(k, v). json_string k @ CHR '':'' # json_string v) xs) @ ''}''
   = join_commas (map (\<lambda>(k, v). json_string k @ CHR '':'' # json_string v) ys) @ ''}'' \<Longrightarrow> xs = ys"
proof (induction xs arbitrary: ys)
  case Nil
  then show ?case
    by (cases ys rule: list.exhaust; cases "tl ys")
      (auto simp: json_string_nonempty quote_char_def)
next
  case (Cons x xs)
  obtain k v where x: "x = (k, v)" by (cases x)
  obtain z zs where xs: "join_commas (map (\<lambda>(k, v). json_string k @ CHR '':'' # json_string v) (x # xs)) @ ''}''
      = json_string k @ CHR '':'' # json_string v @ z # zs"
    and z: "z # zs = (if xs = [] then ''}'' else CHR '','' #
      join_commas (map (\<lambda>(k, v). json_string k @ CHR '':'' # json_string v) xs) @ ''}'')"
    by (cases xs) (auto simp: x)
  show ?case
  proof (cases ys)
    case Nil
    then show ?thesis using Cons.prems unfolding xs
      by (auto simp: json_string_nonempty quote_char_def)
  next
    case (Cons y ys')
    obtain k' v' where y: "y = (k', v')" by (cases y)
    obtain u us where ys: "join_commas (map (\<lambda>(k, v). json_string k @ CHR '':'' # json_string v) (y # ys')) @ ''}''
        = json_string k' @ CHR '':'' # json_string v' @ u # us"
      and u: "u # us = (if ys' = [] then ''}'' else CHR '','' #
        join_commas (map (\<lambda>(k, v). json_string k @ CHR '':'' # json_string v) ys') @ ''}'')"
      by (cases ys') (auto simp: y)
    have "json_string k @ CHR '':'' # json_string v @ z # zs
        = json_string k' @ CHR '':'' # json_string v' @ u # us"
      using Cons.prems unfolding Cons xs ys .
    from json_string_prefix [OF this]
    have kk: "k = k'" and "json_string v @ z # zs = json_string v' @ u # us" by simp_all
    then have "v = v'" and rest: "z # zs = u # us"
      using json_string_prefix by blast+
    moreover have "xs = ys'"
    proof (cases "xs = [] \<or> ys' = []")
      case True
      then show ?thesis using rest unfolding z u by (auto split: if_splits)
    next
      case False
      then show ?thesis using rest Cons.IH [of ys'] unfolding z u by simp
    qed
    ultimately show ?thesis using kk by (simp add: x y Cons)
  qed
qed

lemma stringify_inj: "stringify fs = stringify gs \<Longrightarrow> defined_fields fs = defined_fields gs"
  using join_fields_inj by (simp add: stringify_def json_fields_defined)

end
