(* ===== verification/Booking_Service.thy ===== *)
theory Booking_Service
  imports Consistency Reminder_Queue Json Time_Core
begin

text \<open>
  \<^verbatim>\<open>apps/api/src/bookings/bookings.service.ts\<close>: \<open>createBooking\<close>, statement by statement, over the
  database handle it is given (\<open>Pool\<close>, which is what the controller passes).
\<close>

subsection \<open>Requests and results\<close>

record booking_request =
  rq_provider :: "string option"
  rq_event_type :: "string option"
  rq_slot :: string
  rq_client :: string
  rq_key :: "string option"
  rq_tz :: string

record booking_result =
  res_status :: int
  res_booking :: "string option"
  res_error :: "string option"
  res_replay :: bool

definition failed :: "int \<Rightarrow> string \<Rightarrow> booking_result" where
  "failed st err = \<lparr>res_status = st, res_booking = None, res_error = Some err, res_replay = False\<rparr>"

definition created :: "string \<Rightarrow> bool \<Rightarrow> booking_result" where
  "created bk replay = \<lparr>res_status = 201, res_booking = Some bk, res_error = None, res_replay = replay\<rparr>"

text \<open>\<open>JSON.stringify(req)\<close>, in the order in which the controller writes the fields.\<close>

definition request_text :: "booking_request \<Rightarrow> string" where
  "request_text req = stringify
     [(''providerId'', rq_provider req), (''slotId'', Some (rq_slot req)), (''clientId'', Some (rq_client req)),
      (''eventTypeId'', rq_event_type req), (''idempotencyKey'', rq_key req),
      (''clientTimezone'', Some (rq_tz req))]"

subsection \<open>The steps\<close>

text \<open>The configured minimum notice, \<open>Number(notice) || 4\<close>, 4 when anything goes wrong.\<close>

definition notice_hours :: "provider_row list \<Rightarrow> int" where
  "notice_hours ps = (case ps of [] \<Rightarrow> 4
     | p # _ \<Rightarrow> (case p_notice p of None \<Rightarrow> 4 | Some n \<Rightarrow> if n = 0 then 4 else n))"

definition configured_notice :: "booking_request \<Rightarrow> ('q, int) prog" where
  "configured_notice req = unless_fails 4 (
     bind (query Pool (sel (slots_by_id (rq_slot req)))) (\<lambda>slotRes.
     let providerId = (case slotRes of s # _ \<Rightarrow> Some (s_provider s) | [] \<Rightarrow> truthy (rq_provider req)) in
     case truthy providerId of None \<Rightarrow> ret 4
     | Some p \<Rightarrow> bind (query Pool (sel (providers_by_id p))) (\<lambda>noticeRes. ret (notice_hours noticeRes))))"

definition event_type_check :: "booking_request \<Rightarrow> ('q, booking_result option) prog" where
  "event_type_check req = (case truthy (rq_event_type req) of None \<Rightarrow> ret None
   | Some et \<Rightarrow> unless_fails (Some (failed 400 ''event_type_validation_failed'')) (
       bind (query Pool (sel (event_types_by_id et))) (\<lambda>etRes.
       case etRes of [] \<Rightarrow> ret (Some (failed 400 ''invalid_event_type_not_found''))
       | t # _ \<Rightarrow>
         bind (query Pool (sel (slots_by_id (rq_slot req)))) (\<lambda>slotRes.
         let slotProviderId = (case slotRes of [] \<Rightarrow> None | s # _ \<Rightarrow> Some (s_provider s)) in
         if e_provider t \<noteq> [] \<and> Some (e_provider t) \<noteq> slotProviderId
         then ret (Some (failed 400 ''event_type_wrong_provider'')) else ret None))))"

definition idempotency_check :: "booking_request \<Rightarrow> ('q, booking_result option) prog" where
  "idempotency_check req = (case truthy (rq_key req) of None \<Rightarrow> ret None
   | Some k \<Rightarrow> bind (query Pool (sel (idem_by_key (rq_client req) k))) (\<lambda>existing.
       case existing of [] \<Rightarrow> ret None
       | row # _ \<Rightarrow> if i_hash row \<noteq> request_text req then ret (Some (failed 422 ''idempotency_key_reuse''))
         else ret (Some (created (i_booking row) True))))"

definition insert_future_reminder :: "string \<Rightarrow> int \<Rightarrow> int \<Rightarrow> ('q, unit) prog" where
  "insert_future_reminder bk start off =
     (let fireMs = start - off * 60000 in
      bind now (\<lambda>nowMs. if nowMs < fireMs then query Pool (insert_reminder bk off fireMs) else ret ()))"

definition enqueue_after_commit :: "string \<Rightarrow> string \<Rightarrow> int \<Rightarrow> ('q, unit) prog" where
  "enqueue_after_commit slot bk effectiveNow =
     bind (query Pool (sel (slots_by_id slot))) (\<lambda>slotRes. case slotRes of [] \<Rightarrow> ret ()
     | s # _ \<Rightarrow> bind (query Pool (sel (\<lambda>t. map r_offset (filter (\<lambda>r. r_booking r = bk \<and> r_status r = Scheduled)
                   (reminders t))))) (\<lambda>offsets.
         if offsets \<noteq> [] then enqueueForBooking bk (s_start s) offsets effectiveNow else ret ()))"

definition booking_transaction ::
    "booking_request \<Rightarrow> int \<Rightarrow> int \<Rightarrow> bool \<Rightarrow> ('q, booking_result) prog" where
  "booking_transaction req effectiveNow minSlotTime reminderQueue =
     andthen (begin_tx Pool) (
     bind (query Pool (claim_slot (rq_slot req) (\<lambda>st. effectiveNow \<le> st \<and> minSlotTime \<le> st))) (\<lambda>slotRes.
     case slotRes of
       [] \<Rightarrow> andthen (rollback_tx Pool) (ret (failed 409 ''slot_unavailable''))
     | s # _ \<Rightarrow>
       bind (query Pool (insert_booking (rq_slot req) (rq_client req) (rq_tz req)
              (truthy (rq_provider req)) (truthy (rq_event_type req)) 1)) (\<lambda>b.
       andthen (for_each [1440, 60] (insert_future_reminder (b_id b) (s_start s))) (
       andthen (case truthy (rq_key req) of None \<Rightarrow> ret ()
          | Some k \<Rightarrow> query Pool (insert_idem (rq_client req) k (request_text req) (b_id b))) (
       andthen (commit_tx Pool) (
       andthen (if reminderQueue then enqueue_after_commit (rq_slot req) (b_id b) effectiveNow else ret ()) (
       ret (created (b_id b) False))))))))"

definition failure_response :: "exn \<Rightarrow> booking_result" where
  "failure_response x =
     (if is_conflict x then failed 409 ''slot_unavailable''
      else failed 400 (if exn_text x = [] then ''bad_request'' else exn_text x))"

definition booking_failure :: "exn \<Rightarrow> ('q, booking_result) prog" where
  "booking_failure x = andthen (swallow (rollback_tx Pool)) (ret (failure_response x))"

definition createBooking :: "booking_request \<Rightarrow> int option \<Rightarrow> bool \<Rightarrow> ('q, booking_result) prog" where
  "createBooking req nowUtc reminderQueue =
     bind (case nowUtc of Some c \<Rightarrow> ret c | None \<Rightarrow> now) (\<lambda>effectiveNow.
     bind (configured_notice req) (\<lambda>noticeHours.
     bind (event_type_check req) (\<lambda>bad. case bad of Some r \<Rightarrow> ret r
     | None \<Rightarrow>
       let minSlotTime = effectiveNow + noticeHours * 60 * 60 * 1000 in
       bind (idempotency_check req) (\<lambda>seen. case seen of Some r \<Rightarrow> ret r
       | None \<Rightarrow> try_catch (booking_transaction req effectiveNow minSlotTime reminderQueue) booking_failure))))"

subsection \<open>What a successful booking does to the tables\<close>

definition with_reminders :: "reminder_row list \<Rightarrow> tables \<Rightarrow> tables" where
  "with_reminders rs t = t\<lparr>reminders := reminders t @ rs\<rparr>"

definition with_idem :: "booking_request \<Rightarrow> string \<Rightarrow> tables \<Rightarrow> tables" where
  "with_idem req bk t = (case truthy (rq_key req) of None \<Rightarrow> t
     | Some k \<Rightarrow> t\<lparr>idempotency := idempotency t @ [\<lparr>i_client = rq_client req, i_key = k,
         i_hash = request_text req, i_status = 201, i_booking = bk\<rparr>]\<rparr>)"

text \<open>The reminder rows of a booking: one for each of the two offsets, at the start minus the offset,
  leaving out an offset only if it was past when the clock was read.\<close>

definition reminder_rows_for :: "string \<Rightarrow> int \<Rightarrow> (nat \<Rightarrow> int) \<Rightarrow> reminder_row list \<Rightarrow> bool" where
  "reminder_rows_for bk start clk rs \<longleftrightarrow>
     (\<forall>r \<in> set rs. \<exists>u. r = new_reminder bk (r_offset r) (start - r_offset r * 60000) u
        \<and> r_offset r \<in> {1440, 60} \<and> (\<exists>n. clk n < start - r_offset r * 60000))
     \<and> (\<forall>off \<in> {1440, 60}. off \<in> r_offset ` set rs \<or> (\<exists>n. start - off * 60000 \<le> clk n))"

text \<open>\<open>booked req clk c hours T b T'\<close>: at \<open>c\<close> the request took an open slot that starts after the notice,
  and led from the tables \<open>T\<close> to \<open>T'\<close> with the new booking \<open>b\<close>; \<open>clk\<close> is the clock.\<close>

definition booked ::
    "booking_request \<Rightarrow> (nat \<Rightarrow> int) \<Rightarrow> int \<Rightarrow> int \<Rightarrow> tables \<Rightarrow> booking_row \<Rightarrow> tables \<Rightarrow> bool" where
  "booked req clk c hours T b T' \<longleftrightarrow>
     (\<exists>s n rs. s \<in> set (slots T) \<and> s_id s = rq_slot req \<and> s_status s = Open
        \<and> c \<le> s_start s \<and> c + hours * 3600000 \<le> s_start s
        \<and> live_on (rq_slot req) T = [] \<and> rq_client req \<in> c_id ` set (clients T)
        \<and> b_id b \<notin> b_id ` set (bookings T)
        \<and> b = new_booking (rq_slot req) (rq_client req) (rq_tz req) (truthy (rq_provider req))
                (truthy (rq_event_type req)) 1 n (b_id b)
        \<and> reminder_rows_for (b_id b) (s_start s) clk rs
        \<and> T' = with_idem req (b_id b) (with_reminders rs (with_booking b (held (rq_slot req) T))))"

text \<open>Tables that differ in the reminder rows only.\<close>

definition same_core :: "tables \<Rightarrow> tables \<Rightarrow> bool" where
  "same_core t t' \<longleftrightarrow> (\<exists>rs. t' = t\<lparr>reminders := rs\<rparr>)"

lemma same_core_refl [simp]: "same_core t t"
  unfolding same_core_def by (rule exI [of _ "reminders t"], rule tables.equality) simp_all

lemma claim_slot_Cons:
  assumes "keys_ok T" "claim_slot i ok n u T = Inr (s # ss, T1)"
  shows "\<exists>s0. s0 \<in> set (slots T) \<and> s_id s0 = i \<and> s_status s0 = Open \<and> ok (s_start s0)
    \<and> s_start s = s_start s0 \<and> s_provider s = s_provider s0 \<and> T1 = held i T"
proof -
  let ?hit = "\<lambda>s. s_id s = i \<and> s_status s = Open \<and> ok (s_start s)"
  have "(Inr (s # ss, T1) :: exn + slot_row list \<times> tables)
      = Inr (map (\<lambda>s. s\<lparr>s_status := Held\<rparr>) (filter ?hit (slots T)),
             T\<lparr>slots := upd_where ?hit (\<lambda>s. s\<lparr>s_status := Held\<rparr>) (slots T)\<rparr>)"
    using assms(2) unfolding claim_slot_def Let_def by (rule sym)
  note parts = prod.inject [THEN iffD1, OF Inr_inject [OF this]]
  have hit: "s # ss = map (\<lambda>s. s\<lparr>s_status := Held\<rparr>) (filter ?hit (slots T))"
    and T1: "T1 = T\<lparr>slots := upd_where ?hit (\<lambda>s. s\<lparr>s_status := Held\<rparr>) (slots T)\<rparr>"
    by (rule parts [THEN conjunct1], rule parts [THEN conjunct2])
  obtain s0 where "s0 \<in> set (filter ?hit (slots T))" and s: "s = s0\<lparr>s_status := Held\<rparr>"
    using Cons_eq_map_D [OF hit] by (metis list.set_intros(1))
  then have s0: "s0 \<in> set (slots T)" "s_id s0 = i" "s_status s0 = Open" "ok (s_start s0)" by auto
  have "upd_where ?hit (\<lambda>s. s\<lparr>s_status := Held\<rparr>) (slots T)
      = upd_where (\<lambda>s. s_id s = i) (\<lambda>s. s\<lparr>s_status := Held\<rparr>) (slots T)"
    unfolding upd_where_def
  proof (rule map_cong)
    fix x
    assume "x \<in> set (slots T)"
    then have "x = s0" if "s_id x = i"
      using that s0 assms(1) distinct_map_eqD [of s_id "slots T" x s0] by (simp add: keys_ok_def)
    then show "(if ?hit x then x\<lparr>s_status := Held\<rparr> else x) = (if s_id x = i then x\<lparr>s_status := Held\<rparr> else x)"
      using s0 by auto
  qed simp
  then show ?thesis using s0 s T1 by (auto simp: held_def)
qed

lemma insert_booking_Inr:
  "insert_booking slot c tz p et v n u T = Inr (b, T') \<Longrightarrow>
     b = new_booking slot c tz p et v n u \<and> T' = with_booking b T \<and> u \<notin> b_id ` set (bookings T)
     \<and> live_on slot T = [] \<and> c \<in> c_id ` set (clients T) \<and> b_id b = u"
  by (auto simp: insert_booking_def with_booking_def Let_def new_booking_def split: if_splits)

lemma insert_reminder_Inr:
  "insert_reminder bk off fire n u T = Inr (a, T') \<Longrightarrow>
     T' = with_reminders [new_reminder bk off fire u] T"
  by (auto simp: insert_reminder_def with_reminders_def split: if_splits)

lemma with_reminders_append:
  "with_reminders rs (with_reminders rs' t) = with_reminders (rs' @ rs) t"
  by (simp add: with_reminders_def)

lemma with_reminders_Nil [simp]: "with_reminders [] t = t"
  by (simp add: with_reminders_def)

lemma wp_enqueueForBooking:
  assumes "idle T w"
  shows "wp (enqueueForBooking bk start offs c) (\<lambda>_ w'. \<exists>T'. same_core T T' \<and> idle T' w')
    (\<lambda>_ w'. \<exists>T'. same_core T T' \<and> idle T' w') e w"
  unfolding enqueueForBooking_def
proof (rule wp_for_each)
  show "\<exists>T'. same_core T T' \<and> idle T' w" using assms by (intro exI [of _ T]) simp
  fix off and w :: "'a world"
  assume "\<exists>T'. same_core T T' \<and> idle T' w"
  then obtain T1 where T1: "same_core T T1" "idle T1 w" by blast
  have upd: "same_core T (T1\<lparr>reminders := rs\<rparr>)" for rs
    using T1(1) by (auto simp: same_core_def)
  show "wp (enqueue_offset bk start c off) (\<lambda>_ w'. \<exists>T'. same_core T T' \<and> idle T' w')
      (\<lambda>_ w'. \<exists>T'. same_core T T' \<and> idle T' w') e w"
    unfolding enqueue_offset_def Let_def
    apply (intro wp_cases)
     apply (simp, rule wp_query_idle [OF T1(2)])
      apply (auto simp: skip_rows_def upd_reminders_def intro: upd T1)[2]
    apply (simp, rule wp_sel_idle [OF T1(2)])
     apply (intro wp_cases)
      apply (use T1 in \<open>auto intro: wp_queue_call\<close>)
    done
qed

lemma wp_enqueue_after_commit:
  assumes "idle T w"
  shows "wp (enqueue_after_commit slot bk c) (\<lambda>_ w'. \<exists>T'. same_core T T' \<and> idle T' w')
    (\<lambda>_ w'. \<exists>T'. same_core T T' \<and> idle T' w') e w"
  unfolding enqueue_after_commit_def
  apply (simp, rule wp_sel_idle [OF assms])
   apply (intro wp_cases)
    apply (auto intro: same_core_refl)[1]
   apply (simp, rule wp_sel_idle, assumption)
    apply (intro wp_cases)
     apply (rule wp_enqueueForBooking, assumption)
    apply (auto intro: same_core_refl)
  done

lemma wp_insert_future_reminder:
  assumes "in_tx s T w"
    and "\<And>rs w'. in_tx s (with_reminders rs T) w' \<Longrightarrow> leased w' = leased w \<Longrightarrow>
      rs = [] \<and> (\<exists>n. start - off * 60000 \<le> clock_ms e n)
      \<or> (\<exists>u. rs = [new_reminder bk off (start - off * 60000) u]) \<and> (\<exists>n. clock_ms e n < start - off * 60000)
      \<Longrightarrow> Q () w'"
    and "\<And>x w'. committed w' = s \<Longrightarrow> leased w' = leased w \<Longrightarrow> E x w'"
  shows "wp (insert_future_reminder bk start off) Q E e w"
  unfolding insert_future_reminder_def Let_def
  apply simp
  apply (intro conjI impI)
   apply (rule wp_query_in_tx [OF assms(1)])
    apply (drule insert_reminder_Inr)
  subgoal for n u a T' w'
    using assms(2) [of "[new_reminder bk off (start - off * 60000) u]" w'] by auto
   apply (erule (1) assms(3))
  using assms(1) assms(2) [of "[]" w] by (auto simp: not_less)

lemma insert_idem_Inr:
  "truthy (rq_key req) = Some k \<Longrightarrow> insert_idem (rq_client req) k (request_text req) bk n u T = Inr (a, T') \<Longrightarrow>
     T' = with_idem req bk T"
  by (auto simp: insert_idem_def with_idem_def split: if_splits)

lemma wp_record_key:
  assumes "in_tx s T w"
    and "\<And>w'. in_tx s (with_idem req bk T) w' \<Longrightarrow> leased w' = leased w \<Longrightarrow> Q () w'"
    and "\<And>x w'. committed w' = s \<Longrightarrow> leased w' = leased w \<Longrightarrow> E x w'"
  shows "wp (case truthy (rq_key req) of None \<Rightarrow> ret ()
      | Some k \<Rightarrow> query Pool (insert_idem (rq_client req) k (request_text req) bk)) Q E e w"
  apply (intro wp_cases)
   apply (simp, rule assms(2))
    apply (simp add: with_idem_def assms(1))
   apply simp
  apply (rule wp_query_in_tx [OF assms(1)])
   apply (drule (1) insert_idem_Inr)
   apply (auto intro: assms(2,3))
  done

text \<open>The outcome of a booking transaction that started from \<open>T\<close>.\<close>

definition booking_done ::
    "booking_request \<Rightarrow> 'q env \<Rightarrow> int \<Rightarrow> int \<Rightarrow> bool \<Rightarrow> tables \<Rightarrow> booking_row \<Rightarrow> 'q world \<Rightarrow> bool" where
  "booking_done req e c h q T b w \<longleftrightarrow>
     (\<exists>T1 T'. booked req (clock_ms e) c h T b T1 \<and> same_core T1 T' \<and> (\<not> q \<longrightarrow> T' = T1) \<and> idle T' w)"

lemma b_id_new_booking [simp]: "b_id (new_booking slot c tz p et v n u) = u"
  by (simp add: new_booking_def)

lemma booking_doneI:
  "booked req (clock_ms e) c h T b T1 \<Longrightarrow> same_core T1 T' \<Longrightarrow> (\<not> q \<longrightarrow> T' = T1) \<Longrightarrow> idle T' w \<Longrightarrow>
     booking_done req e c h q T b w"
  by (auto simp: booking_done_def)

lemma wp_after_commit:
  assumes "idle T1 w" "booked req (clock_ms e) c h T b T1" "b_id b = v"
    and "\<And>w'. booking_done req e c h q T b w' \<Longrightarrow> Q () w'"
    and "\<And>x w'. booking_done req e c h q T b w' \<Longrightarrow> q \<Longrightarrow> E x w'"
  shows "wp (if q then enqueue_after_commit slot v c else ret ()) Q E e w"
proof (cases q)
  case True
  then have d: "booking_done req e c h q T b w'" if "\<exists>T'. same_core T1 T' \<and> idle T' w'" for w'
    using that assms(2) by (auto simp: booking_done_def)
  have "wp (enqueue_after_commit slot v c) Q E e w"
    by (rule wp_mono [OF wp_enqueue_after_commit [OF assms(1)]])
      (use d assms(4,5) True in \<open>simp_all add: unit_eq\<close>)
  with True show ?thesis by simp
next
  case False
  then have "booking_done req e c h q T b w"
    using assms(1,2) booking_doneI [OF assms(2) same_core_refl] by simp
  then show ?thesis using False assms(4) by simp
qed

lemma bookedI:
  assumes "keys_ok T" "claim_slot (rq_slot req) (\<lambda>st. c \<le> st \<and> c + 3600000 * h \<le> st) n u T = Inr (s # ss, T0)"
    and "v \<notin> b_id ` set (bookings T0)" "live_on (rq_slot req) T0 = []" "rq_client req \<in> c_id ` set (clients T0)"
    and rs1: "rs1 = [] \<and> (\<exists>n. s_start s - 1440 * 60000 \<le> clk n)
      \<or> (\<exists>u. rs1 = [new_reminder v 1440 (s_start s - 1440 * 60000) u]) \<and> (\<exists>n. clk n < s_start s - 1440 * 60000)"
    and rs2: "rs2 = [] \<and> (\<exists>n. s_start s - 60 * 60000 \<le> clk n)
      \<or> (\<exists>u. rs2 = [new_reminder v 60 (s_start s - 60 * 60000) u]) \<and> (\<exists>n. clk n < s_start s - 60 * 60000)"
  shows "booked req clk c h T (new_booking (rq_slot req) (rq_client req) (rq_tz req) (truthy (rq_provider req))
      (truthy (rq_event_type req)) 1 m v)
    (with_idem req v (with_reminders rs2 (with_reminders rs1 (with_booking (new_booking (rq_slot req) (rq_client req)
      (rq_tz req) (truthy (rq_provider req)) (truthy (rq_event_type req)) 1 m v) T0))))"
proof -
  obtain s0 where s0: "s0 \<in> set (slots T)" "s_id s0 = rq_slot req" "s_status s0 = Open"
    "c \<le> s_start s0" "c + 3600000 * h \<le> s_start s0" "s_start s = s_start s0" "T0 = held (rq_slot req) T"
    using claim_slot_Cons [OF assms(1,2)] by blast
  have "reminder_rows_for v (s_start s0) clk (rs1 @ rs2)"
    using rs1 rs2 s0(6) by (auto simp: reminder_rows_for_def new_reminder_def)
  moreover have "clients T0 = clients T" using s0(7) by (simp add: held_def)
  ultimately show ?thesis
    unfolding booked_def using s0 assms(3-5)
    by (intro exI [of _ s0] exI [of _ m] exI [of _ "rs1 @ rs2"])
      (simp add: mult.commute with_reminders_append)
qed

lemma wp_booking_transaction:
  assumes "idle T w" "pool_pins e" "keys_ok T"
  shows "wp (booking_transaction req c (c + 3600000 * h) q)
    (\<lambda>r w'. r = failed 409 ''slot_unavailable'' \<and> committed w' = T
       \<or> (\<exists>b. r = created (b_id b) False \<and> booking_done req e c h q T b w'))
    (\<lambda>x w'. committed w' = T \<or> ((\<exists>n. lands e n) \<or> q) \<and> (\<exists>b. booking_done req e c h q T b w')) e w"
proof -
  have pins: "\<not> no_effect e Pool" using assms(2) by (simp add: no_effect_def)
  show ?thesis
    unfolding booking_transaction_def
    apply simp
    apply (rule wp_begin [OF assms(1) pins])
     apply (rule wp_query_in_tx, assumption)
      apply (intro wp_cases)
       apply (simp, rule wp_rollback)
        apply (simp_all add: in_tx_committed)[2]
      apply (simp del: for_each.simps split del: if_split)
      apply (rule wp_query_in_tx, assumption)
       apply (drule insert_booking_Inr)
       apply (simp split del: if_split)
       apply (rule wp_insert_future_reminder, assumption)
        apply (rule wp_insert_future_reminder, assumption)
         apply (rule wp_record_key, assumption)
          apply (elim conjE)
          apply (simp only: b_id_new_booking)
          apply (frule (5) bookedI [OF assms(3)])
          apply (rule wp_commit, assumption, rule pins)
           apply (rule wp_after_commit, assumption, assumption)
             apply (rule b_id_new_booking)
            apply (rule disjI2, rule exI, rule conjI [rotated], assumption, simp)
           apply blast
          apply (simp add: idle_committed)
          apply (rule disjI2, rule conjI, blast)
          apply (rule exI, rule booking_doneI, assumption, rule same_core_refl, simp, assumption)
         apply (simp_all add: idle_committed)
    done
qed

lemma booking_done_cong: "booking_done req e c h q T b w \<Longrightarrow> (\<And>T'. idle T' w \<Longrightarrow> idle T' w') \<Longrightarrow> booking_done req e c h q T b w'"
  by (auto simp: booking_done_def)

lemma failure_response_status: "res_status (failure_response x) = 400 \<or> res_status (failure_response x) = 409"
  by (simp add: failure_response_def failed_def)

lemma wp_booking_failure:
  assumes "committed w = T \<or> A \<and> (\<exists>b. booking_done req e c h q T b w)"
  shows "wp (booking_failure x) (\<lambda>r w'. res_status r \<noteq> 201
      \<and> (committed w' = T \<or> A \<and> (\<exists>b. booking_done req e c h q T b w'))) E e w"
  using assms
proof (elim disjE conjE exE)
  assume "committed w = T"
  then show ?thesis
    unfolding booking_failure_def using failure_response_status [of x]
    by simp (rule wp_rollback; auto)
next
  fix b
  assume A and b: "booking_done req e c h q T b w"
  then obtain T' where T': "idle T' w" by (auto simp: booking_done_def)
  have "booking_done req e c h q T b w'" if "idle T' w'" for w'
    using booking_done_cong [OF b] that T' by (auto simp: idle_def)
  moreover have "res_status (failure_response x) \<noteq> 201" using failure_response_status [of x] by auto
  ultimately show ?thesis
    unfolding booking_failure_def using \<open>A\<close>
    by simp (rule wp_rollback_idle [OF T']; blast)
qed

text \<open>The notice a booking is held to: the provider's, or 4 hours when it cannot be read.\<close>

definition notice_for :: "booking_request \<Rightarrow> tables \<Rightarrow> int" where
  "notice_for req T =
     (case truthy (case slots_by_id (rq_slot req) T of s # _ \<Rightarrow> Some (s_provider s) | [] \<Rightarrow> truthy (rq_provider req)) of
        None \<Rightarrow> 4 | Some p \<Rightarrow> notice_hours (providers_by_id p T))"

lemma wp_configured_notice:
  assumes "idle T w" "\<And>h w'. idle T w' \<Longrightarrow> h = 4 \<or> h = notice_for req T \<Longrightarrow> Q h w'"
  shows "wp (configured_notice req) Q E e w"
  unfolding configured_notice_def Let_def
  apply simp
  apply (rule wp_sel_idle [OF assms(1)])
   apply (intro wp_cases)
    apply (simp add: assms(2))
   apply (simp, rule wp_sel_idle, assumption)
    apply (rule assms(2), assumption)
    apply (simp add: notice_for_def)
   apply (simp_all add: assms(2))
  done

lemma wp_event_type_check:
  assumes "idle T w" "\<And>w'. idle T w' \<Longrightarrow> Q None w'"
    and "\<And>x w'. idle T w' \<Longrightarrow> res_status x = 400 \<Longrightarrow> Q (Some x) w'"
  shows "wp (event_type_check req) Q E e w"
  unfolding event_type_check_def Let_def
  apply (intro wp_cases)
   apply (simp add: assms(1,2))
  apply (simp, rule wp_sel_idle [OF assms(1)])
   apply (intro wp_cases)
    apply (simp add: assms(3) failed_def)
   apply (simp, rule wp_sel_idle, assumption)
    apply (intro wp_cases)
     apply (simp_all add: assms(2,3) failed_def)
  done

lemma wp_idempotency_check:
  assumes "idle T w" "\<And>w'. idle T w' \<Longrightarrow> Q None w'"
    and "\<And>x w'. idle T w' \<Longrightarrow> res_status x = 422 \<or> res_replay x \<Longrightarrow> Q (Some x) w'"
    and "\<And>x w'. idle T w' \<Longrightarrow> E x w'"
  shows "wp (idempotency_check req) Q E e w"
  unfolding idempotency_check_def
  apply (intro wp_cases)
   apply (simp add: assms(1,2))
  apply (simp, rule wp_sel_idle [OF assms(1)])
   apply (intro wp_cases)
     apply (simp_all add: assms(2-4) failed_def created_def)
  done

text \<open>A response that announces a new booking.\<close>

definition new_booking_response :: "booking_result \<Rightarrow> bool" where
  "new_booking_response r \<longleftrightarrow> res_status r = 201 \<and> \<not> res_replay r"

lemma wp_effective_now:
  "(\<And>c. Q c w) \<Longrightarrow> wp (case nowUtc of Some c \<Rightarrow> ret c | None \<Rightarrow> now) Q E e w"
  by (cases nowUtc) simp_all

text \<open>The outcome of a request on the tables \<open>T\<close>: either the response announces a new booking, which then
  exists, or nothing has changed, unless the acknowledgement of the commit was lost or the
  reminder queue failed after the commit.\<close>

definition booking_outcome ::
    "booking_request \<Rightarrow> 'q env \<Rightarrow> bool \<Rightarrow> tables \<Rightarrow> booking_result \<Rightarrow> 'q world \<Rightarrow> bool" where
  "booking_outcome req e q T r w \<longleftrightarrow>
     (\<exists>c h. (h = 4 \<or> h = notice_for req T) \<and>
       (if new_booking_response r
        then \<exists>b. r = created (b_id b) False \<and> booking_done req e c h q T b w
        else committed w = T \<or> ((\<exists>n. lands e n) \<or> q) \<and> (\<exists>b. booking_done req e c h q T b w)))"

lemma booking_outcome_unchanged:
  "\<not> new_booking_response r \<Longrightarrow> committed w = T \<Longrightarrow> booking_outcome req e q T r w"
  by (auto simp: booking_outcome_def)

lemma booking_outcome_new:
  "h = 4 \<or> h = notice_for req T \<Longrightarrow> r = created (b_id b) False \<Longrightarrow>
     booking_done req e c h q T b w \<Longrightarrow> booking_outcome req e q T r w"
  by (auto simp: booking_outcome_def new_booking_response_def created_def)

lemma booking_outcome_fail:
  "\<not> new_booking_response r \<Longrightarrow> h = 4 \<or> h = notice_for req T \<Longrightarrow>
     committed w = T \<or> ((\<exists>n. lands e n) \<or> q) \<and> (\<exists>b. booking_done req e c h q T b w) \<Longrightarrow>
     booking_outcome req e q T r w"
  by (auto simp: booking_outcome_def)

lemma booking_outcome_transaction:
  "h = 4 \<or> h = notice_for req T \<Longrightarrow>
     r = failed 409 ''slot_unavailable'' \<and> committed w = T
       \<or> (\<exists>b. r = created (b_id b) False \<and> booking_done req e c h q T b w) \<Longrightarrow>
     booking_outcome req e q T r w"
  by (auto simp: new_booking_response_def failed_def created_def
      intro: booking_outcome_unchanged booking_outcome_new)

lemma wp_createBooking:
  assumes "idle T w" "pool_pins e" "keys_ok T"
  shows "wp (createBooking req nowUtc q) (booking_outcome req e q T) (\<lambda>x w'. idle T w') e w"
  unfolding createBooking_def
  apply simp
  apply (rule wp_effective_now)
  apply (rule wp_configured_notice [OF assms(1)])
  apply (rule wp_event_type_check, assumption)
   apply (simp only: option.case)
   apply simp
   apply (rule wp_idempotency_check, assumption)
     apply (simp only: option.case wp_try_catch)
     apply (rule wp_mono [OF wp_booking_transaction [OF _ assms(2,3)]], assumption)
      apply (erule (1) booking_outcome_transaction)
     apply (rule wp_mono [OF wp_booking_failure], assumption)
      apply (elim conjE, rule booking_outcome_fail)
        apply (simp add: new_booking_response_def)
       apply assumption+
    apply (simp only: option.case wp_ret)
    apply (rule booking_outcome_unchanged)
     apply (auto simp: new_booking_response_def idle_committed)[2]
   apply assumption
  apply (simp only: option.case wp_ret)
  apply (rule booking_outcome_unchanged)
   apply (simp_all add: new_booking_response_def idle_committed)
  done

subsection \<open>The service keeps every invariant of the tables\<close>

context table_invariant begin

lemma keeps_insert_future_reminder: "keeps I (insert_future_reminder bk start off)"
  unfolding insert_future_reminder_def Let_def by (intro pres_intros insert_reminder_keeps)

lemma keeps_booking_transaction: "keeps I (booking_transaction req c m q)"
  unfolding booking_transaction_def enqueue_after_commit_def
  by (intro pres_intros stmt_keeps keeps_insert_future_reminder keeps_enqueueForBooking)

lemma keeps_booking_checks:
  "keeps I (configured_notice req)" "keeps I (event_type_check req)" "keeps I (idempotency_check req)"
  unfolding configured_notice_def event_type_check_def idempotency_check_def Let_def
  by (intro pres_intros)+

lemma keeps_createBooking: "keeps I (createBooking req nowUtc q)"
  unfolding createBooking_def booking_failure_def Let_def
  by (intro pres_intros keeps_booking_checks keeps_booking_transaction)

end

lemma consistent_cong:
  "consistent t \<Longrightarrow> slots t' = slots t \<Longrightarrow> bookings t' = bookings t \<Longrightarrow> schema_ok t' \<Longrightarrow> consistent t'"
  by (simp add: consistent_iff live_on_def)

lemma booked_core:
  assumes "booked req clk c h T b T1" "same_core T1 T'"
  shows "\<exists>t. (slots T' = slots (with_booking b (held (rq_slot req) T))
    \<and> bookings T' = bookings (with_booking b (held (rq_slot req) T)))"
  using assms by (auto simp: booked_def same_core_def with_idem_def with_reminders_def split: option.splits)

lemma booked_consistent:
  assumes "booked req clk c h T b T1" "same_core T1 T'" "consistent T" "schema_ok T'"
  shows "consistent T'"
proof -
  obtain s n where s: "s \<in> set (slots T)" "s_id s = rq_slot req" "s_status s = Open"
    "rq_client req \<in> c_id ` set (clients T)" "b_id b \<notin> b_id ` set (bookings T)"
    and b: "b = new_booking (rq_slot req) (rq_client req) (rq_tz req) (truthy (rq_provider req))
      (truthy (rq_event_type req)) 1 n (b_id b)"
    using assms(1) unfolding booked_def by blast
  have fields: "b_slot b = rq_slot req" "b_client b = rq_client req" "live b"
    by (subst b, simp add: new_booking_def live_def)+
  have "consistent (with_booking b (held (b_slot b) T))"
    using s by (intro consistent_book [OF assms(3)]) (simp_all add: fields)
  then show ?thesis
    using booked_core [OF assms(1,2)] assms(4) by (auto simp: fields intro: consistent_cong)
qed

lemma booking_done_consistent:
  "booking_done req e c h q T b w \<Longrightarrow> consistent T \<Longrightarrow> schema_ok (committed w) \<Longrightarrow> consistent (committed w)"
  by (auto simp: booking_done_def idle_committed intro: booked_consistent)

lemma consistent_after_createBooking:
  assumes "idle T w" "pool_pins e" "consistent T"
  shows "consistent (committed (snd (createBooking req nowUtc q e w)))"
proof -
  have T: "keys_ok T" "schema_ok T" using assms(3) by (simp_all add: consistent_def schema_ok_def)
  have ok: "schema_ok (committed (snd (createBooking req nowUtc q e w)))"
    using T(2) assms(1) by (intro schema.keeps_committed schema.keeps_createBooking) (simp_all add: idle_def)
  obtain r w' where run: "createBooking req nowUtc q e w = (r, w')" by fastforce
  show ?thesis
    using wp_createBooking [OF assms(1,2) T(1), of req nowUtc q] ok assms(3)
    by (auto simp: wp_def run booking_outcome_def idle_committed split: sum.splits if_splits
        dest: booking_done_consistent)
qed

subsection \<open>Properties\<close>


definition demo_request :: booking_request where
  "demo_request = \<lparr>rq_provider = None, rq_event_type = None, rq_slot = ''s2'', rq_client = ''c1'',
     rq_key = Some ''k1'', rq_tz = ''UTC''\<rparr>"

lemma demo_keys: "keys_ok demo_tables"
  using demo_schema by (simp add: schema_ok_def)




subsection \<open>Idempotency\<close>

lemma idem_by_key_unique:
  assumes "keys_ok T" "row \<in> set (idempotency T)" "i_client row = c" "i_key row = k"
  shows "idem_by_key c k T = [row]"
proof -
  have d: "distinct (map (\<lambda>i. (i_client i, i_key i)) (idempotency T))" using assms(1) by (simp add: keys_ok_def)
  have f: "idem_by_key c k T = filter (\<lambda>i. (i_client i, i_key i) = (c, k)) (idempotency T)"
    by (simp add: idem_by_key_def)
  have "row \<in> set (idem_by_key c k T)" using assms by (simp add: idem_by_key_def)
  moreover have "length (idem_by_key c k T) \<le> 1" unfolding f by (rule filter_key_unique [OF d])
  ultimately show ?thesis by (cases "idem_by_key c k T") auto
qed

lemma wp_configured_notice_ok:
  assumes "reliable e" "tx w = No_Tx"
    and "\<And>w'. tabs w' = tabs w \<Longrightarrow> tx w' = No_Tx \<Longrightarrow> tick w \<le> tick w' \<Longrightarrow> Q (notice_for req (tabs w)) w'"
  shows "wp (configured_notice req) Q E e w"
  unfolding configured_notice_def Let_def
  apply (simp, rule wp_sel_ok [OF assms(1)])
   apply (simp add: assms(2))
  apply (intro wp_cases)
   apply (use assms(3) in \<open>simp add: assms(2) notice_for_def\<close>)
  apply (simp, rule wp_sel_ok [OF assms(1)])
   apply (simp add: assms(2))
  apply (use assms(3) in \<open>simp add: assms(2) notice_for_def\<close>)
  done

lemma wp_createBooking_known_key:
  assumes "reliable e" "idle T w" "keys_ok T" "truthy (rq_event_type req) = None" "truthy (rq_key req) = Some k"
    and "row \<in> set (idempotency T)" "i_client row = rq_client req" "i_key row = k"
  shows "wp (createBooking req nowUtc q) (\<lambda>r w'. idle T w'
      \<and> r = (if i_hash row = request_text req then created (i_booking row) True
             else failed 422 ''idempotency_key_reuse'')) (\<lambda>_ _. False) e w"
  unfolding createBooking_def event_type_check_def idempotency_check_def
  using idem_by_key_unique [OF assms(3,6,7,8)] assms(2)
  apply (simp add: assms(4,5) split del: if_split)
  apply (rule wp_effective_now)
  apply (rule wp_configured_notice_ok [OF assms(1)])
   apply (simp add: idle_def)
  apply (rule wp_sel_ok [OF assms(1)])
   apply (simp_all add: idle_def)
  done

lemma truthy_ne: "truthy x = Some k \<Longrightarrow> k \<noteq> []"
  by (simp add: truthy_eq_Some)

lemma booked_key:
  assumes "booked req clk c h T b T1" "truthy (rq_key req) = Some k"
  shows "\<exists>row \<in> set (idempotency T1). i_client row = rq_client req \<and> i_key row = k
    \<and> i_hash row = request_text req \<and> i_booking row = b_id b"
  using assms by (auto simp: booked_def with_idem_def)

lemma request_text_fields:
  assumes "request_text req = request_text req'"
  shows "rq_provider req = rq_provider req' \<and> rq_slot req = rq_slot req' \<and> rq_client req = rq_client req'
    \<and> rq_event_type req = rq_event_type req' \<and> rq_key req = rq_key req' \<and> rq_tz req = rq_tz req'"
  using stringify_inj [OF assms [unfolded request_text_def]]
  by (cases "rq_provider req"; cases "rq_provider req'"; cases "rq_event_type req"; cases "rq_event_type req'";
      cases "rq_key req"; cases "rq_key req'") simp_all


subsection \<open>A bookable slot is booked\<close>

definition bookable :: "booking_request \<Rightarrow> int \<Rightarrow> tables \<Rightarrow> bool" where
  "bookable req c T \<longleftrightarrow>
     (\<exists>s \<in> set (slots T). s_id s = rq_slot req \<and> s_status s = Open \<and> c \<le> s_start s
        \<and> c + notice_for req T * 3600000 \<le> s_start s)
     \<and> live_on (rq_slot req) T = [] \<and> rq_client req \<in> c_id ` set (clients T)
     \<and> truthy (rq_event_type req) = None \<and> truthy (rq_provider req) = None
     \<and> (\<forall>k. truthy (rq_key req) = Some k \<longrightarrow> idem_by_key (rq_client req) k T = [])"

text \<open>The identifiers the database draws are new.\<close>

definition fresh_ids :: "'q env \<Rightarrow> tables \<Rightarrow> bool" where
  "fresh_ids e T \<longleftrightarrow> inj (fresh e) \<and> (\<forall>n. fresh e n \<notin> b_id ` set (bookings T) \<and> fresh e n \<notin> r_id ` set (reminders T))"

lemma claim_slot_hit:
  assumes "s \<in> set (slots T)" "s_id s = i" "s_status s = Open" "ok (s_start s)" "keys_ok T"
  shows "\<exists>s' ss. claim_slot i ok n u T = Inr (s' # ss, held i T) \<and> s_start s' = s_start s"
proof -
  obtain s' ss T1 where c: "claim_slot i ok n u T = Inr (s' # ss, T1)"
    using assms(1-4) by (cases "filter (\<lambda>s. s_id s = i \<and> s_status s = Open \<and> ok (s_start s)) (slots T)")
      (auto simp: claim_slot_def Let_def filter_empty_conv)
  from claim_slot_Cons [OF assms(5) c] obtain s0 where "s0 \<in> set (slots T)" "s_id s0 = i"
    "s_start s' = s_start s0" "T1 = held i T" by blast
  moreover have "s0 = s"
    using calculation(1,2) assms(1,2,5) by (metis distinct_map_eqD keys_ok_def)
  ultimately show ?thesis using c by blast
qed

lemma wp_insert_future_reminder_ok:
  assumes "reliable e" "tx w = In_Tx Pool s False"
    and "bk \<in> b_id ` set (bookings (tabs w))" "fresh e (tick w) \<notin> r_id ` set (reminders (tabs w))"
    and "\<forall>r \<in> set (reminders (tabs w)). r_booking r = bk \<longrightarrow> r_offset r \<noteq> off"
    and "\<And>w' rs. tabs w' = with_reminders rs (tabs w) \<Longrightarrow> tx w' = In_Tx Pool s False \<Longrightarrow> tick w \<le> tick w' \<Longrightarrow>
      (rs = [] \<or> rs = [new_reminder bk off (start - off * 60000) (fresh e (tick w))] \<and> tick w < tick w')
      \<Longrightarrow> Q () w'"
  shows "wp (insert_future_reminder bk start off) Q E e w"
  unfolding insert_future_reminder_def Let_def
  apply simp
  apply (intro conjI impI)
   apply (rule wp_query_ok [OF assms(1), where T' = "with_reminders [new_reminder bk off (start - off * 60000)
       (fresh e (tick w))] (tabs w)" and a = "()"])
     apply (simp add: assms(2))
    apply (use assms(3-5) in \<open>force simp: insert_reminder_def with_reminders_def\<close>)
   apply (rule assms(6), assumption)
     apply (simp_all add: assms(2))
  apply (rule assms(6) [of _ "[]"])
     apply (simp_all add: assms(2))
  done

lemma wp_booking_transaction_ok:
  assumes "reliable e" "pool_pins e" "idle T w" "schema_ok T" "fresh_ids e T" "bookable req c T"
  shows "wp (booking_transaction req c (c + 3600000 * notice_for req T) False)
    (\<lambda>r _. new_booking_response r) (\<lambda>_ _. False) e w"
proof -
  have pins: "\<not> no_effect e Pool" using assms(2) by (simp add: no_effect_def)
  have keys: "keys_ok T" using assms(4) by (simp add: schema_ok_def)
  obtain s where s: "s \<in> set (slots T)" "s_id s = rq_slot req" "s_status s = Open" "c \<le> s_start s"
      "c + 3600000 * notice_for req T \<le> s_start s" "live_on (rq_slot req) T = []"
      "rq_client req \<in> c_id ` set (clients T)" "truthy (rq_provider req) = None"
    using assms(6) by (auto simp: bookable_def mult.commute)
  have ids: "fresh e n \<notin> b_id ` set (bookings T)" "fresh e n \<notin> r_id ` set (reminders T)"
    "fresh e n = fresh e m \<longleftrightarrow> n = m" for n m
    using assms(5) by (auto simp: fresh_ids_def inj_def)
  have norem: "r \<in> set (reminders T) \<Longrightarrow> r_booking r \<noteq> fresh e n" for r n
    using assms(4) ids(1) [of n] by (metis refs_ok_def schema_ok_def)
  have nid: "r \<in> set (reminders T) \<Longrightarrow> fresh e n \<noteq> r_id r" for r n
    using ids(2) [of n] by auto
  define hit where "hit = (\<lambda>st. c \<le> st \<and> c + 3600000 * notice_for req T \<le> st)"
  have claim: "\<exists>s' ss. claim_slot (rq_slot req) hit n u T = Inr (s' # ss, held (rq_slot req) T)" for n u
    using claim_slot_hit [of s T "rq_slot req" hit n u] s keys by (auto simp: hit_def)
  define B where "B = (\<lambda>n u. new_booking (rq_slot req) (rq_client req) (rq_tz req) None
      (truthy (rq_event_type req)) 1 n u)"
  have slot_in: "rq_slot req \<in> s_id ` set (slots T)" using s(1,2) by (metis imageI)
  have ins: "insert_booking (rq_slot req) (rq_client req) (rq_tz req) None (truthy (rq_event_type req)) 1 n
      (fresh e m) (held (rq_slot req) T) = Inr (B n (fresh e m), with_booking (B n (fresh e m)) (held (rq_slot req) T))" for n m
    using slot_in s(6,7) ids(1) by (simp add: insert_booking_def B_def with_booking_def Let_def)
  have key: "truthy (rq_key req) = Some k \<Longrightarrow> idempotency T' = idempotency T \<Longrightarrow> clients T' = clients T \<Longrightarrow>
      insert_idem (rq_client req) k h bk n u T' = Inr ((), T'\<lparr>idempotency := idempotency T @
        [\<lparr>i_client = rq_client req, i_key = k, i_hash = h, i_status = 201, i_booking = bk\<rparr>]\<rparr>)" for k T' h bk n u
  proof -
    assume k: "truthy (rq_key req) = Some k" and T': "idempotency T' = idempotency T" "clients T' = clients T"
    have "idem_by_key (rq_client req) k T = []" using assms(6) k by (simp add: bookable_def)
    then have "(rq_client req, k) \<notin> (\<lambda>i. (i_client i, i_key i)) ` set (idempotency T')"
      using T' by (auto simp: idem_by_key_def filter_empty_conv)
    then show ?thesis using T' s(7) by (simp add: insert_idem_def)
  qed
  have done_ok: "wp (andthen (commit_tx Pool) (andthen (if False then enqueue_after_commit (rq_slot req) v c else ret ())
      (ret (created v False)))) (\<lambda>r _. new_booking_response r) (\<lambda>_ _. False) e w'"
    if "tx w' = In_Tx Pool T False" for w' v
    by (simp, rule wp_commit_ok [OF assms(1) that pins]) (simp add: new_booking_response_def created_def)
  show ?thesis
    unfolding booking_transaction_def hit_def [symmetric] s(8)
    using assms(3)
    apply (simp split del: if_split del: if_False)
    apply (rule wp_begin_ok [OF assms(1) _ pins])
     apply (simp add: idle_def)
    subgoal for w1
      using claim [of "clock_ms e (tick w1)" "fresh e (tick w1)"]
      apply (elim exE)
      apply (rule wp_query_ok [OF assms(1)])
        apply simp
       apply (simp add: idle_def)
      apply (simp split del: if_split del: if_False)
      apply (rule wp_query_ok [OF assms(1)])
        apply simp
       apply (simp add: ins)
      apply (simp add: B_def split del: if_split del: if_False)
      apply (rule wp_insert_future_reminder_ok [OF assms(1)])
          apply simp
         apply simp
        apply (simp add: with_booking_def held_def ids)
       apply (use norem in \<open>simp add: with_booking_def held_def\<close>)
      apply (rule wp_insert_future_reminder_ok [OF assms(1)])
          apply assumption
         apply (simp add: with_reminders_def B_def)
        subgoal by (auto simp: with_reminders_def ids new_reminder_def dest: nid)
       subgoal by (auto simp: with_reminders_def new_reminder_def dest: norem)
      apply (intro wp_cases)
       apply (simp, rule wp_commit_ok [OF assms(1) _ pins], assumption)
       apply (simp add: new_booking_response_def created_def)
      apply (rule wp_query_ok [OF assms(1)])
        apply simp
       apply (rule key, assumption)
        apply (simp_all add: with_reminders_def)[2]
      apply (simp, rule wp_commit_ok [OF assms(1) _ pins], simp)
      apply (simp add: new_booking_response_def created_def)
      done
    done
qed

lemma bookable_no_idem:
  "bookable req c T \<Longrightarrow> truthy (rq_key req) = Some k \<Longrightarrow> idem_by_key (rq_client req) k T = []"
  by (simp add: bookable_def)

lemma bookable_no_event: "bookable req c T \<Longrightarrow> truthy (rq_event_type req) = None"
  by (simp add: bookable_def)

lemma wp_idempotency_check_ok:
  assumes "reliable e" "tx w = No_Tx" "\<And>k. truthy (rq_key req) = Some k \<Longrightarrow> idem_by_key (rq_client req) k (tabs w) = []"
    and "\<And>w'. tabs w' = tabs w \<Longrightarrow> tx w' = No_Tx \<Longrightarrow> Q None w'"
  shows "wp (idempotency_check req) Q E e w"
  unfolding idempotency_check_def
  apply (intro wp_cases)
   apply (simp add: assms(2,4))
  apply (simp, rule wp_sel_ok [OF assms(1)])
   apply (simp_all add: assms(2,3,4))
  done

lemma createBooking_runs:
  assumes "reliable e" "pool_pins e" "idle T w" "schema_ok T" "fresh_ids e T" "bookable req c T"
  shows "\<exists>r w'. createBooking req (Some c) False e w = (Inr r, w') \<and> new_booking_response r"
proof (rule wp_returns)
  have T: "tx w = No_Tx" "tabs w = T" using assms(3) by (auto simp: idle_def)
  show "wp (createBooking req (Some c) False) (\<lambda>r _. new_booking_response r) (\<lambda>_ _. False) e w"
    unfolding createBooking_def event_type_check_def
    apply (simp add: bookable_no_event [OF assms(6)])
    apply (rule wp_configured_notice_ok [OF assms(1) T(1)])
    apply (rule wp_idempotency_check_ok [OF assms(1)])
      apply assumption
     apply (simp add: T bookable_no_idem [OF assms(6)])
    apply (simp only: option.case wp_try_catch T(2))
    apply (rule wp_mono [OF wp_booking_transaction_ok [OF assms(1,2) _ assms(4-6)]])
      apply (simp_all add: idle_def)
    done
qed


lemma demo_request_key: "truthy (rq_key demo_request) = Some ''k1''" "truthy (rq_event_type demo_request) = None"
  by (simp_all add: demo_request_def)

lemma demo_bookable: "bookable demo_request 1793000000000 demo_tables"
  by (simp add: bookable_def demo_request_def demo_tables_def notice_for_def slots_by_id_def
      providers_by_id_def notice_hours_def live_on_def idem_by_key_def)

lemma demo_fresh: "fresh_ids demo_env demo_tables"
  by (auto simp: fresh_ids_def demo_env_def demo_tables_def inj_def dest: arg_cong [of _ _ length])

lemma demo_pins: "pool_pins demo_env"
  by (simp add: demo_env_def)



text \<open>The queue manager and its database in which adding a job fails.\<close>

definition broken_queue_env :: "unit env" where
  "broken_queue_env = demo_env\<lparr>queue_add := \<lambda>_ _ _ _. Inl (Js_Error ''Connection is closed.'')\<rparr>"

text \<open>The enqueueing after the commit is inside the same \<open>try\<close>: when the queue is down the client gets a
  400 although the booking is committed and its slot is taken.\<close>

theorem createBooking_fails_after_commit:
  "case createBooking demo_request (Some 1793000000000) True broken_queue_env demo_world of (r, w') \<Rightarrow>
     r = Inr (failed 400 ''Connection is closed.'')
     \<and> (\<exists>b \<in> set (bookings (committed w')). b_slot b = ''s2'' \<and> b_status b = Booked)"
  by code_simp

end
