(* ===== verification/Quiet.thy ===== *)
theory Quiet
  imports Reminder_Queue
begin

text \<open>
  Programs that leave the slots and the bookings alone, whatever fails: the reminder queue manager,
  notifications, activities and everything else the booking services do beside the booking itself.
\<close>

named_theorems quiet_intros \<open>introduction rules: a program leaves slots and bookings alone\<close>

subsection \<open>Statements\<close>

definition same_booking_tables :: "tables \<Rightarrow> tables \<Rightarrow> bool" where
  "same_booking_tables t t' \<longleftrightarrow> slots t' = slots t \<and> bookings t' = bookings t"

lemma same_booking_tables_refl [simp]: "same_booking_tables t t"
  and same_booking_tables_trans:
    "same_booking_tables t t' \<Longrightarrow> same_booking_tables t' t'' \<Longrightarrow> same_booking_tables t t''"
  by (simp_all add: same_booking_tables_def)

definition quiet :: "'a stmt \<Rightarrow> bool" where
  "quiet st \<longleftrightarrow> (\<forall>n u t a t'. st n u t = Inr (a, t') \<longrightarrow> same_booking_tables t t')"

lemma quiet_stmts:
  "quiet (sel f)" "quiet (insert_reminder bk off fire)" "quiet (insert_idem c k h bk)"
  "quiet (cancel_reminders bk p)" "quiet (upd_reminders q g)" "quiet (insert_note ty p' c' bk' t' m')"
  "quiet (insert_activity act p' c' bk')"
  by (auto simp: quiet_def same_booking_tables_def sel_def insert_reminder_def insert_idem_def
      cancel_reminders_def upd_reminders_def insert_note_def insert_activity_def split: if_splits)

text \<open>A transaction that has reached tables with the slots and bookings of \<open>T1\<close>, and an idle world with them.\<close>

definition near_tx :: "tables \<Rightarrow> tables \<Rightarrow> 'q world \<Rightarrow> bool" where
  "near_tx s T1 w \<longleftrightarrow> (\<exists>T'. same_booking_tables T1 T' \<and> in_tx s T' w)"

definition near_idle :: "tables \<Rightarrow> 'q world \<Rightarrow> bool" where
  "near_idle T1 w \<longleftrightarrow> (\<exists>T'. same_booking_tables T1 T' \<and> idle T' w)"

lemma near_txI: "in_tx s T' w \<Longrightarrow> same_booking_tables T1 T' \<Longrightarrow> near_tx s T1 w"
  and near_idleI: "idle T' w \<Longrightarrow> same_booking_tables T1 T' \<Longrightarrow> near_idle T1 w"
  by (auto simp: near_tx_def near_idle_def)

lemma near_txE: "near_tx s T1 w \<Longrightarrow> (\<And>T'. in_tx s T' w \<Longrightarrow> same_booking_tables T1 T' \<Longrightarrow> P) \<Longrightarrow> P"
  and near_idleE: "near_idle T1 w \<Longrightarrow> (\<And>T'. idle T' w \<Longrightarrow> same_booking_tables T1 T' \<Longrightarrow> P) \<Longrightarrow> P"
  by (auto simp: near_tx_def near_idle_def)

lemma quietD:
  "quiet st \<Longrightarrow> st n u t = Inr (a, t') \<Longrightarrow> same_booking_tables T1 t \<Longrightarrow> same_booking_tables T1 t'"
  by (auto simp: quiet_def same_booking_tables_def)

lemma wp_quiet_tx:
  assumes "near_tx s T1 w" "quiet st"
    and "\<And>a w'. near_tx s T1 w' \<Longrightarrow> Q a w'" "\<And>x w'. committed w' = s \<Longrightarrow> E x w'"
  shows "wp (query ch st) Q E e w"
  using assms(1)
  by (rule near_txE, intro wp_query_in_tx) (assumption, blast intro: assms(3) near_txI quietD [OF assms(2)], rule assms(4))

lemma wp_quiet_idle:
  assumes "near_idle T1 w" "quiet st"
    and "\<And>a w'. near_idle T1 w' \<Longrightarrow> Q a w'" "\<And>x w'. near_idle T1 w' \<Longrightarrow> E x w'"
  shows "wp (query ch st) Q E e w"
  using assms(1)
  by (rule near_idleE, intro wp_query_idle)
    (assumption, blast intro: assms(3) near_idleI quietD [OF assms(2)], blast intro: assms(4) near_idleI)

lemma wp_queue_call_near:
  assumes "near_idle T1 w" "\<And>a w'. near_idle T1 w' \<Longrightarrow> Q a w'" "\<And>x w'. near_idle T1 w' \<Longrightarrow> E x w'"
  shows "wp (queue_call f) Q E e w"
  using assms(1) by (rule near_idleE, intro wp_queue_call) (assumption, (blast intro: assms(2,3) near_idleI)+)

lemma wp_queue_ask_near:
  assumes "near_idle T1 w" "\<And>a w'. near_idle T1 w' \<Longrightarrow> Q a w'" "\<And>x w'. near_idle T1 w' \<Longrightarrow> E x w'"
  shows "wp (queue_ask f) Q E e w"
  using assms(1) by (rule near_idleE, intro wp_queue_ask) (assumption, (blast intro: assms(2,3) near_idleI)+)

lemma near_tx_committed: "near_tx s T1 w \<Longrightarrow> committed w = s"
  by (auto simp: near_tx_def in_tx_committed)

lemma wp_commit_near:
  assumes "near_tx s T1 w" "\<not> no_effect e ch"
    and "\<And>w'. near_idle T1 w' \<Longrightarrow> Q () w'" "\<And>x w'. committed w' = s \<Longrightarrow> E x w'"
    and "\<And>x w'. near_idle T1 w' \<Longrightarrow> E x w'"
  shows "wp (commit_tx ch) Q E e w"
  using assms(1)
  by (rule near_txE, intro wp_commit [OF _ assms(2)])
    (assumption, blast intro: assms(3) near_idleI, blast intro: assms(4) idle_committed, blast intro: assms(5) near_idleI)

lemma no_effect_Client [simp]: "\<not> no_effect e (Client c)"
  by (simp add: no_effect_def)

lemma near_idle_leased [simp]: "near_idle T1 (w\<lparr>leased := l\<rparr>) = near_idle T1 w"
  by (simp add: near_idle_def)

lemma wp_connect:
  "idle T w \<Longrightarrow> (\<And>c w'. idle T w' \<Longrightarrow> Q c w') \<Longrightarrow> (\<And>x w'. idle T w' \<Longrightarrow> E x w') \<Longrightarrow> wp connect Q E e w"
  by (auto simp: wp_def connect_def split: option.split)

lemma wp_release_leased:
  assumes "\<And>l. Q () (w\<lparr>leased := l\<rparr>)" "\<And>x. E x w"
  shows "wp (release c) Q E e w"
  using assms(1) [of "leased w"] assms(1) [of "removeAll c (leased w)"] assms(2)
  by (auto simp: wp_def release_def split: option.split)

subsection \<open>Programs\<close>

definition undisturbing :: "('q, 'a) prog \<Rightarrow> bool" where
  "undisturbing m \<longleftrightarrow> (\<forall>T1 e w. near_idle T1 w \<longrightarrow> wp m (\<lambda>_. near_idle T1) (\<lambda>_. near_idle T1) e w)"

lemma undisturbingI:
  "(\<And>T1 e w. near_idle T1 w \<Longrightarrow> wp m (\<lambda>_. near_idle T1) (\<lambda>_. near_idle T1) e w) \<Longrightarrow> undisturbing m"
  by (simp add: undisturbing_def)

lemma undisturbingD:
  "undisturbing m \<Longrightarrow> near_idle T1 w \<Longrightarrow> (\<And>a w'. near_idle T1 w' \<Longrightarrow> Q a w') \<Longrightarrow>
     (\<And>x w'. near_idle T1 w' \<Longrightarrow> E x w') \<Longrightarrow> wp m Q E e w"
  by (rule wp_mono [of m "\<lambda>_. near_idle T1" "\<lambda>_. near_idle T1"]) (simp_all add: undisturbing_def)

lemma undisturbing_wp:
  "undisturbing m \<Longrightarrow> near_idle T1 w \<Longrightarrow> wp m (\<lambda>_. near_idle T1) (\<lambda>_. near_idle T1) e w"
  by (simp add: undisturbing_def)

lemma undisturbing_basic [quiet_intros]:
  "undisturbing (ret a)" "undisturbing (raise x)" "undisturbing now" "undisturbing (ask f)"
  by (simp_all add: undisturbing_def)

lemma undisturbing_bind [quiet_intros]:
  "undisturbing m \<Longrightarrow> (\<And>a. undisturbing (f a)) \<Longrightarrow> undisturbing (bind m f)"
  by (rule undisturbingI, simp, erule (1) undisturbingD) (assumption | rule undisturbing_wp)+

lemma undisturbing_andthen [quiet_intros]:
  "undisturbing m \<Longrightarrow> undisturbing n \<Longrightarrow> undisturbing (andthen m n)"
  unfolding andthen_def by (intro quiet_intros)

lemma undisturbing_try_catch [quiet_intros]:
  "undisturbing m \<Longrightarrow> (\<And>x. undisturbing (h x)) \<Longrightarrow> undisturbing (try_catch m h)"
  by (rule undisturbingI, simp, erule (1) undisturbingD) (assumption | rule undisturbing_wp)+

lemma undisturbing_swallow [quiet_intros]: "undisturbing m \<Longrightarrow> undisturbing (swallow m)"
  unfolding swallow_def by (intro quiet_intros)

lemma undisturbing_unless_fails [quiet_intros]: "undisturbing m \<Longrightarrow> undisturbing (unless_fails d m)"
  unfolding unless_fails_def by (intro quiet_intros)

lemma undisturbing_for_each [quiet_intros]:
  "(\<And>x. undisturbing (f x)) \<Longrightarrow> undisturbing (for_each xs f)"
  by (induction xs) (auto intro: quiet_intros)

lemma undisturbing_cases [quiet_intros]:
  "undisturbing m \<Longrightarrow> undisturbing n \<Longrightarrow> undisturbing (if b then m else n)"
  "undisturbing m \<Longrightarrow> (\<And>x xs. undisturbing (f x xs)) \<Longrightarrow> undisturbing (case l of [] \<Rightarrow> m | x # xs \<Rightarrow> f x xs)"
  "undisturbing m \<Longrightarrow> (\<And>x. undisturbing (g x)) \<Longrightarrow> undisturbing (case z of None \<Rightarrow> m | Some x \<Rightarrow> g x)"
  "(\<And>y z. undisturbing (h y z)) \<Longrightarrow> undisturbing (case p of (y, z) \<Rightarrow> h y z)"
  by (auto split: list.split option.split prod.split)

lemma undisturbing_query [quiet_intros]: "quiet st \<Longrightarrow> undisturbing (query ch st)"
  by (rule undisturbingI) (rule wp_quiet_idle)

lemma undisturbing_queue [quiet_intros]:
  "undisturbing (queue_call g)" "undisturbing (queue_ask k)"
  by (rule undisturbingI, rule wp_queue_call_near wp_queue_ask_near, assumption+)+

lemma undisturbing_release [quiet_intros]: "undisturbing (release c)"
  by (auto simp: undisturbing_def near_idle_def wp_def release_def split: option.split)

lemmas [quiet_intros] = quiet_stmts

lemma undisturbing_manager [quiet_intros]:
  "undisturbing (enqueueForBooking bk start offs c)" "undisturbing (cancelForBooking bk)"
  unfolding enqueueForBooking_def enqueue_offset_def cancelForBooking_def remove_job_def Let_def skip_rows_def
  by (intro quiet_intros)+

text \<open>What a commit has established outlasts them.\<close>

lemma undisturbing_committed:
  assumes "undisturbing m" "idle T w"
  shows "same_booking_tables T (committed (snd (m e w)))"
proof -
  have "wp m (\<lambda>_. near_idle T) (\<lambda>_. near_idle T) e w"
    using assms by (blast intro: undisturbing_wp near_idleI same_booking_tables_refl)
  then show ?thesis
    by (auto simp: wp_def near_idle_def idle_committed split: prod.splits sum.splits)
qed

end
