(* ===== verification/Reschedule.thy ===== *)
theory Reschedule
  imports Booking_Service Lifecycle Quiet
begin

text \<open>
  \<^verbatim>\<open>apps/api/src/bookings/reschedule.service.ts\<close> and its older duplicate
  \<^verbatim>\<open>packages/contracts/src/reschedule.ts\<close>: moving a booking to another slot. The first works on two
  connections it checks out of the pool, the second on the pool itself.
\<close>

subsection \<open>Requests and results\<close>

record reschedule_request =
  rr_booking :: string
  rr_new_slot :: string
  rr_key :: "string option"
  rr_version :: int
  rr_if_match :: int
  rr_window :: "int option"

definition json_number :: "string \<Rightarrow> int \<Rightarrow> string" where
  "json_number k v = json_string k @ CHR '':'' # int_text v"

text \<open>\<open>JSON.stringify(req)\<close>.\<close>

definition reschedule_text :: "reschedule_request \<Rightarrow> string" where
  "reschedule_text req = CHR ''{'' # join_commas
     (json_fields [(''bookingId'', Some (rr_booking req)), (''newSlotId'', Some (rr_new_slot req)),
        (''idempotencyKey'', rr_key req)]
      @ [json_number ''version'' (rr_version req), json_number ''ifMatch'' (rr_if_match req)]
      @ (case rr_window req of None \<Rightarrow> [] | Some h \<Rightarrow> [json_number ''cancellationWindowHours'' h])) @ ''}''"

definition window_hours :: "reschedule_request \<Rightarrow> int" where
  "window_hours req = (case rr_window req of None \<Rightarrow> 24 | Some h \<Rightarrow> h)"

subsection \<open>Statements\<close>

text \<open>\<open>UPDATE bookings SET status = 'cancelled', cancelled_at = now() WHERE id = $1\<close>.\<close>

definition cancel_booking :: "string \<Rightarrow> unit stmt" where
  "cancel_booking i = set_booking i ''cancelled'' (\<lambda>n b. b\<lparr>b_cancelled_at := Some n\<rparr>)"

text \<open>
  \<open>subtractElapsed(slot_start_utc, off)\<close> on a column value: the driver hands \<open>timestamptz\<close> columns out as
  \<open>Date\<close> objects (\<open>driver_dates\<close>), and \<open>Temporal.Instant.from\<close> takes texts only.
\<close>

definition elapsed_before :: "int \<Rightarrow> int \<Rightarrow> ('q, int) prog" where
  "elapsed_before start off =
     bind (ask driver_dates) (\<lambda>dates.
       if dates then bind (ask range_text) (\<lambda>m. raise (Js_Error m))
       else ret (subtractElapsed start off))"

definition insert_reminder_if_future ::
    "chan \<Rightarrow> string \<Rightarrow> int \<Rightarrow> int \<Rightarrow> int \<Rightarrow> ('q, unit) prog" where
  "insert_reminder_if_future ch bk start nowMs off =
     bind (elapsed_before start off) (\<lambda>fire.
       if nowMs < fire then query ch (insert_reminder bk off fire) else ret ())"

definition record_reschedule_key ::
    "chan \<Rightarrow> reschedule_request \<Rightarrow> string \<Rightarrow> string \<Rightarrow> ('q, unit) prog" where
  "record_reschedule_key ch req client bk =
     (case truthy (rr_key req) of None \<Rightarrow> ret ()
      | Some k \<Rightarrow> query ch (insert_idem client k (reschedule_text req) bk))"

text \<open>The window test on the source slot, \<open>effectiveNow\<close> standing in for a missing slot.\<close>

definition window_expired :: "reschedule_request \<Rightarrow> slot_row list \<Rightarrow> int \<Rightarrow> bool" where
  "window_expired req slotRes nowMs =
     (let startMs = (case slotRes of [] \<Rightarrow> nowMs | s # _ \<Rightarrow> s_start s);
          windowMs = window_hours req * 60 * 60 * 1000
      in startMs - windowMs < nowMs)"

subsection \<open>The service\<close>

definition refuse :: "chan \<Rightarrow> int \<Rightarrow> string \<Rightarrow> ('q, booking_result) prog" where
  "refuse ch st err = andthen (rollback_tx ch) (ret (failed st err))"

text \<open>The version and status guards, in their order; \<open>None\<close> when the booking may be moved.\<close>

definition reschedule_guard :: "reschedule_request \<Rightarrow> booking_row \<Rightarrow> (int \<times> string) option" where
  "reschedule_guard req b =
     (if b_version b \<noteq> rr_version req \<or> rr_if_match req \<noteq> b_version b then Some (412, ''version_mismatch'')
      else if b_status b \<noteq> Booked then Some (409, ''invalid_transition'') else None)"

definition reschedule_writes ::
    "chan \<Rightarrow> reschedule_request \<Rightarrow> booking_row \<Rightarrow> string \<Rightarrow> int \<Rightarrow> slot_row \<Rightarrow> ('q, string) prog" where
  "reschedule_writes ch req b tz nowMs s =
     andthen (query ch (cancel_booking (rr_booking req))) (
     andthen (query ch (set_slot_open (b_slot b))) (
     bind (query ch (insert_booking (rr_new_slot req) (b_client b) tz None None (b_version b + 1))) (\<lambda>nb.
     andthen (query ch (cancel_reminders (rr_booking req) (\<lambda>_. True))) (
     andthen (for_each [1440, 60] (insert_reminder_if_future ch (b_id nb) (s_start s) nowMs)) (
     andthen (record_reschedule_key ch req (b_client b) (b_id nb)) (
     andthen (commit_tx ch) (ret (b_id nb))))))))"

definition reschedule_events :: "reschedule_request \<Rightarrow> booking_row \<Rightarrow> string \<Rightarrow> slot_row \<Rightarrow> ('q, unit) prog" where
  "reschedule_events req b nb s = swallow (
     andthen (query prisma (insert_activity ''BOOKING_RESCHEDULED'' (Some (s_provider s)) (Some (b_client b)) (Some nb)))
       (query prisma (insert_note ''BOOKING_RESCHEDULED'' (Some (s_provider s)) (Some (b_client b)) (Some nb)
          ''Booking rescheduled'' ''Your appointment has been moved.'')))"

definition reschedule_enqueue :: "reschedule_request \<Rightarrow> string \<Rightarrow> ('q, unit) prog" where
  "reschedule_enqueue req nb = swallow (
     bind (query Pool (sel (slots_by_id (rr_new_slot req)))) (\<lambda>ns. case ns of [] \<Rightarrow> ret ()
     | s # _ \<Rightarrow> bind (query Pool (sel (\<lambda>t. map r_offset (filter (\<lambda>r. r_booking r = nb \<and> r_status r = Scheduled)
                   (reminders t))))) (\<lambda>offsets.
         if offsets \<noteq> [] then bind now (enqueueForBooking nb (s_start s) offsets) else ret ())))"

definition reschedule_transaction ::
    "nat \<Rightarrow> reschedule_request \<Rightarrow> int \<Rightarrow> bool \<Rightarrow> ('q, booking_result) prog" where
  "reschedule_transaction c req nowMs reminderQueue = (let ch = Client c in
     andthen (begin_tx ch) (
     bind (query ch (sel (bookings_by_id (rr_booking req)))) (\<lambda>lockRes. case lockRes of
       [] \<Rightarrow> refuse ch 404 ''not_found''
     | b # _ \<Rightarrow> (case reschedule_guard req b of Some (st, err) \<Rightarrow> refuse ch st err
       | None \<Rightarrow>
         bind (query ch (claim_slot (rr_new_slot req) (\<lambda>st. nowMs < st))) (\<lambda>newSlotRes. case newSlotRes of
           [] \<Rightarrow> refuse ch 409 ''slot_unavailable''
         | s # _ \<Rightarrow>
           bind (reschedule_writes ch req b (or_else (Some (b_tz b)) ''UTC'') nowMs s) (\<lambda>nb.
           andthen (if reminderQueue then swallow (cancelForBooking (rr_booking req)) else ret ()) (
           andthen (reschedule_events req b nb s) (
           andthen (if reminderQueue then reschedule_enqueue req nb else ret ()) (
           ret (created nb False)))))))))) "

definition reschedule_failure :: "chan \<Rightarrow> exn \<Rightarrow> ('q, booking_result) prog" where
  "reschedule_failure ch x = andthen (swallow (rollback_tx ch)) (ret (failure_response x))"

text \<open>The first transaction, which reads and checks the booking and lets it go again.\<close>

definition release_and_refuse :: "nat \<Rightarrow> int \<Rightarrow> string \<Rightarrow> ('q, booking_result) prog" where
  "release_and_refuse c st err =
     andthen (rollback_tx (Client c)) (andthen (release c) (ret (failed st err)))"

definition rescheduleBooking :: "reschedule_request \<Rightarrow> int option \<Rightarrow> bool \<Rightarrow> ('q, booking_result) prog" where
  "rescheduleBooking req nowUtc reminderQueue =
     bind (case nowUtc of Some c \<Rightarrow> ret c | None \<Rightarrow> now) (\<lambda>nowMs.
     bind connect (\<lambda>pre. try_finally (
       andthen (begin_tx (Client pre)) (
       bind (query (Client pre) (sel (bookings_by_id (rr_booking req)))) (\<lambda>bookingRes. case bookingRes of
         [] \<Rightarrow> release_and_refuse pre 404 ''not_found''
       | b # _ \<Rightarrow> (case reschedule_guard req b of Some (st, err) \<Rightarrow> release_and_refuse pre st err
         | None \<Rightarrow>
           andthen (commit_tx (Client pre)) (
           andthen (release pre) (
           bind (query Pool (sel (slots_by_id (b_slot b)))) (\<lambda>slotRes.
           if window_expired req slotRes nowMs then ret (failed 409 ''window_expired'')
           else bind connect (\<lambda>c. try_finally
             (try_catch (reschedule_transaction c req nowMs reminderQueue) (reschedule_failure (Client c)))
             (release c)))))))))
       (release pre)))"

subsection \<open>The duplicate in the contracts package\<close>

definition contracts_rescheduleBooking :: "reschedule_request \<Rightarrow> int option \<Rightarrow> ('q, booking_result) prog" where
  "contracts_rescheduleBooking req nowUtc =
     bind (case nowUtc of Some c \<Rightarrow> ret c | None \<Rightarrow> now) (\<lambda>nowMs.
     bind (query Pool (sel (bookings_by_id (rr_booking req)))) (\<lambda>bookingRes. case bookingRes of
       [] \<Rightarrow> ret (failed 404 ''not_found'')
     | b # _ \<Rightarrow>
       if b_version b \<noteq> rr_version req \<or> rr_if_match req \<noteq> b_version b then ret (failed 412 ''version_mismatch'')
       else bind (query Pool (sel (slots_by_id (b_slot b)))) (\<lambda>slotRes.
         if window_expired req slotRes nowMs then ret (failed 409 ''window_expired'')
         else try_catch (
           andthen (begin_tx Pool) (
           bind (query Pool (claim_slot (rr_new_slot req) (\<lambda>st. nowMs < st))) (\<lambda>newSlotRes. case newSlotRes of
             [] \<Rightarrow> refuse Pool 409 ''slot_unavailable''
           | s # _ \<Rightarrow> bind (reschedule_writes Pool req b ''UTC'' nowMs s) (\<lambda>nb. ret (created nb False)))))
           (reschedule_failure Pool))))"

subsection \<open>What a successful move does to the tables\<close>

text \<open>The booking \<open>b\<close> is cancelled and its slot freed; the new slot is held by the new booking \<open>nb\<close>.\<close>

definition moved_core :: "reschedule_request \<Rightarrow> booking_row \<Rightarrow> int \<Rightarrow> booking_row \<Rightarrow> tables \<Rightarrow> tables" where
  "moved_core req b n nb T =
     with_booking nb (freed (b_slot b) (with_status (rr_booking req) Cancelled
       (\<lambda>x. x\<lparr>b_cancelled_at := Some n\<rparr>) (held (rr_new_slot req) T)))"

lemma cancel_booking_Inr:
  "cancel_booking i n u T = Inr (a, T') \<Longrightarrow> T' = with_status i Cancelled (\<lambda>b. b\<lparr>b_cancelled_at := Some n\<rparr>) T"
  by (auto simp: cancel_booking_def dest: set_booking_cancelled)

lemma set_slot_open_Inr: "set_slot_open i n u T = Inr (a, T') \<Longrightarrow> T' = freed i T"
  by (simp add: set_slot_open_def freed_def)

lemma wp_insert_reminder_if_future_near:
  assumes "near_tx s T1 w" "\<And>w'. near_tx s T1 w' \<Longrightarrow> Q () w'" "\<And>x w'. committed w' = s \<Longrightarrow> E x w'"
  shows "wp (insert_reminder_if_future ch bk start nowMs off) Q E e w"
  unfolding insert_reminder_if_future_def elapsed_before_def
  using assms by (auto simp: near_tx_committed intro!: wp_quiet_tx quiet_stmts)

definition moved_to ::
    "reschedule_request \<Rightarrow> booking_row \<Rightarrow> string \<Rightarrow> tables \<Rightarrow> booking_row \<Rightarrow> 'q world \<Rightarrow> bool" where
  "moved_to req b tz T nb w \<longleftrightarrow>
     (\<exists>n m. near_idle (moved_core req b n nb T) w
        \<and> nb = new_booking (rr_new_slot req) (b_client b) tz None None (b_version b + 1) m (b_id nb)
        \<and> b_id nb \<notin> b_id ` set (bookings T) \<and> b_client b \<in> c_id ` set (clients T))"

lemma moved_toI:
  assumes "insert_booking (rr_new_slot req) (b_client b) tz None None (b_version b + 1) m u
      (freed (b_slot b) (with_status (rr_booking req) Cancelled (\<lambda>x. x\<lparr>b_cancelled_at := Some n\<rparr>)
        (held (rr_new_slot req) T))) = Inr (nb, T')" "near_idle T' w"
  shows "moved_to req b tz T nb w"
proof -
  have columns: "b_id ` set (bookings (freed (b_slot b) (with_status (rr_booking req) Cancelled
      (\<lambda>x. x\<lparr>b_cancelled_at := Some n\<rparr>) (held (rr_new_slot req) T)))) = b_id ` set (bookings T)"
    by (simp add: with_status_def image_upd_where)
  show ?thesis
    using insert_booking_Inr [OF assms(1)] assms(2) columns
    by (auto simp: moved_to_def moved_core_def with_status_def freed_def held_def)
qed

lemma wp_reschedule_writes:
  assumes "in_tx T (held (rr_new_slot req) T) w" "\<not> no_effect e ch"
    and "\<And>nb w'. moved_to req b tz T nb w' \<Longrightarrow> Q (b_id nb) w'"
    and "\<And>x w'. committed w' = T \<Longrightarrow> E x w'"
    and "\<And>nb x w'. moved_to req b tz T nb w' \<Longrightarrow> E x w'"
  shows "wp (reschedule_writes ch req b tz nowMs s) Q E e w"
  unfolding reschedule_writes_def record_reschedule_key_def
  apply (simp split del: if_split)
  apply (rule wp_query_in_tx [OF assms(1)])
   apply (drule cancel_booking_Inr)
   apply (rule wp_query_in_tx, assumption)
    apply (drule set_slot_open_Inr, hypsubst)
    apply (rule wp_query_in_tx, assumption)
     apply (rule wp_quiet_tx [OF near_txI], assumption, rule same_booking_tables_refl, rule quiet_stmts)
      apply (rule wp_insert_reminder_if_future_near, assumption)
       apply (rule wp_insert_reminder_if_future_near, assumption)
        apply (intro wp_cases)
         apply simp
         apply (rule wp_commit_near, assumption, rule assms(2))
           apply (rule assms(3), erule (1) moved_toI)
          apply (rule assms(4), assumption)
         apply (rule assms(5), erule (1) moved_toI)
        apply (rule wp_quiet_tx, assumption, rule quiet_stmts)
         apply (rule wp_commit_near, assumption, rule assms(2))
           apply (rule assms(3), erule (1) moved_toI)
          apply (rule assms(4), assumption)
         apply (rule assms(5), erule (1) moved_toI)
        apply (rule assms(4), assumption)+
  done

text \<open>The booking was moved: it was live and had the version the client named, the new slot was open and
  ahead, and the tables have changed by exactly the move.\<close>

definition rescheduled :: "reschedule_request \<Rightarrow> int \<Rightarrow> tables \<Rightarrow> string \<Rightarrow> 'q world \<Rightarrow> bool" where
  "rescheduled req c T i w \<longleftrightarrow>
     (\<exists>b tz nb s. b \<in> set (bookings T) \<and> b_id b = rr_booking req \<and> reschedule_guard req b = None
        \<and> s \<in> set (slots T) \<and> s_id s = rr_new_slot req \<and> s_status s = Open \<and> c < s_start s
        \<and> moved_to req b tz T nb w \<and> b_id nb = i)"

definition reschedule_outcome :: "reschedule_request \<Rightarrow> int \<Rightarrow> tables \<Rightarrow> 'q world \<Rightarrow> bool" where
  "reschedule_outcome req c T w \<longleftrightarrow> committed w = T \<or> (\<exists>i. rescheduled req c T i w)"

definition reschedule_result :: "reschedule_request \<Rightarrow> int \<Rightarrow> tables \<Rightarrow> booking_result \<Rightarrow> 'q world \<Rightarrow> bool" where
  "reschedule_result req c T r w \<longleftrightarrow>
     (if res_status r = 201 then \<exists>i. r = created i False \<and> rescheduled req c T i w
      else reschedule_outcome req c T w)"

lemma outcome_leased [simp]:
  "rescheduled req c T i (w\<lparr>leased := l\<rparr>) = rescheduled req c T i w"
  "reschedule_outcome req c T (w\<lparr>leased := l\<rparr>) = reschedule_outcome req c T w"
  "reschedule_result req c T r (w\<lparr>leased := l\<rparr>) = reschedule_result req c T r w"
  by (simp_all add: rescheduled_def moved_to_def reschedule_outcome_def reschedule_result_def)

lemma reschedule_result_outcome: "reschedule_result req c T r w \<Longrightarrow> reschedule_outcome req c T w"
  by (auto simp: reschedule_result_def reschedule_outcome_def split: if_splits)

lemma result_failed:
  "st \<noteq> 201 \<Longrightarrow> reschedule_outcome req c T w \<Longrightarrow> reschedule_result req c T (failed st err) w"
  by (simp add: reschedule_result_def failed_def)

lemma result_created: "rescheduled req c T i w \<Longrightarrow> reschedule_result req c T (created i False) w"
  by (auto simp: reschedule_result_def created_def)

lemma outcome_unchanged: "committed w = T \<Longrightarrow> reschedule_outcome req c T w"
  by (simp add: reschedule_outcome_def)

lemma outcome_moved: "rescheduled req c T i w \<Longrightarrow> reschedule_outcome req c T w"
  by (auto simp: reschedule_outcome_def)

text \<open>A move outlasts everything that leaves slots and bookings alone.\<close>

lemma undisturbing_moved:
  assumes "undisturbing m" "rescheduled req c T i w"
    and "\<And>a w'. rescheduled req c T i w' \<Longrightarrow> Q a w'" "\<And>x w'. rescheduled req c T i w' \<Longrightarrow> E x w'"
  shows "wp m Q E e w"
proof -
  obtain b tz nb s where r: "b \<in> set (bookings T)" "b_id b = rr_booking req" "reschedule_guard req b = None"
    "s \<in> set (slots T)" "s_id s = rr_new_slot req" "s_status s = Open" "c < s_start s" "b_id nb = i"
    "moved_to req b tz T nb w"
    using assms(2) unfolding rescheduled_def by blast
  moreover obtain n where n: "near_idle (moved_core req b n nb T) w"
    using r(9) unfolding moved_to_def by blast
  ultimately have "rescheduled req c T i w'" if "near_idle (moved_core req b n nb T) w'" for w'
    using that unfolding rescheduled_def moved_to_def by blast
  then show ?thesis
    by (intro undisturbingD [OF assms(1) n]) (assumption | rule assms(3,4))+
qed

lemma undisturbing_after_move [quiet_intros]:
  "undisturbing (reschedule_events req b nb s)" "undisturbing (reschedule_enqueue req nb)"
  unfolding reschedule_events_def reschedule_enqueue_def by (intro quiet_intros)+

lemma wp_refuse:
  assumes "in_tx T T' w" "st \<noteq> 201"
  shows "wp (refuse ch st err) (reschedule_result req c T) (\<lambda>_. reschedule_outcome req c T) e w"
  unfolding refuse_def
  using assms by (simp, intro wp_rollback) (auto simp: in_tx_committed intro!: result_failed outcome_unchanged)

lemma guard_status: "reschedule_guard req b = Some (st, err) \<Longrightarrow> st \<noteq> 201"
  by (auto simp: reschedule_guard_def split: if_splits)

lemma keys_ok_schema: "schema_ok T \<Longrightarrow> keys_ok T"
  by (simp add: schema_ok_def)

lemma rescheduledI:
  "schema_ok T \<Longrightarrow> bookings_by_id (rr_booking req) T = b # bs \<Longrightarrow> reschedule_guard req b = None \<Longrightarrow>
     s \<in> set (slots T) \<Longrightarrow> s_id s = rr_new_slot req \<Longrightarrow> s_status s = Open \<Longrightarrow> c < s_start s \<Longrightarrow>
     moved_to req b tz T nb w \<Longrightarrow> rescheduled req c T (b_id nb) w"
  using bookings_by_id_Cons [of T "rr_booking req" b bs] unfolding rescheduled_def by blast

lemma wp_reschedule_transaction:
  assumes "idle T w" "schema_ok T"
  shows "wp (reschedule_transaction k req c q) (reschedule_result req c T)
    (\<lambda>_. reschedule_outcome req c T) e w"
  unfolding reschedule_transaction_def Let_def
  apply (simp split del: if_split)
  apply (rule wp_begin [OF assms(1) no_effect_Client])
   apply (rule wp_sel_in_tx, assumption)
    apply (intro wp_cases)
      apply (erule wp_refuse, simp)
     apply (simp split del: if_split)
     apply (rule wp_query_in_tx, assumption)
      apply (intro wp_cases)
       apply (erule wp_refuse, simp)
      apply (hypsubst, frule claim_slot_Cons [OF keys_ok_schema [OF assms(2)]])
      apply (elim exE conjE, hypsubst)
      apply (simp split del: if_split)
      apply (rule wp_reschedule_writes, assumption, rule no_effect_Client)
        apply (frule (6) rescheduledI [OF assms(2)])
        apply (rule undisturbing_moved, intro quiet_intros, assumption)
         apply (rule undisturbing_moved, intro quiet_intros, assumption)
          apply (rule undisturbing_moved, intro quiet_intros, assumption)
           apply (erule result_created)
          apply (erule outcome_moved)+
       apply (erule outcome_unchanged)
      apply (frule (6) rescheduledI [OF assms(2)], erule outcome_moved)
     apply (erule outcome_unchanged)
    apply (simp, erule wp_refuse, simp add: guard_status)
   apply (erule outcome_unchanged)
  apply (erule outcome_unchanged [OF idle_committed])
  done

text \<open>A failure after the commit ends in a response that is not 201, and the move stays.\<close>

lemma wp_reschedule_failure:
  assumes "reschedule_outcome req c T w"
  shows "wp (reschedule_failure ch x) (reschedule_result req c T) E e w"
  using assms unfolding reschedule_outcome_def
proof (elim disjE exE)
  assume "committed w = T"
  then show ?thesis
    unfolding reschedule_failure_def using failure_response_status [of x]
    by simp (rule wp_rollback; auto simp: reschedule_result_def reschedule_outcome_def)
next
  fix i
  assume r: "rescheduled req c T i w"
  have "undisturbing (rollback_tx ch)"
    by (rule undisturbingI, erule near_idleE, rule wp_rollback_idle, assumption) (blast intro: near_idleI)+
  then show ?thesis
    unfolding reschedule_failure_def using failure_response_status [of x] r
    by simp (rule undisturbing_moved; auto simp: reschedule_result_def intro: outcome_moved)
qed

lemma wp_finally_release:
  assumes "wp m (reschedule_result req c T) (\<lambda>_. reschedule_outcome req c T) e w"
  shows "wp (try_finally m (release k)) (reschedule_result req c T) (\<lambda>_. reschedule_outcome req c T) e w"
  by (simp, rule wp_mono [OF assms])
    (rule wp_release_leased; simp add: reschedule_result_outcome)+

lemma wp_release_and_refuse:
  assumes "in_tx T T' w" "st \<noteq> 201"
  shows "wp (release_and_refuse k st err) (reschedule_result req c T) (\<lambda>_. reschedule_outcome req c T) e w"
  unfolding release_and_refuse_def
  using assms
  by (simp, intro wp_rollback wp_release)
    (auto simp: in_tx_committed intro!: result_failed outcome_unchanged)

definition effective_now :: "int option \<Rightarrow> 'q env \<Rightarrow> 'q world \<Rightarrow> int" where
  "effective_now nowUtc e w = (case nowUtc of Some c \<Rightarrow> c | None \<Rightarrow> clock_ms e (tick w))"

lemma wp_rescheduleBooking:
  assumes "idle T w" "schema_ok T"
  shows "wp (rescheduleBooking req nowUtc q) (reschedule_result req (effective_now nowUtc e w) T)
    (\<lambda>_. reschedule_outcome req (effective_now nowUtc e w) T) e w"
proof -
  define c where "c = effective_now nowUtc e w"
  have now_c: "wp (case nowUtc of Some c \<Rightarrow> ret c | None \<Rightarrow> now) Q E e w = Q c w" for Q E
    by (cases nowUtc) (simp_all add: c_def effective_now_def)
  show ?thesis
    unfolding rescheduleBooking_def c_def [symmetric] wp_bind now_c
    apply (rule wp_connect [OF assms(1)])
     apply (rule wp_finally_release)
     apply (simp del: wp_try_finally split del: if_split)
     apply (rule wp_begin [OF _ no_effect_Client], assumption)
      apply (rule wp_sel_in_tx, assumption)
       apply (intro wp_cases)
         apply (erule wp_release_and_refuse, simp)
        apply (simp del: wp_try_finally split del: if_split)
        apply (rule wp_commit [OF _ no_effect_Client], assumption)
          apply (rule wp_release_leased)
           apply (rule wp_sel_idle)
             apply simp
            apply (intro wp_cases)
             apply (simp, rule result_failed, simp, erule outcome_unchanged [OF idle_committed])
            apply (simp del: wp_try_finally, rule wp_connect, assumption)
             apply (rule wp_finally_release, simp)
             apply (rule wp_mono [OF wp_reschedule_transaction [OF _ assms(2)]], assumption, assumption)
             apply (erule wp_reschedule_failure)
            apply (erule outcome_unchanged [OF idle_committed])+
       apply (simp, erule wp_release_and_refuse, simp add: guard_status)
      apply (erule outcome_unchanged outcome_unchanged [OF idle_committed])+
    done
qed

subsection \<open>Agreement of slots and bookings\<close>

lemma freed_held_commute: "i \<noteq> j \<Longrightarrow> freed i (held j t) = held j (freed i t)"
  by (simp add: freed_def held_def upd_where_def)

lemma with_status_held: "with_status i st f (held j t) = held j (with_status i st f t)"
  by (simp add: with_status_def held_def)

lemma moved_consistent:
  assumes "consistent T" "b \<in> set (bookings T)" "b_id b = rr_booking req" "b_status b = Booked"
    "s \<in> set (slots T)" "s_id s = rr_new_slot req" "s_status s = Open"
    "nb = new_booking (rr_new_slot req) (b_client b) tz None None v m (b_id nb)"
    "b_id nb \<notin> b_id ` set (bookings T)" "b_client b \<in> c_id ` set (clients T)"
  shows "consistent (moved_core req b n nb T)"
proof -
  define t where "t = freed (b_slot b) (with_status (rr_booking req) Cancelled (\<lambda>x. x\<lparr>b_cancelled_at := Some n\<rparr>) T)"
  have t: "consistent t"
    unfolding t_def using assms(2-4)
    by (intro consistent_cancel [OF assms(1)]) (auto simp: live_def refs_kept_def keeps_refs_def)
  have ne: "b_slot b \<noteq> rr_new_slot req"
    using assms(2,4-7) consistent_slot [OF assms(1,5)] by (auto simp: live_on_def filter_empty_conv live_def)
  have nb: "b_slot nb = rr_new_slot req" "b_client nb = b_client b" "live nb"
    by (subst assms(8), simp add: new_booking_def live_def)+
  have s: "s \<in> set (slots t)"
    using assms(5,6) ne unfolding t_def freed_def by (auto simp: upd_where_def image_iff)
  have "moved_core req b n nb T = with_booking nb (held (b_slot nb) t)"
    using ne by (simp add: moved_core_def t_def nb with_status_held freed_held_commute)
  moreover have "b_id ` set (bookings t) = b_id ` set (bookings T)" "clients t = clients T"
    by (simp_all add: t_def with_status_def image_upd_where freed_def)
  moreover have "consistent (with_booking nb (held (b_slot nb) t))" if "bookings t = bs" "clients t = clients T"
      "b_id ` set bs = b_id ` set (bookings T)" for bs
    by (rule consistent_book [OF t s]) (use assms(6,7,9,10) that in \<open>simp_all add: nb\<close>)
  ultimately show ?thesis by simp
qed

lemma rescheduled_consistent:
  assumes "rescheduled req c T i w" "consistent T" "schema_ok (committed w)"
  shows "consistent (committed w)"
proof -
  obtain b tz nb s where r: "b \<in> set (bookings T)" "b_id b = rr_booking req" "reschedule_guard req b = None"
    "s \<in> set (slots T)" "s_id s = rr_new_slot req" "s_status s = Open" "moved_to req b tz T nb w"
    using assms(1) unfolding rescheduled_def by blast
  obtain n m T' where n: "same_booking_tables (moved_core req b n nb T) T'" "idle T' w"
    "nb = new_booking (rr_new_slot req) (b_client b) tz None None (b_version b + 1) m (b_id nb)"
    "b_id nb \<notin> b_id ` set (bookings T)" "b_client b \<in> c_id ` set (clients T)"
    using r(7) unfolding moved_to_def near_idle_def by blast
  have "b_status b = Booked" using r(3) by (simp add: reschedule_guard_def split: if_splits)
  then have "consistent (moved_core req b n nb T)"
    using moved_consistent [OF assms(2) r(1,2) _ r(4-6) n(3-5)] by blast
  then show ?thesis
    using n(1,2) assms(3) by (auto simp: same_booking_tables_def idle_committed intro: consistent_cong)
qed

context table_invariant begin

lemma keeps_reschedule_writes: "keeps I (reschedule_writes ch req b tz c s)"
  unfolding reschedule_writes_def cancel_booking_def insert_reminder_if_future_def elapsed_before_def
    record_reschedule_key_def
  by (intro pres_intros stmt_keeps) (simp_all add: keeps_refs_def)

lemma keeps_reschedule_transaction: "keeps I (reschedule_transaction k req c q)"
  unfolding reschedule_transaction_def reschedule_events_def reschedule_enqueue_def refuse_def Let_def
  by (intro pres_intros stmt_keeps keeps_reschedule_writes keeps_enqueueForBooking keeps_cancelForBooking)

lemma keeps_rescheduleBooking: "keeps I (rescheduleBooking req nowUtc q)"
  unfolding rescheduleBooking_def release_and_refuse_def reschedule_failure_def
  by (intro pres_intros stmt_keeps keeps_reschedule_transaction)

lemma keeps_contracts_rescheduleBooking: "keeps I (contracts_rescheduleBooking req nowUtc)"
  unfolding contracts_rescheduleBooking_def reschedule_failure_def refuse_def
  by (intro pres_intros stmt_keeps keeps_reschedule_writes)

end

subsection \<open>A released connection stays released\<close>

text \<open>Invariants of the connections checked out, which every call keeps.\<close>

definition stays :: "('q world \<Rightarrow> bool) \<Rightarrow> ('q, 'a) prog \<Rightarrow> bool" where
  "stays J m \<longleftrightarrow> (\<forall>e w. J w \<longrightarrow> J (snd (m e w)))"

lemma staysD: "stays J m \<Longrightarrow> m e w = (r, w') \<Longrightarrow> J w \<Longrightarrow> J w'"
  by (metis stays_def snd_conv)

lemma staysI: "(\<And>e w r w'. m e w = (r, w') \<Longrightarrow> J w \<Longrightarrow> J w') \<Longrightarrow> stays J m"
  by (metis stays_def surjective_pairing)

lemma stays_bind [quiet_intros]: "stays J m \<Longrightarrow> (\<And>a. stays J (f a)) \<Longrightarrow> stays J (bind m f)"
  by (rule staysI) (auto simp: bind_def dest: staysD split: prod.splits sum.splits)

lemma stays_try_catch [quiet_intros]:
  "stays J m \<Longrightarrow> (\<And>x. stays J (h x)) \<Longrightarrow> stays J (try_catch m h)"
  by (rule staysI) (auto simp: try_catch_def dest: staysD split: prod.splits sum.splits)

lemma stays_try_finally [quiet_intros]: "stays J m \<Longrightarrow> stays J c \<Longrightarrow> stays J (try_finally m c)"
  by (rule staysI) (auto simp: try_finally_def dest: staysD split: prod.splits sum.splits)

lemma stays_pure [quiet_intros]: "stays J (ret a)" "stays J (raise x)" "stays J now" "stays J (ask f)"
  by (simp_all add: stays_def prog_simps)

lemma stays_derived [quiet_intros]:
  "stays J m \<Longrightarrow> stays J n \<Longrightarrow> stays J (andthen m n)"
  "stays J m \<Longrightarrow> stays J (swallow m)"
  unfolding andthen_def swallow_def by (intro quiet_intros | assumption)+

lemma stays_cases [quiet_intros]:
  "stays J m \<Longrightarrow> stays J n \<Longrightarrow> stays J (if b then m else n)"
  "stays J m \<Longrightarrow> (\<And>x xs. stays J (f x xs)) \<Longrightarrow> stays J (case l of [] \<Rightarrow> m | x # xs \<Rightarrow> f x xs)"
  "stays J m \<Longrightarrow> (\<And>x. stays J (g x)) \<Longrightarrow> stays J (case z of None \<Rightarrow> m | Some x \<Rightarrow> g x)"
  "(\<And>y z. stays J (h y z)) \<Longrightarrow> stays J (case p of (y, z) \<Rightarrow> h y z)"
  by (auto split: list.split option.split prod.split)

lemma stays_for_each [quiet_intros]: "(\<And>x. stays J (f x)) \<Longrightarrow> stays J (for_each xs f)"
  by (induction xs) (auto intro: quiet_intros)

locale lease_invariant =
  fixes J :: "'q world \<Rightarrow> bool"
  assumes J_bump: "J w \<Longrightarrow> J (bump w)"
    and J_other: "J (w\<lparr>tabs := t\<rparr>) = J w" "J (w\<lparr>tx := x\<rparr>) = J w" "J (w\<lparr>queue := q\<rparr>) = J w"
    and J_connect: "J w \<Longrightarrow> J ((bump w)\<lparr>leased := tick w # leased w\<rparr>)"
    and J_release: "J w \<Longrightarrow> J (w\<lparr>leased := removeAll c (leased w)\<rparr>)"
begin

lemma J_end_tx: "J (end_tx ok w) = J w"
  by (auto simp: end_tx_def J_other split: tx_state.split)

lemma stays_query: "stays J (query ch st)"
  and stays_tx: "stays J (begin_tx ch)" "stays J (commit_tx ch)" "stays J (rollback_tx ch)"
  and stays_queue: "stays J (queue_call g)" "stays J (queue_ask h)"
  and stays_lease: "stays J connect" "stays J (release c)"
  by (auto simp: stays_def query_def begin_tx_def commit_tx_def rollback_tx_def queue_call_def queue_ask_def
      connect_def release_def J_bump J_other J_end_tx J_connect J_release split: option.split sum.split)

lemmas stays_calls = stays_query stays_tx stays_queue stays_lease

lemma stays_reschedule_transaction: "stays J (reschedule_transaction c req n q)"
  unfolding reschedule_transaction_def reschedule_writes_def insert_reminder_if_future_def elapsed_before_def
    record_reschedule_key_def reschedule_events_def reschedule_enqueue_def refuse_def Let_def
    enqueueForBooking_def enqueue_offset_def cancelForBooking_def remove_job_def
  by (intro quiet_intros stays_calls)

end

definition past :: "nat \<Rightarrow> 'q world \<Rightarrow> bool" where
  "past k w \<longleftrightarrow> k < tick w"

definition gone :: "nat \<Rightarrow> 'q world \<Rightarrow> bool" where
  "gone k w \<longleftrightarrow> k \<notin> set (leased w) \<and> k < tick w"

interpretation past: lease_invariant "past k"
  by unfold_locales (simp_all add: past_def)

interpretation gone: lease_invariant "gone k"
  by unfold_locales (auto simp: gone_def)

lemma stays_wp:
  "stays J m \<Longrightarrow> J w \<Longrightarrow> (\<And>a w'. J w' \<Longrightarrow> Q a w') \<Longrightarrow> (\<And>x w'. E x w') \<Longrightarrow> wp m Q E e w"
  by (auto simp: wp_def dest: staysD split: prod.splits sum.splits)

lemma wp_release_gone:
  assumes "past k w" "\<And>w'. gone k w' \<Longrightarrow> Q () w'" "\<And>x w'. E x w'"
  shows "wp (release k) Q E e w"
  using assms by (auto simp: wp_def release_def past_def gone_def split: option.split)

lemma wp_release_twice:
  "gone k w \<Longrightarrow> double_release e \<noteq> None \<Longrightarrow> (\<And>x w'. E x w') \<Longrightarrow> wp (release k) Q E e w"
  by (auto simp: wp_def release_def gone_def)

lemma wp_finally_twice:
  assumes "wp m (\<lambda>_. gone k) (\<lambda>_ _. True) e w" "double_release e \<noteq> None"
  shows "wp (try_finally m (release k)) (\<lambda>_ _. False) (\<lambda>_ _. True) e w"
  by (simp, rule wp_mono [OF assms(1)], rule wp_release_twice [OF _ assms(2)])
    (auto simp: wp_def release_def split: option.split)

lemma wp_past_or_raise:
  "stays (past k) m \<Longrightarrow> past k w \<Longrightarrow> (\<And>a w'. past k w' \<Longrightarrow> Q a w') \<Longrightarrow> wp m Q (\<lambda>_ _. True) e w"
  and wp_gone_or_raise:
  "stays (gone k) m \<Longrightarrow> gone k w \<Longrightarrow> (\<And>a w'. gone k w' \<Longrightarrow> Q a w') \<Longrightarrow> wp m Q (\<lambda>_ _. True) e w"
  by (erule (1) stays_wp, simp_all)+

lemma wp_refuse_gone:
  "past k w \<Longrightarrow> wp (release_and_refuse k st err) (\<lambda>_. gone k) (\<lambda>_ _. True) e w"
  unfolding release_and_refuse_def
  by (simp, erule wp_past_or_raise [OF past.stays_tx(3)], erule wp_release_gone) simp_all

lemma wp_reschedule_released:
  assumes "double_release e \<noteq> None"
  shows "wp (rescheduleBooking req nowUtc q) (\<lambda>_ _. False) (\<lambda>_ _. True) e w"
proof -
  have connect: "wp connect Q (\<lambda>_ _. True) e w" if "\<And>k w'. past k w' \<Longrightarrow> Q k w'" for Q w
    using that by (auto simp: wp_def connect_def past_def split: option.split)
  show ?thesis
    unfolding rescheduleBooking_def
    apply (simp del: wp_try_finally)
    apply (rule wp_effective_now, rule connect)
    apply (rule wp_finally_twice [OF _ assms])
    apply (simp del: wp_try_finally split del: if_split)
    apply (rule wp_past_or_raise [OF past.stays_tx(1)], assumption)
    apply (rule wp_past_or_raise [OF past.stays_query], assumption)
    apply (intro wp_cases)
      apply (erule wp_refuse_gone)
     apply (simp del: wp_try_finally split del: if_split)
     apply (rule wp_past_or_raise [OF past.stays_tx(2)], assumption)
     apply (rule wp_release_gone, assumption)
      apply (rule wp_gone_or_raise [OF gone.stays_query], assumption)
      apply (intro wp_cases)
       apply simp
      apply (simp del: wp_try_finally)
      apply (rule wp_gone_or_raise [OF gone.stays_lease(1)], assumption)
      apply (rule wp_gone_or_raise)
        apply (unfold reschedule_failure_def,
          intro quiet_intros gone.stays_calls gone.stays_reschedule_transaction)[1]
       apply assumption+
     apply simp
    apply (simp, erule wp_refuse_gone)
    done
qed

subsection \<open>The driver's dates\<close>

lemma wp_unchanged_query:
  "in_tx s T w \<Longrightarrow> (\<And>a T' w'. in_tx s T' w' \<Longrightarrow> Q a w') \<Longrightarrow> (\<And>x w'. committed w' = s \<Longrightarrow> E x w') \<Longrightarrow>
     wp (query ch st) Q E e w"
  by (rule wp_query_in_tx, assumption) blast+

lemma wp_reschedule_writes_dates:
  assumes "in_tx s T w" "driver_dates e" "\<And>x w'. committed w' = s \<Longrightarrow> E x w'"
  shows "wp (reschedule_writes ch req b tz c sl) Q E e w"
  unfolding reschedule_writes_def insert_reminder_if_future_def elapsed_before_def
  apply (simp add: assms(2))
  apply (rule wp_unchanged_query [OF assms(1)])
   apply (rule wp_unchanged_query, assumption)
    apply (rule wp_unchanged_query, assumption)
     apply (rule wp_unchanged_query, assumption)
      apply (rule assms(3), erule in_tx_committed)
     apply (rule assms(3), assumption)+
  done

lemma wp_reschedule_transaction_dates:
  assumes "idle T w" "driver_dates e"
  shows "wp (reschedule_transaction k req c q) (\<lambda>_ w'. committed w' = T) (\<lambda>_ w'. committed w' = T) e w"
proof -
  have refuse: "wp (refuse ch st err) (\<lambda>_ w'. committed w' = T) (\<lambda>_ w'. committed w' = T) e w'"
    if "in_tx T T' w'" for ch st err T' w'
    unfolding refuse_def using that by (simp, intro wp_rollback) (simp_all add: in_tx_committed)
  show ?thesis
    unfolding reschedule_transaction_def Let_def
    apply (simp split del: if_split)
    apply (rule wp_begin [OF assms(1) no_effect_Client])
     apply (rule wp_sel_in_tx, assumption)
      apply (intro wp_cases)
        apply (erule refuse)
       apply (simp split del: if_split)
       apply (rule wp_unchanged_query, assumption)
        apply (intro wp_cases)
         apply (erule refuse)
        apply (simp split del: if_split)
        apply (rule wp_reschedule_writes_dates [OF _ assms(2)], assumption)
        apply (simp_all add: refuse idle_committed)
    done
qed

lemma wp_rescheduleBooking_dates:
  assumes "idle T w" "driver_dates e"
  shows "wp (rescheduleBooking req nowUtc q) (\<lambda>_ w'. committed w' = T) (\<lambda>_ w'. committed w' = T) e w"
proof -
  let ?un = "\<lambda>_ w'. committed w' = T"
  have fin: "wp (try_finally m (release k)) ?un ?un e w" if "wp m ?un ?un e w" for m :: "('a, 'b) prog" and k w
    by (simp, rule wp_mono [OF that]) (rule wp_release_leased; simp)+
  have refuse: "wp (release_and_refuse k st err) ?un ?un e w" if "committed w = T" for k st err w
    unfolding release_and_refuse_def using that by (simp, intro wp_rollback wp_release) simp_all
  have fail: "wp (reschedule_failure ch x) ?un ?un e w" if "committed w = T" for ch x w
    unfolding reschedule_failure_def using that by (simp, intro wp_rollback) simp_all
  show ?thesis
    unfolding rescheduleBooking_def
    apply (simp del: wp_try_finally)
    apply (rule wp_effective_now, rule wp_connect [OF assms(1)])
     apply (rule fin)
     apply (simp del: wp_try_finally split del: if_split)
     apply (rule wp_begin [OF _ no_effect_Client], assumption)
      apply (rule wp_sel_in_tx, assumption)
       apply (intro wp_cases)
         apply (rule refuse, erule in_tx_committed)
        apply (simp del: wp_try_finally split del: if_split)
        apply (rule wp_commit [OF _ no_effect_Client], assumption)
          apply (rule wp_release_leased)
           apply (rule wp_sel_idle)
             apply simp
            apply (intro wp_cases)
             apply (simp add: idle_committed)
            apply (simp del: wp_try_finally, rule wp_connect, assumption)
             apply (rule fin, simp)
             apply (rule wp_mono [OF wp_reschedule_transaction_dates [OF _ assms(2)]], assumption, assumption)
             apply (erule fail)
            apply (simp_all add: idle_committed refuse in_tx_committed)
    done
qed

lemma consistent_after_reschedule:
  assumes "idle T w" "consistent T"
  shows "consistent (committed (snd (rescheduleBooking req nowUtc q e w)))"
proof -
  have T: "schema_ok T" using assms(2) by (simp add: consistent_def)
  have ok: "schema_ok (committed (snd (rescheduleBooking req nowUtc q e w)))"
    using T assms(1) by (intro schema.keeps_committed schema.keeps_rescheduleBooking) (simp_all add: idle_def)
  obtain r w' where run: "rescheduleBooking req nowUtc q e w = (r, w')" by fastforce
  have "reschedule_outcome req (effective_now nowUtc e w) T w'"
    using wp_rescheduleBooking [OF assms(1) T, of req nowUtc q e]
    by (auto simp: wp_def run split: sum.splits dest: reschedule_result_outcome)
  then show ?thesis
    using ok assms(2) by (auto simp: run reschedule_outcome_def dest: rescheduled_consistent)
qed

subsection \<open>Properties\<close>

text \<open>C13. Whatever call fails and whenever, moving a booking is all or nothing: a 201 means the booking was live
  and had the named version, the new slot was open and ahead, and the slots and bookings have changed by
  exactly the move, the old booking cancelled, its slot freed, the new slot held by the new booking of the same
  client; any other response or an exception leaves them as they were or, if it came after the commit, moved.\<close>

theorem rescheduleBooking_atomic:
  assumes "idle T w" "schema_ok T"
  shows "case rescheduleBooking req nowUtc q e w of
      (Inr r, w') \<Rightarrow> reschedule_result req (effective_now nowUtc e w) T r w'
    | (Inl _, w') \<Rightarrow> reschedule_outcome req (effective_now nowUtc e w) T w'"
  using wp_rescheduleBooking [OF assms, of req nowUtc q] by (simp add: wp_def)

definition demo_move :: reschedule_request where
  "demo_move = \<lparr>rr_booking = ''b1'', rr_new_slot = ''s2'', rr_key = Some ''k1'', rr_version = 1,
     rr_if_match = 1, rr_window = None\<rparr>"

theorem rescheduleBooking_atomic_witness:
  "case rescheduleBooking demo_move None True demo_env demo_world of
      (Inr r, w') \<Rightarrow> reschedule_result demo_move (effective_now None demo_env demo_world) demo_tables r w'
    | (Inl _, w') \<Rightarrow> reschedule_outcome demo_move (effective_now None demo_env demo_world) demo_tables w'"
  by (rule rescheduleBooking_atomic [OF demo_idle demo_schema])

text \<open>C14. Moving a booking keeps slots and bookings in agreement under any failure: a slot is held
  exactly while a live booking is on it, in what other sessions see.\<close>

theorem rescheduleBooking_consistent:
  assumes "idle T w" "consistent T"
  shows "consistent (committed (snd (rescheduleBooking req nowUtc q e w)))"
  by (rule consistent_after_reschedule [OF assms])

theorem rescheduleBooking_consistent_witness:
  "consistent (committed (snd (rescheduleBooking demo_move None True demo_env demo_world)))"
  by (rule rescheduleBooking_consistent [OF demo_idle demo_consistent])

definition strict_pool_env :: "unit env" where
  "strict_pool_env = demo_env\<lparr>driver_dates := False, double_release := Some
     (Js_Error ''Release called on client which has already been released to the pool.'')\<rparr>"

text \<open>The first connection is released on every path of the first transaction and again by the outer
  \<open>finally\<close>: with a driver that throws at a second release, as its documentation says, no call returns a
  response, not even after it has moved the booking.\<close>

theorem rescheduleBooking_double_release:
  assumes "double_release e \<noteq> None"
  shows "\<exists>x w'. rescheduleBooking req nowUtc q e w = (Inl x, w')"
proof -
  obtain r w' where "rescheduleBooking req nowUtc q e w = (r, w')" by fastforce
  then show ?thesis
    using wp_reschedule_released [OF assms, of req nowUtc q w] by (auto simp: wp_def split: sum.splits)
qed

theorem rescheduleBooking_double_release_witness:
  "\<exists>x w'. rescheduleBooking demo_move None False strict_pool_env demo_world = (Inl x, w')"
  by (rule rescheduleBooking_double_release) (simp add: strict_pool_env_def)

text \<open>C15. With a driver that returns \<open>Date\<close> objects for the start column, as it does by default, the first
  reminder of the new booking fails and the transaction is rolled back: no booking is ever moved.\<close>

theorem rescheduleBooking_never_moves:
  assumes "idle T w" "driver_dates e"
  shows "committed (snd (rescheduleBooking req nowUtc q e w)) = T"
  using wp_rescheduleBooking_dates [OF assms, of req nowUtc q]
  by (auto simp: wp_def split: prod.splits sum.splits)

theorem rescheduleBooking_never_moves_witness:
  "committed (snd (rescheduleBooking demo_move None True demo_env demo_world)) = demo_tables"
  by (rule rescheduleBooking_never_moves [OF demo_idle]) (simp add: demo_env_def)

text \<open>The demonstration tables after \<open>b1\<close> was cancelled and its slot taken by \<open>b2\<close>.\<close>

definition rebooked_tables :: tables where
  "rebooked_tables = demo_tables\<lparr>bookings := map (\<lambda>b. b\<lparr>b_status := Cancelled\<rparr>) (bookings demo_tables)
     @ [new_booking ''s1'' ''c1'' ''UTC'' None None 1 0 ''b2'']\<rparr>"

text \<open>The duplicate in the contracts package has no status guard: moving a cancelled booking succeeds and
  opens the slot that another live booking has taken since.\<close>

theorem contracts_reschedule_frees_foreign_slot:
  "consistent rebooked_tables
   \<and> (case contracts_rescheduleBooking demo_move None (demo_env\<lparr>driver_dates := False\<rparr>)
         (demo_world\<lparr>tabs := rebooked_tables\<rparr>) of (r, w') \<Rightarrow>
        (case r of Inl _ \<Rightarrow> False | Inr x \<Rightarrow> res_status x = 201) \<and> \<not> live_held (committed w'))"
proof
  have "schema_ok rebooked_tables"
    by (auto simp: schema_ok_def keys_ok_def refs_ok_def one_live_per_slot_def live_on_def rebooked_tables_def
        demo_tables_def live_def new_booking_def)
  then show "consistent rebooked_tables"
    by (auto simp: consistent_iff rebooked_tables_def demo_tables_def live_on_def live_def new_booking_def)
  show "case contracts_rescheduleBooking demo_move None (demo_env\<lparr>driver_dates := False\<rparr>)
         (demo_world\<lparr>tabs := rebooked_tables\<rparr>) of (r, w') \<Rightarrow>
        (case r of Inl _ \<Rightarrow> False | Inr x \<Rightarrow> res_status x = 201) \<and> \<not> live_held (committed w')"
    by code_simp
qed

end
