(* ===== verification/Booking_Controller.thy ===== *)
theory Booking_Controller
  imports Reschedule
begin

text \<open>
  \<^verbatim>\<open>apps/api/src/bookings/bookings.controller.ts\<close>: the handlers of the bookings resource. A handler
  takes the parsed request and the \<open>Cookie\<close> header, and either returns the body of its response or
  throws an HTTP exception. Each handler is one program over the same database handle and the reminder
  queue.
\<close>

subsection \<open>Sessions\<close>

text \<open>\<open>cookie.match(/chronos_session=([^;]+)/)[1]\<close>: the leftmost occurrence with a value.\<close>

fun session_match :: "string \<Rightarrow> string \<Rightarrow> string option" where
  "session_match key [] = None"
| "session_match key (c # cs) =
     (if starts_with key (c # cs) \<and> takeWhile (\<lambda>x. x \<noteq> CHR '';'') (drop (length key) (c # cs)) \<noteq> []
      then Some (takeWhile (\<lambda>x. x \<noteq> CHR '';'') (drop (length key) (c # cs)))
      else session_match key cs)"

definition extractClientFromCookie :: "string option \<Rightarrow> string option" where
  "extractClientFromCookie cookie =
     (case truthy cookie of None \<Rightarrow> None | Some c \<Rightarrow> session_match ''chronos_session='' c)"

definition is_hex :: "char \<Rightarrow> bool" where
  "is_hex c \<longleftrightarrow> c \<in> set ''0123456789abcdefABCDEF''"

text \<open>The pattern of a session: five groups of hexadecimal digits between dashes.\<close>

definition is_uuid :: "string \<Rightarrow> bool" where
  "is_uuid s \<longleftrightarrow> map length (split_on (CHR ''-'') s) = [8, 4, 4, 4, 12]
     \<and> (\<forall>g \<in> set (split_on (CHR ''-'') s). list_all is_hex g)"

definition unauthorized :: "string \<Rightarrow> exn" where
  "unauthorized m = Http_Exception 401 m"

definition conflict :: "string \<Rightarrow> exn" where
  "conflict m = Http_Exception 409 m"

subsection \<open>Creating\<close>

record create_body =
  cb_slot :: string
  cb_event_type :: "string option"
  cb_key :: "string option"
  cb_tz :: "string option"

definition getProviderIdFromSlot :: "string \<Rightarrow> ('q, string option) prog" where
  "getProviderIdFromSlot slot =
     bind (query Pool (sel (slots_by_id slot))) (\<lambda>res. case res of [] \<Rightarrow> ret None | s # _ \<Rightarrow> ret (Some (s_provider s)))"

definition some_or :: "string option \<Rightarrow> string \<Rightarrow> string" where
  "some_or x d = (case truthy x of None \<Rightarrow> d | Some s \<Rightarrow> s)"

text \<open>\<open>idempotencyKey || body.idempotency_key\<close>, present when either is.\<close>

definition create_request :: "create_body \<Rightarrow> string option \<Rightarrow> string \<Rightarrow> booking_request" where
  "create_request body idempotencyKey sessionClientId =
     \<lparr>rq_provider = None, rq_event_type = truthy (cb_event_type body), rq_slot = cb_slot body,
      rq_client = sessionClientId,
      rq_key = (case truthy idempotencyKey of Some k \<Rightarrow> Some k | None \<Rightarrow> cb_key body),
      rq_tz = some_or (cb_tz body) ''UTC''\<rparr>"

definition notify_provider :: "booking_request \<Rightarrow> booking_result \<Rightarrow> ('q, unit) prog" where
  "notify_provider req result = swallow (
     bind (getProviderIdFromSlot (rq_slot req)) (\<lambda>providerId. case truthy providerId of None \<Rightarrow> ret ()
     | Some p \<Rightarrow> query Pool (insert_note ''new_booking'' (Some p) (Some (some_or (Some (rq_client req)) ''anonymous''))
         (truthy (res_booking result)) ''New Appointment'' ''A new booking was created.'')))"

definition create_reply :: "booking_result \<Rightarrow> ('q, booking_result) prog" where
  "create_reply result =
     (if res_status result = 201 then ret result
      else if res_status result = 409 then raise (conflict (some_or (res_error result) ''Slot unavailable''))
      else if res_status result = 422 then raise (conflict (some_or (res_error result) ''Idempotency conflict''))
      else if res_status result = 400 then
        (let msg = some_or (res_error result) ''Bad request'' in
         if str_includes ''event_type'' msg \<or> str_includes ''invalid_'' msg then raise (conflict msg)
         else ret (failed 400 msg))
      else raise (conflict (some_or (res_error result) ''Booking failed'')))"

definition ctl_createBooking ::
    "create_body \<Rightarrow> string option \<Rightarrow> string option \<Rightarrow> bool \<Rightarrow> ('q, booking_result) prog" where
  "ctl_createBooking body idempotencyKey cookie reminderQueue =
     (case extractClientFromCookie cookie of None \<Rightarrow> raise (unauthorized ''chronos_session required'')
      | Some sessionClientId \<Rightarrow>
        if \<not> is_uuid sessionClientId then raise (unauthorized ''invalid session'')
        else let req = create_request body idempotencyKey sessionClientId in
          bind now (\<lambda>c.
          bind (createBooking req (Some c) reminderQueue) (\<lambda>result.
          andthen (notify_provider req result) (create_reply result))))"

subsection \<open>Reading\<close>

record booking_view =
  bv_id :: string
  bv_status :: booking_status
  bv_version :: int
  bv_tz :: string
  bv_start :: int
  bv_end :: int

definition view_of :: "booking_row \<Rightarrow> slot_row \<Rightarrow> booking_view" where
  "view_of b s = \<lparr>bv_id = b_id b, bv_status = b_status b, bv_version = b_version b, bv_tz = b_tz b,
     bv_start = s_start s, bv_end = s_end s\<rparr>"

text \<open>\<open>FROM bookings b JOIN slots s ON b.slot_id = s.id\<close>, restricted to some of the bookings.\<close>

definition joined :: "(booking_row \<Rightarrow> bool) \<Rightarrow> tables \<Rightarrow> (booking_row \<times> slot_row) list" where
  "joined p t = concat (map (\<lambda>b. map (\<lambda>s. (b, s)) (slots_by_id (b_slot b) t)) (filter p (bookings t)))"

datatype 'a reply = Refused (refused_status: int) (refused_error: string) | Reply 'a

definition with_session :: "string option \<Rightarrow> (string \<Rightarrow> ('q, 'a) prog) \<Rightarrow> ('q, 'a) prog" where
  "with_session cookie f =
     (case extractClientFromCookie cookie of None \<Rightarrow> raise (unauthorized ''unauthorized'') | Some c \<Rightarrow> f c)"

definition ctl_getBooking :: "string \<Rightarrow> string option \<Rightarrow> ('q, booking_view reply) prog" where
  "ctl_getBooking i cookie = with_session cookie (\<lambda>client.
     bind (query Pool (sel (joined (\<lambda>b. b_id b = i \<and> b_client b = client)))) (\<lambda>res. case res of
       [] \<Rightarrow> ret (Refused 404 ''not_found'')
     | (b, s) # _ \<Rightarrow> ret (Reply (view_of b s))))"

definition ctl_listBookings :: "string option \<Rightarrow> ('q, booking_view list) prog" where
  "ctl_listBookings cookie = with_session cookie (\<lambda>client.
     bind (query Pool (sel (\<lambda>t. sort_key (\<lambda>(b, s). - b_created b) (joined (\<lambda>b. b_client b = client) t))))
       (\<lambda>rows. ret (map (\<lambda>(b, s). view_of b s) rows)))"

subsection \<open>Changing\<close>

datatype updated = Updated (up_id: string) (up_status: string) (up_version: int)

text \<open>The handlers that take a connection: \<open>BEGIN\<close>, the locked row, the ownership test, the step, a rollback
  and a rethrow when anything throws, and the release.\<close>

definition on_own_booking ::
    "string \<Rightarrow> string \<Rightarrow> (chan \<Rightarrow> booking_row \<Rightarrow> ('q, updated reply) prog) \<Rightarrow> ('q, updated reply) prog" where
  "on_own_booking i client step =
     bind connect (\<lambda>c. let ch = Client c in try_finally
       (try_catch (
         andthen (begin_tx ch) (
         bind (query ch (sel (bookings_by_id i))) (\<lambda>res. case res of
           [] \<Rightarrow> andthen (rollback_tx ch) (ret (Refused 404 ''not_found''))
         | b # _ \<Rightarrow>
             if b_client b \<noteq> client then andthen (rollback_tx ch) (ret (Refused 403 ''unauthorized''))
             else step ch b)))
         (\<lambda>x. andthen (swallow (rollback_tx ch)) (raise x)))
       (release c))"

definition bump_version :: "int \<Rightarrow> booking_row \<Rightarrow> booking_row" where
  "bump_version n b = b\<lparr>b_version := b_version b + 1\<rparr>"

definition ctl_updateStatus :: "string \<Rightarrow> string \<Rightarrow> string option \<Rightarrow> bool \<Rightarrow> ('q, updated reply) prog" where
  "ctl_updateStatus i st cookie reminderQueue = with_session cookie (\<lambda>client.
     on_own_booking i client (\<lambda>ch b.
       if st \<notin> {''confirmed'', ''declined'', ''completed'', ''cancelled'', ''booked''}
       then andthen (rollback_tx ch) (ret (Refused 422 ''invalid_status''))
       else andthen (query ch (set_booking i st bump_version)) (
         andthen (commit_tx ch) (
         andthen (if st = ''cancelled'' \<and> reminderQueue then swallow (cancelForBooking i) else ret ()) (
         ret (Reply (Updated i st (b_version b + 1))))))))"

definition ctl_confirmBooking :: "string \<Rightarrow> string option \<Rightarrow> ('q, updated reply) prog" where
  "ctl_confirmBooking i cookie = with_session cookie (\<lambda>client.
     on_own_booking i client (\<lambda>ch b.
       if b_status b \<noteq> Booked then andthen (rollback_tx ch) (ret (Refused 409 ''invalid_transition''))
       else andthen (query ch (set_booking i ''completed'' bump_version)) (
         andthen (commit_tx ch) (ret (Reply (Updated i ''completed'' (b_version b + 1)))))))"

definition ctl_declineBooking :: "string \<Rightarrow> string option \<Rightarrow> bool \<Rightarrow> ('q, updated reply) prog" where
  "ctl_declineBooking i cookie reminderQueue = with_session cookie (\<lambda>client.
     on_own_booking i client (\<lambda>ch b.
       if b_status b \<noteq> Booked then andthen (rollback_tx ch) (ret (Refused 409 ''invalid_transition''))
       else andthen (query ch (set_booking i ''cancelled'' (\<lambda>n b. (bump_version n b)\<lparr>b_cancelled_at := Some n\<rparr>))) (
         andthen (commit_tx ch) (
         andthen (if reminderQueue then swallow (cancelForBooking i) else ret ()) (
         ret (Reply (Updated i ''cancelled'' (b_version b + 1))))))))"

record reschedule_body =
  rb_new_slot :: string
  rb_key :: "string option"
  rb_version :: int
  rb_if_match :: int
  rb_window :: "int option"

definition reschedule_request_of :: "string \<Rightarrow> reschedule_body \<Rightarrow> reschedule_request" where
  "reschedule_request_of i body =
     \<lparr>rr_booking = i, rr_new_slot = rb_new_slot body, rr_key = rb_key body, rr_version = rb_version body,
      rr_if_match = rb_if_match body, rr_window = Some (case rb_window body of None \<Rightarrow> 24 | Some h \<Rightarrow> h)\<rparr>"

definition ctl_rescheduleBooking ::
    "string \<Rightarrow> reschedule_body \<Rightarrow> string option \<Rightarrow> bool \<Rightarrow> ('q, booking_result) prog" where
  "ctl_rescheduleBooking i body cookie reminderQueue = with_session cookie (\<lambda>client.
     bind (query Pool (sel (bookings_by_id i))) (\<lambda>res. case res of
       [] \<Rightarrow> ret (failed 404 ''not_found'')
     | b # _ \<Rightarrow>
         if b_client b \<noteq> client then ret (failed 403 ''unauthorized'')
         else bind now (\<lambda>c. rescheduleBooking (reschedule_request_of i body) (Some c) reminderQueue)))"

text \<open>\<open>parseInt\<close> with its white space and sign.\<close>

definition js_parse_int :: "string \<Rightarrow> int option" where
  "js_parse_int s = (case dropWhile (\<lambda>c. c \<in> set [CHR '' '', CHR 0x09]) s of
       [] \<Rightarrow> None
     | c # cs \<Rightarrow> if c = CHR ''-'' then map_option uminus (parse_int cs)
         else if c = CHR ''+'' then parse_int cs else parse_int (c # cs))"

definition cancel_error_text :: "cancel_error \<Rightarrow> string" where
  "cancel_error_text x = (case x of Version_Mismatch \<Rightarrow> ''version_mismatch''
     | Window_Expired \<Rightarrow> ''window_expired'' | Invalid_Transition \<Rightarrow> ''invalid_transition'')"

text \<open>The provider's window in hours, 24 when there is no row.\<close>

definition window_of_slot :: "string \<Rightarrow> tables \<Rightarrow> int list" where
  "window_of_slot slot t = concat (map (\<lambda>s. map p_window (providers_by_id (s_provider s) t)) (slots_by_id slot t))"

text \<open>\<open>cancelForBooking(b.id)\<close> on a row that was selected without its \<open>id\<close>: the driver sends
  \<open>undefined\<close> as \<open>NULL\<close>, which no comparison matches.\<close>

definition cancel_undefined :: "('q, unit) prog" where
  "cancel_undefined =
     andthen (query Pool (sel (\<lambda>_. ()))) (query Pool (cancel_reminders [] (\<lambda>_. False)))"

definition ctl_cancelBooking ::
    "string \<Rightarrow> string option \<Rightarrow> string option \<Rightarrow> bool \<Rightarrow> ('q, unit reply) prog" where
  "ctl_cancelBooking i ifMatch cookie reminderQueue = with_session cookie (\<lambda>client.
     bind (query Pool (sel (bookings_by_id i))) (\<lambda>res. case res of
       [] \<Rightarrow> ret (Refused 404 ''not_found'')
     | b # _ \<Rightarrow>
       if b_client b \<noteq> client then ret (Refused 403 ''unauthorized'')
       else if js_parse_int (some_or ifMatch ''1'') \<noteq> Some (b_version b) then ret (Refused 412 ''version_mismatch'')
       else
         bind (query Pool (sel (slots_by_id (b_slot b)))) (\<lambda>slotRes.
         bind (query Pool (sel (window_of_slot (b_slot b)))) (\<lambda>providerRes.
         let windowHours = (case providerRes of [] \<Rightarrow> 24 | h # _ \<Rightarrow> h) in
         bind now (\<lambda>nowUtc.
         let cancelRes = evaluateCancellation
           \<lparr>cr_booking = i, cr_version = b_version b, cr_if_match = b_version b, cr_now = nowUtc,
            cr_window = windowHours, cr_start = (case slotRes of [] \<Rightarrow> nowUtc | s # _ \<Rightarrow> s_start s)\<rparr>
           (b_status b) (b_version b) in
         if \<not> allowed cancelRes then
           ret (case cancel_result.error cancelRes of
               Some Version_Mismatch \<Rightarrow> Refused 412 ''version_mismatch''
             | Some Window_Expired \<Rightarrow> Refused 409 ''window_expired''
             | x \<Rightarrow> Refused 409 (case x of None \<Rightarrow> ''cancel_failed'' | Some y \<Rightarrow> cancel_error_text y))
         else
           andthen (begin_tx Pool) (
           andthen (query Pool (cancel_booking i)) (
           andthen (query Pool (set_slot_open (b_slot b))) (
           andthen (commit_tx Pool) (
           andthen (if reminderQueue then swallow cancel_undefined else ret ()) (
           ret (Reply ()))))))))))) "

subsection \<open>Transactions on one's own booking\<close>

text \<open>\<open>Q\<close> and \<open>E\<close> speak of what other sessions see, which neither a rollback nor a release changes.\<close>

lemma wp_on_own_booking:
  assumes "idle T w" "schema_ok T"
    and step: "\<And>ch b w'. \<not> no_effect e ch \<Longrightarrow> in_tx T T w' \<Longrightarrow> b \<in> set (bookings T) \<Longrightarrow> b_id b = i \<Longrightarrow>
      b_client b = client \<Longrightarrow> wp (step ch b) (\<lambda>r w''. Q r (committed w'')) (\<lambda>_ w''. E (committed w'')) e w'"
    and "\<And>st err. Q (Refused st err) T" "E T" "\<And>r t. Q r t \<Longrightarrow> E t"
  shows "wp (on_own_booking i client step) (\<lambda>r w'. Q r (committed w')) (\<lambda>_ w'. E (committed w')) e w"
  unfolding on_own_booking_def Let_def wp_bind
proof (rule wp_connect [OF assms(1)])
  fix c and w1 :: "'a world"
  assume w1: "idle T w1"
  let ?ch = "Client c"
  have refuse: "wp (andthen (rollback_tx ?ch) (ret (Refused st err))) (\<lambda>r w'. Q r (committed w'))
      (\<lambda>_ w'. E (committed w')) e w'" if "committed w' = T" for st err w'
    using that assms(4,5) by (simp, intro wp_rollback) simp_all
  have body: "wp (andthen (begin_tx ?ch) (bind (query ?ch (sel (bookings_by_id i))) (\<lambda>res. case res of
           [] \<Rightarrow> andthen (rollback_tx ?ch) (ret (Refused 404 ''not_found''))
         | b # _ \<Rightarrow>
             if b_client b \<noteq> client then andthen (rollback_tx ?ch) (ret (Refused 403 ''unauthorized''))
             else step ?ch b))) (\<lambda>r w'. Q r (committed w')) (\<lambda>_ w'. E (committed w')) e w1"
    unfolding wp_andthen wp_bind
    apply (rule wp_begin [OF w1 no_effect_Client])
     apply (rule wp_sel_in_tx, assumption)
      apply (intro wp_cases refuse)
        apply (simp_all add: in_tx_committed)
      apply (rule step)
          apply (simp_all add: bookings_by_id_Cons [OF assms(2)] idle_committed assms(5))
    done
  show "wp (try_finally (try_catch (andthen (begin_tx ?ch) (bind (query ?ch (sel (bookings_by_id i))) (\<lambda>res.
         case res of [] \<Rightarrow> andthen (rollback_tx ?ch) (ret (Refused 404 ''not_found''))
         | b # _ \<Rightarrow>
             if b_client b \<noteq> client then andthen (rollback_tx ?ch) (ret (Refused 403 ''unauthorized''))
             else step ?ch b))) (\<lambda>x. andthen (swallow (rollback_tx ?ch)) (raise x))) (release c))
     (\<lambda>r w'. Q r (committed w')) (\<lambda>_ w'. E (committed w')) e w1"
    unfolding wp_try_finally wp_try_catch
    apply (rule wp_mono [OF body])
     apply (rule wp_release; simp add: assms(6))
    apply (simp, rule wp_rollback; rule wp_release; simp)
    done
qed (simp add: idle_committed assms(5))

lemma wp_commit_own:
  assumes "in_tx T T' w" "\<not> no_effect e ch" "\<And>w'. idle T' w' \<Longrightarrow> Q () w'" "E T" "E T'"
  shows "wp (commit_tx ch) Q (\<lambda>_ w'. E (committed w')) e w"
  by (rule wp_commit [OF assms(1,2)]) (simp_all add: assms(3-5) idle_committed)

lemma wp_set_own:
  assumes "in_tx T T w" "\<And>n w'. in_tx T (with_status i s (f n) T) w' \<Longrightarrow> Q () w'" "E T"
  shows "wp (query ch (set_booking i (booking_status_text s) f)) Q (\<lambda>_ w'. E (committed w')) e w"
  by (rule wp_query_in_tx [OF assms(1)]) (auto simp: assms(3) dest: set_booking_Inr intro: assms(2))

subsection \<open>Ownership\<close>

text \<open>The handlers that change an existing booking.\<close>

datatype client_action =
    Set_Status string
  | Confirm
  | Decline
  | Move reschedule_body
  | Cancel_Booking "string option"

definition run_action :: "client_action \<Rightarrow> string \<Rightarrow> string option \<Rightarrow> bool \<Rightarrow> ('q, unit) prog" where
  "run_action a i cookie q = (case a of
       Set_Status st \<Rightarrow> bind (ctl_updateStatus i st cookie q) (\<lambda>_. ret ())
     | Confirm \<Rightarrow> bind (ctl_confirmBooking i cookie) (\<lambda>_. ret ())
     | Decline \<Rightarrow> bind (ctl_declineBooking i cookie q) (\<lambda>_. ret ())
     | Move body \<Rightarrow> bind (ctl_rescheduleBooking i body cookie q) (\<lambda>_. ret ())
     | Cancel_Booking m \<Rightarrow> bind (ctl_cancelBooking i m cookie q) (\<lambda>_. ret ()))"

lemma wp_with_session:
  "(\<And>c. extractClientFromCookie cookie = Some c \<Longrightarrow> wp (f c) Q E e w) \<Longrightarrow> (\<And>x. E x w) \<Longrightarrow>
     wp (with_session cookie f) Q E e w"
  by (simp add: with_session_def split: option.split)

lemma wp_foreign_booking:
  assumes "idle T w" "schema_ok T" "b \<in> set (bookings T)" "b_id b = i" "client \<noteq> b_client b"
  shows "wp (on_own_booking i client step) (\<lambda>_ w'. committed w' = T) (\<lambda>_ w'. committed w' = T) e w"
  by (rule wp_on_own_booking [OF assms(1,2), where Q = "\<lambda>_ t. t = T" and E = "\<lambda>t. t = T"])
    (use booking_unique [OF assms(2,3)] assms(4,5) in auto)

lemma wp_foreign_read:
  assumes "idle T w" "schema_ok T" "b \<in> set (bookings T)" "b_id b = i" "client \<noteq> b_client b"
    and "\<And>w'. idle T w' \<Longrightarrow> wp m (\<lambda>_ w'. committed w' = T) (\<lambda>_ w'. committed w' = T) e w'"
    and "\<And>w'. idle T w' \<Longrightarrow> wp m' (\<lambda>_ w'. committed w' = T) (\<lambda>_ w'. committed w' = T) e w'"
  shows "wp (bind (query Pool (sel (bookings_by_id i))) (\<lambda>res. case res of [] \<Rightarrow> m
      | b # _ \<Rightarrow> if b_client b \<noteq> client then m' else f b))
    (\<lambda>_ w'. committed w' = T) (\<lambda>_ w'. committed w' = T) e w"
  apply (simp, rule wp_sel_idle [OF assms(1)])
   apply (intro wp_cases assms(6,7))
      apply (simp_all add: idle_committed)
  using bookings_by_id_Cons [OF assms(2)] booking_unique [OF assms(2,3)] assms(4,5) by metis

lemma wp_run_action_foreign:
  assumes "idle T w" "schema_ok T" "b \<in> set (bookings T)" "b_id b = i"
    "extractClientFromCookie cookie \<noteq> Some (b_client b)"
  shows "wp (run_action a i cookie q) (\<lambda>_ w'. committed w' = T) (\<lambda>_ w'. committed w' = T) e w"
proof -
  note foreign = wp_foreign_booking [OF assms(1-4)] wp_foreign_read [OF assms(1-4)]
  have ne: "c \<noteq> b_client b" if "extractClientFromCookie cookie = Some c" for c
    using that assms(5) by auto
  show ?thesis
    unfolding run_action_def ctl_updateStatus_def ctl_confirmBooking_def ctl_declineBooking_def
      ctl_rescheduleBooking_def ctl_cancelBooking_def
    by (cases a; simp only: client_action.case wp_bind wp_ret; rule wp_with_session;
        (rule foreign, rule ne, assumption)?; simp add: idle_committed [OF assms(1)] idle_committed)
qed

subsection \<open>Agreement of the two status columns\<close>

definition agree :: "tables \<Rightarrow> bool" where
  "agree t \<longleftrightarrow> live_held t \<and> held_live t"

lemma consistent_agree: "consistent t \<longleftrightarrow> schema_ok t \<and> agree t"
  by (simp add: consistent_def agree_def)

lemma same_tables_agree:
  "same_booking_tables t t' \<Longrightarrow> agree t' = agree t" "same_booking_tables t t' \<Longrightarrow> held_live t' = held_live t"
  by (simp_all add: same_booking_tables_def agree_def live_held_def held_live_def live_on_def)

lemma near_idle_agree:
  "near_idle T1 w \<Longrightarrow> agree (committed w) = agree T1" "near_idle T1 w \<Longrightarrow> held_live (committed w) = held_live T1"
  by (auto elim!: near_idleE simp: idle_committed same_tables_agree)

lemma refs_kept_bump: "refs_kept (bump_version n)"
  "refs_kept (\<lambda>b. (bump_version n b)\<lparr>b_cancelled_at := x\<rparr>)" "refs_kept (\<lambda>b. b\<lparr>b_cancelled_at := x\<rparr>)"
  by (simp_all add: refs_kept_def keeps_refs_def bump_version_def)

lemma undisturbing_notify [quiet_intros]:
  "undisturbing (notify_provider req r)" "undisturbing cancel_undefined"
  unfolding notify_provider_def getProviderIdFromSlot_def cancel_undefined_def by (intro quiet_intros)+

lemma wp_confirm_agree:
  assumes "idle T w" "consistent T"
  shows "wp (ctl_confirmBooking i cookie) (\<lambda>_ w'. agree (committed w')) (\<lambda>_ w'. agree (committed w')) e w"
proof -
  have T: "schema_ok T" "agree T" using assms(2) by (simp_all add: consistent_agree)
  have eff: "agree (with_status i Completed (bump_version n) T)"
    if "b \<in> set (bookings T)" "b_id b = i" "b_status b = Booked" for b n
    using consistent_finish [OF assms(2) that(1,2) _ _ refs_kept_bump(1), of Completed n] that(3)
    by (simp add: consistent_agree live_def)
  show ?thesis
    unfolding ctl_confirmBooking_def
    apply (rule wp_with_session)
     apply (rule wp_on_own_booking [OF assms(1) T(1), where Q = "\<lambda>_. agree" and E = agree])
        apply (intro wp_cases)
         apply (simp, rule wp_rollback; simp add: in_tx_committed T)
        apply (simp only: wp_andthen booking_status_text.simps(2) [symmetric])
        apply (rule wp_set_own, assumption)
         apply (rule wp_commit_own, assumption, assumption)
           apply (simp_all add: T eff idle_committed [OF assms(1)] idle_committed)
    done
qed

lemma wp_cancel_agree:
  assumes "idle T w" "consistent T" "pool_pins e"
  shows "wp (ctl_cancelBooking i m cookie q) (\<lambda>_ w'. agree (committed w')) (\<lambda>_ w'. agree (committed w')) e w"
proof -
  have T: "schema_ok T" "agree T" using assms(2) by (simp_all add: consistent_agree)
  have pins: "\<not> no_effect e Pool" using assms(3) by (simp add: no_effect_def)
  have eff: "agree (freed (b_slot b) (with_status i Cancelled (\<lambda>b. b\<lparr>b_cancelled_at := Some n\<rparr>) T))"
    if "bookings_by_id i T = b # x" "b_status b = Booked" for b x n
    using consistent_cancel [OF assms(2) bookings_by_id_Cons(1,2) [OF T(1) that(1)] _ refs_kept_bump(3)] that(2)
    by (simp add: consistent_agree live_def)
  have after: "wp (if q then swallow cancel_undefined else ret ()) (\<lambda>_ w'. agree (committed w'))
      (\<lambda>_ w'. agree (committed w')) e w'" if "idle T1 w'" "agree T1" for T1 w'
    by (rule undisturbingD [OF _ near_idleI [OF that(1) same_booking_tables_refl]])
      (intro quiet_intros, simp_all add: near_idle_agree that)
  have booked: "b_status b = Booked" if "allowed (evaluateCancellation r (b_status b) v)" for b r v
    using that by (simp add: evaluateCancellation_def isValidTransition_def split: if_splits; cases "b_status b"; simp)
  show ?thesis
    unfolding ctl_cancelBooking_def Let_def
    apply (rule wp_with_session)
     apply (simp split del: if_split)
     apply (rule wp_sel_idle [OF assms(1)])
      apply (intro wp_cases)
         apply (simp_all add: idle_committed T split del: if_split)
      apply (rule wp_sel_idle, assumption)
       apply (rule wp_sel_idle, assumption)
        apply (intro wp_cases)
         apply (simp_all add: idle_committed T split del: if_split)
       apply (drule booked)
       apply (rule wp_begin [OF _ pins], assumption)
        apply (rule wp_query_in_tx, assumption)
         apply (drule cancel_booking_Inr)
         apply (rule wp_query_in_tx, assumption)
          apply (drule set_slot_open_Inr, hypsubst)
          apply (rule wp_commit [OF _ pins], assumption)
            apply (rule after, assumption)
            apply (simp_all add: idle_committed [OF assms(1)] idle_committed T eff)
    done
qed

lemma wp_decline_strands:
  assumes "idle T w" "consistent T" "b \<in> set (bookings T)" "b_id b = i" "live b"
  shows "wp (ctl_declineBooking i cookie q) (\<lambda>r w'. \<forall>u. r = Reply u \<longrightarrow> \<not> held_live (committed w')) (\<lambda>_ _. True) e w"
    and "wp (ctl_updateStatus i ''cancelled'' cookie q)
      (\<lambda>r w'. \<forall>u. r = Reply u \<longrightarrow> \<not> held_live (committed w')) (\<lambda>_ _. True) e w"
proof -
  have T: "schema_ok T" using assms(2) by (simp add: consistent_agree)
  obtain s where s: "s \<in> set (slots T)" "s_id s = b_slot b"
    using T assms(3) by (force simp: schema_ok_def refs_ok_def)
  have held: "s_status s = Held"
    using consistent_slot [OF assms(2) s(1)] live_on_unique [OF T assms(3,5)] s(2) by simp
  have strands: "\<not> held_live (with_status i Cancelled f T)" if "refs_kept f" for f
    by (rule cancel_strands [OF T assms(3,4,5) that s held])
  have after: "wp (if p then swallow (cancelForBooking i) else ret ()) (\<lambda>_ w'. \<not> held_live (committed w'))
      (\<lambda>_ _. True) e w'" if "idle T1 w'" "\<not> held_live T1" for p T1 w'
    by (rule undisturbingD [OF _ near_idleI [OF that(1) same_booking_tables_refl]])
      (intro quiet_intros, simp_all add: near_idle_agree that)
  have step: "wp (andthen (query ch (set_booking i ''cancelled'' f)) (andthen (commit_tx ch)
      (andthen (if p then swallow (cancelForBooking i) else ret ()) (ret (Reply (u :: updated))))))
      (\<lambda>r w'. \<forall>u. r = Reply u \<longrightarrow> \<not> held_live (committed w')) (\<lambda>_ _. True) e w'"
    if "\<not> no_effect e ch" "in_tx T T w'" "\<And>n. refs_kept (f n)" for ch f p u w'
    apply (simp split del: if_split)
    apply (rule wp_query_in_tx [OF that(2)])
     apply (drule set_booking_cancelled, hypsubst)
     apply (rule wp_commit [OF _ that(1)], assumption)
       apply (rule after, assumption)
       apply (simp_all add: strands that(3))
    done
  note own = wp_on_own_booking [OF assms(1) T, where Q = "\<lambda>r t. \<forall>u. r = Reply u \<longrightarrow> \<not> held_live t" and E = "\<lambda>_. True"]
  show "wp (ctl_declineBooking i cookie q) (\<lambda>r w'. \<forall>u. r = Reply u \<longrightarrow> \<not> held_live (committed w')) (\<lambda>_ _. True) e w"
    unfolding ctl_declineBooking_def
    apply (rule wp_with_session)
     apply (rule own)
        apply (intro wp_cases)
         apply (simp, rule wp_rollback; simp)
        apply (rule step, assumption, assumption)
        apply (simp_all add: refs_kept_bump)
    done
  show "wp (ctl_updateStatus i ''cancelled'' cookie q)
      (\<lambda>r w'. \<forall>u. r = Reply u \<longrightarrow> \<not> held_live (committed w')) (\<lambda>_ _. True) e w"
    unfolding ctl_updateStatus_def
    apply (rule wp_with_session)
     apply (rule own)
        apply (intro wp_cases)
         apply simp
        apply (rule step, assumption, assumption)
        apply (simp_all add: refs_kept_bump)
    done
qed

text \<open>A status the schema does not know.\<close>

lemma wp_unstorable:
  assumes "idle T w" "schema_ok T" "booking_status_of st = None"
  shows "wp (ctl_updateStatus i st cookie q) (\<lambda>r w'. (\<forall>u. r \<noteq> Reply u) \<and> committed w' = T)
    (\<lambda>_ w'. committed w' = T) e w"
proof -
  have bad: "wp (query ch (set_booking i st f)) Q (\<lambda>_ w'. committed w' = T) e w'"
    if "in_tx T T w'" "b \<in> set (bookings T)" "b_id b = i" for ch f Q b w'
    by (rule wp_query_in_tx [OF that(1)])
      (use that(2,3) assms(3) in \<open>auto simp: set_booking_def bookings_by_id_def filter_empty_conv
        simp del: booking_status_of.simps split: if_splits\<close>)
  show ?thesis
    unfolding ctl_updateStatus_def
    apply (rule wp_with_session)
     apply (rule wp_on_own_booking [OF assms(1,2), where Q = "\<lambda>r t. (\<forall>u. r \<noteq> Reply u) \<and> t = T" and E = "\<lambda>t. t = T"])
        apply (intro wp_cases)
         apply (simp, rule wp_rollback; simp add: in_tx_committed)
        apply (simp split del: if_split, rule bad; assumption)
       apply (simp_all add: idle_committed [OF assms(1)])
    done
qed

subsection \<open>The handlers keep every invariant of the tables\<close>

context table_invariant begin

lemma keeps_with_session: "(\<And>c. keeps I (f c)) \<Longrightarrow> keeps I (with_session cookie f)"
  unfolding with_session_def by (intro pres_intros)

lemma keeps_own: "(\<And>ch b. keeps I (step ch b)) \<Longrightarrow> keeps I (on_own_booking i client step)"
  unfolding on_own_booking_def Let_def by (intro pres_intros)

lemma keeps_cancel_undefined: "keeps I cancel_undefined"
  unfolding cancel_undefined_def by (intro pres_intros stmt_keeps)

lemma keeps_run_action: "keeps I (run_action a i cookie q)"
  unfolding run_action_def ctl_updateStatus_def ctl_confirmBooking_def ctl_declineBooking_def
    ctl_rescheduleBooking_def ctl_cancelBooking_def cancel_booking_def Let_def
  by (cases a)
    (simp only: client_action.case, intro pres_intros stmt_keeps keeps_with_session keeps_own keeps_cancelForBooking
      keeps_cancel_undefined keeps_rescheduleBooking; simp add: keeps_refs_def bump_version_def)+

lemma keeps_ctl_createBooking: "keeps I (ctl_createBooking body k cookie q)"
  unfolding ctl_createBooking_def notify_provider_def getProviderIdFromSlot_def create_reply_def Let_def
  by (intro pres_intros stmt_keeps keeps_createBooking)

end

lemma quiet_query_committed:
  assumes "quiet st"
  shows "same_booking_tables (committed w) (committed (snd (query ch st e w)))"
proof (cases "tx w")
  case No_Tx
  have "wp (query ch st) (\<lambda>_. near_idle (tabs w)) (\<lambda>_. near_idle (tabs w)) e w"
    by (rule undisturbing_wp [OF undisturbing_query [OF assms]], rule near_idleI [where T' = "tabs w"])
      (simp_all add: idle_def No_Tx)
  then show ?thesis
    by (auto simp: wp_def near_idle_def idle_committed committed_def [of w] No_Tx split: prod.splits sum.splits)
next
  case (In_Tx c t f)
  then show ?thesis
    by (auto simp: query_def committed_def split: option.split sum.split)
qed

lemma notify_committed: "same_booking_tables (committed w) (committed (snd (notify_provider req r e w)))"
proof -
  let ?q = "query Pool (sel (slots_by_id (rq_slot req))) :: ('a, slot_row list) prog"
  obtain x w1 where q: "?q e w = (x, w1)" by fastforce
  have 1: "same_booking_tables (committed w) (committed w1)"
    using quiet_query_committed [of "sel (slots_by_id (rq_slot req))" w Pool e] q by (simp add: quiet_stmts)
  have 2: "same_booking_tables (committed w1) (committed w2)"
    if "query Pool (insert_note ty p c bk t m) e w1 = (y, w2)" for ty p c bk t m y w2
    using quiet_query_committed [OF quiet_stmts(6), of w1 Pool ty p c bk t m e] that by simp
  show ?thesis
    unfolding notify_provider_def getProviderIdFromSlot_def
    using q 1 2 same_booking_tables_trans [OF 1]
    by (auto simp: prog_simps split: prod.splits sum.splits list.splits option.splits)
qed

lemma wp_snd: "wp m (\<lambda>_. P) (\<lambda>_. P) e w = P (snd (m e w))"
  by (simp add: wp_def split: prod.split sum.split)

lemma agree_after_create:
  assumes "idle T w" "pool_pins e" "consistent T"
  shows "agree (committed (snd (ctl_createBooking body k cookie q e w)))"
proof -
  have T: "agree (committed w)" using assms(1,3) by (simp add: consistent_agree idle_committed)
  have create: "wp (createBooking req n q) (\<lambda>_ w'. agree (committed w')) (\<lambda>_ w'. agree (committed w')) e w" for req n
    unfolding wp_snd using consistent_after_createBooking [OF assms] by (simp add: consistent_agree)
  have notify: "wp (notify_provider req r) (\<lambda>_ w'. agree (committed w')) (\<lambda>_ w'. agree (committed w')) e w1"
    if "agree (committed w1)" for req r w1
    unfolding wp_snd using that by (simp add: same_tables_agree(1) [OF notify_committed])
  have reply: "wp (create_reply r) (\<lambda>_ w'. agree (committed w')) (\<lambda>_ w'. agree (committed w')) e w1"
    if "agree (committed w1)" for r w1
    unfolding create_reply_def Let_def using that by simp
  show ?thesis
    unfolding wp_snd [where P = "\<lambda>w'. agree (committed w')", symmetric] ctl_createBooking_def Let_def
    apply (intro wp_cases)
      apply (simp_all add: T)
    apply (rule wp_mono [OF create])
     apply (rule wp_mono [OF notify], assumption)
      apply (erule reply)
     apply assumption+
    done
qed

lemma agree_after_action:
  assumes "idle T w" "pool_pins e" "consistent T" "a \<in> {Confirm, Move body, Cancel_Booking m}"
  shows "agree (committed (snd (run_action a i cookie q e w)))"
proof -
  have T: "schema_ok T" using assms(3) by (simp add: consistent_agree)
  have move: "wp (rescheduleBooking req n q) (\<lambda>_ w'. agree (committed w')) (\<lambda>_ w'. agree (committed w')) e w'"
    if "idle T w'" for req n w'
    unfolding wp_snd using consistent_after_reschedule [OF that assms(3)] by (simp add: consistent_agree)
  show ?thesis
    unfolding wp_snd [where P = "\<lambda>w'. agree (committed w')", symmetric] run_action_def
    using assms(4)
    apply (elim insertE emptyE; simp)
      apply (rule wp_confirm_agree [OF assms(1,3)])
     apply (simp add: ctl_rescheduleBooking_def)
     apply (rule wp_with_session)
      apply (simp, rule wp_sel_idle [OF assms(1)])
       apply (intro wp_cases)
         apply (use assms(3) in \<open>simp_all add: idle_committed consistent_agree move\<close>)
     apply (use assms(1,3) in \<open>simp add: idle_committed consistent_agree\<close>)
    apply (rule wp_cancel_agree [OF assms(1,3,2)])
    done
qed

subsection \<open>Properties\<close>

text \<open>C16. Only the owner changes a booking: whatever the request and whatever fails, a session other than
  the booking's client, or none, leaves what other sessions see of every table unchanged.\<close>

theorem controller_owner_only:
  assumes "idle T w" "schema_ok T" "b \<in> set (bookings T)"
    and "extractClientFromCookie cookie \<noteq> Some (b_client b)"
  shows "committed (snd (run_action a (b_id b) cookie q e w)) = T"
  using wp_run_action_foreign [OF assms(1-3) refl assms(4), of a q e]
  by (auto simp: wp_def split: prod.splits sum.splits)

definition stranger :: "string option" where
  "stranger = Some ''a=1; chronos_session=c2''"

lemma stranger_is_c2: "extractClientFromCookie stranger = Some ''c2''"
  by (simp add: extractClientFromCookie_def stranger_def)

theorem controller_owner_only_witness:
  "committed (snd (run_action Decline ''b1'' stranger True demo_env demo_world)) = demo_tables"
  using controller_owner_only [OF demo_idle demo_schema demo_booking_in(1), of stranger Decline True demo_env]
  by (simp add: stranger_is_c2 demo_booking_in(3)) (simp add: demo_booking_def demo_tables_def)


definition demo_session :: "string option" where
  "demo_session = Some ''chronos_session=c1''"


text \<open>Declining a live booking, or setting its status to cancelled, strands its slot: when either succeeds the
  slot stays held although no live booking is on it, so nobody can book it again.\<close>

theorem decline_strands_slot:
  assumes "idle T w" "consistent T" "b \<in> set (bookings T)" "live b"
    and "m \<in> {ctl_declineBooking (b_id b) cookie q, ctl_updateStatus (b_id b) ''cancelled'' cookie q}"
    and "m e w = (Inr (Reply u), w')"
  shows "\<not> held_live (committed w')"
  using assms(5,6) wp_decline_strands [OF assms(1-3) refl assms(4), of cookie q e]
  by (auto simp: wp_def)

theorem decline_strands_slot_witness:
  "case ctl_declineBooking ''b1'' demo_session True demo_env demo_world of (r, w') \<Rightarrow>
     r = Inr (Reply (Updated ''b1'' ''cancelled'' 2)) \<and> \<not> held_live (committed w')"
proof -
  obtain r w' where run: "ctl_declineBooking ''b1'' demo_session True demo_env demo_world = (r, w')" by fastforce
  have "fst (ctl_declineBooking ''b1'' demo_session True demo_env demo_world) = Inr (Reply (Updated ''b1'' ''cancelled'' 2))"
    by code_simp
  then have r: "r = Inr (Reply (Updated ''b1'' ''cancelled'' 2))" by (simp add: run)
  have "\<not> held_live (committed w')"
  proof (rule decline_strands_slot [where cookie = demo_session and q = True, OF demo_idle demo_consistent demo_booking_in(1)])
    show "live demo_booking" by (simp add: live_def demo_booking_in)
    show "ctl_declineBooking ''b1'' demo_session True demo_env demo_world
        = (Inr (Reply (Updated ''b1'' ''cancelled'' 2)), w')" using run r by simp
  qed (simp add: demo_booking_in)
  then show ?thesis by (simp add: run r)
qed

text \<open>Two of the five statuses the handler accepts, confirmed and declined, are not statuses of the
  schema: such a request never succeeds and never changes anything.\<close>

theorem updateStatus_unstorable:
  assumes "idle T w" "schema_ok T" "st \<in> {''confirmed'', ''declined''}"
  shows "(\<forall>u. fst (ctl_updateStatus i st cookie q e w) \<noteq> Inr (Reply u))
    \<and> committed (snd (ctl_updateStatus i st cookie q e w)) = T"
proof -
  have "booking_status_of st = None" using assms(3) by auto
  from wp_unstorable [OF assms(1,2) this, of i cookie q e] show ?thesis
    by (auto simp: wp_def split: prod.splits sum.splits)
qed

theorem updateStatus_unstorable_witness:
  "(\<forall>u. fst (ctl_updateStatus ''b1'' ''confirmed'' demo_session True demo_env demo_world) \<noteq> Inr (Reply u))
    \<and> committed (snd (ctl_updateStatus ''b1'' ''confirmed'' demo_session True demo_env demo_world)) = demo_tables"
  by (rule updateStatus_unstorable [OF demo_idle demo_schema]) simp

definition completed_world :: "unit world" where
  "completed_world = demo_world\<lparr>tabs := demo_tables\<lparr>bookings := map (\<lambda>b. b\<lparr>b_status := Completed\<rparr>)
     (bookings demo_tables)\<rparr>\<rparr>"

text \<open>The status handler takes no part in the state machine: a completed booking, final everywhere else, is
  set back to booked.\<close>

theorem updateStatus_bypasses_lifecycle:
  "case ctl_updateStatus ''b1'' ''booked'' demo_session True demo_env completed_world of (r, w') \<Rightarrow>
     r = Inr (Reply (Updated ''b1'' ''booked'' 2)) \<and> map b_status (bookings (committed w')) = [Booked]
     \<and> map b_status (bookings (committed completed_world)) = [Completed]
     \<and> \<not> isValidTransition Completed Booked"
  by code_simp

text \<open>The handler for creating tells the provider about a new appointment whatever came of the request: a
  request for a slot that is taken is refused with 409 and still leaves the notification.\<close>

theorem create_notifies_on_failure:
  "case ctl_createBooking (create_body.make ''s1'' None None None) None
      (Some ''chronos_session=01234567-89ab-cdef-0123-456789abcdef'') False demo_env demo_world of (r, w') \<Rightarrow>
     r = Inl (Http_Exception 409 ''slot_unavailable'')
     \<and> map n_title (notifs (committed w')) = [''New Appointment''] \<and> bookings (committed w') = bookings demo_tables"
  by code_simp

text \<open>The environment whose third call after the start of the cancellation fails, with and without a pool
  that keeps a transaction on one connection.\<close>

definition failing_env :: "nat \<Rightarrow> bool \<Rightarrow> unit env" where
  "failing_env k pins = demo_env\<lparr>fault := (\<lambda>n. if n = k then Some (Js_Error ''Connection terminated'') else None),
     pool_pins := pins\<rparr>"

text \<open>Cancelling runs its transaction on the pool and has no rollback: when opening the slot fails, the
  connection is left in an open transaction, and where the pool uses another connection for each
  statement the booking is cancelled while its slot stays held.\<close>

theorem cancel_on_pool_unsafe:
  "(case ctl_cancelBooking ''b1'' (Some ''1'') demo_session True (failing_env 5 True) demo_world of (r, w') \<Rightarrow>
      r = Inl (Js_Error ''Connection terminated'') \<and> tx w' \<noteq> No_Tx)
   \<and> (case ctl_cancelBooking ''b1'' (Some ''1'') demo_session True (failing_env 5 False) demo_world of (r, w') \<Rightarrow>
      r = Inl (Js_Error ''Connection terminated'') \<and> map b_status (bookings (committed w')) = [Cancelled]
      \<and> \<not> held_live (committed w'))"
  by code_simp

text \<open>Cancelling never touches a reminder: the handler hands the queue manager the \<open>id\<close> of a row it
  selected without that column, so whatever happens the reminder rows are as before.\<close>

theorem cancel_keeps_reminders:
  fixes w :: "'q world"
  assumes "tx w = No_Tx"
  shows "reminders (committed (snd (ctl_cancelBooking i m cookie q e w))) = reminders (tabs w)"
proof -
  have "keeps (\<lambda>t. reminders t = reminders (tabs w)) (ctl_cancelBooking i m cookie q :: ('q, unit reply) prog)"
    unfolding ctl_cancelBooking_def with_session_def cancel_undefined_def cancel_booking_def Let_def
    by (intro pres_intros)
      (auto simp: keeps_stmt_def set_booking_def set_slot_open_def cancel_reminders_def Let_def upd_where_def
        split: option.splits if_splits cancel_error.splits intro!: pres_intros)
  then have "holds (\<lambda>t. reminders t = reminders (tabs w)) (snd (ctl_cancelBooking i m cookie q e w))"
    unfolding keeps_def using assms by (simp add: holds_def committed_def)
  then show ?thesis by (simp add: holds_def)
qed

theorem cancel_keeps_reminders_witness:
  "reminders (committed (snd (ctl_cancelBooking ''b1'' (Some ''1'') demo_session True demo_env demo_world)))
     = reminders demo_tables"
  using cancel_keeps_reminders [of demo_world "''b1''" "Some ''1''" demo_session True demo_env]
  by (simp add: demo_world_def)

end
