(* ===== verification/Email.thy ===== *)
theory Email
  imports Program
begin

text \<open>
  \<^verbatim>\<open>apps/api/src/email/email.templates.ts\<close> (the three mails and their escaping) and
  \<^verbatim>\<open>apps/api/src/email/email.gateway.ts\<close> (sending through the provider and sorting its errors). Texts are
  their UTF-8 bytes. The formatting of dates (\<open>Intl\<close>) and the provider's client are parameters.
\<close>

subsection \<open>Escaping\<close>

text \<open>\<open>s.replace(/c/g, r)\<close> for a single character.\<close>

definition replace_char :: "char \<Rightarrow> string \<Rightarrow> string \<Rightarrow> string" where
  "replace_char c r s = concat (map (\<lambda>x. if x = c then r else [x]) s)"

definition escapeHtml :: "string \<Rightarrow> string" where
  "escapeHtml input =
     (if input = [] then []
      else replace_char (CHR 0x27) ''&#39;'' (replace_char (CHR 0x22) ''&quot;''
        (replace_char (CHR ''>'') ''&gt;'' (replace_char (CHR ''<'') ''&lt;''
          (replace_char (CHR ''&'') ''&amp;'' input)))))"

definition esc_char :: "char \<Rightarrow> string" where
  "esc_char c =
     (if c = CHR ''&'' then ''&amp;'' else if c = CHR ''<'' then ''&lt;'' else if c = CHR ''>'' then ''&gt;''
      else if c = CHR 0x22 then ''&quot;'' else if c = CHR 0x27 then ''&#39;'' else [c])"

lemma replace_char_append: "replace_char c r (s @ t) = replace_char c r s @ replace_char c r t"
  by (simp add: replace_char_def)

lemma replace_char_concat: "replace_char c r (concat ss) = concat (map (replace_char c r) ss)"
  by (induction ss) (simp_all add: replace_char_append, simp add: replace_char_def)

lemma escape_one:
  "replace_char (CHR 0x27) ''&#39;'' (replace_char (CHR 0x22) ''&quot;''
        (replace_char (CHR ''>'') ''&gt;'' (replace_char (CHR ''<'') ''&lt;''
          (if c = CHR ''&'' then ''&amp;'' else [c])))) = esc_char c"
  by (simp add: esc_char_def replace_char_def)

lemma escapeHtml_single_pass: "escapeHtml s = concat (map esc_char s)"
proof -
  have "escapeHtml s = concat (map (\<lambda>c. replace_char (CHR 0x27) ''&#39;'' (replace_char (CHR 0x22) ''&quot;''
        (replace_char (CHR ''>'') ''&gt;'' (replace_char (CHR ''<'') ''&lt;''
          (if c = CHR ''&'' then ''&amp;'' else [c]))))) s)"
    by (simp add: escapeHtml_def replace_char_def [of "CHR ''&''"] replace_char_concat comp_def)
  then show ?thesis by (simp only: escape_one)
qed

text \<open>The characters that can open, close or leave a tag or an attribute.\<close>

definition markup_char :: "char \<Rightarrow> bool" where
  "markup_char c \<longleftrightarrow> c = CHR ''<'' \<or> c = CHR ''>'' \<or> c = CHR 0x22 \<or> c = CHR 0x27"

lemma escapeHtml_no_markup: "filter markup_char (escapeHtml s) = []"
  by (auto simp: escapeHtml_single_pass filter_empty_conv esc_char_def markup_char_def split: if_splits)

text \<open>What a mail reader shows for an escaped text.\<close>

fun unescape_html :: "string \<Rightarrow> string" where
  "unescape_html [] = []"
| "unescape_html (c # s) =
     (if c \<noteq> CHR ''&'' then c # unescape_html s
      else if starts_with ''amp;'' s then CHR ''&'' # unescape_html (drop 4 s)
      else if starts_with ''lt;'' s then CHR ''<'' # unescape_html (drop 3 s)
      else if starts_with ''gt;'' s then CHR ''>'' # unescape_html (drop 3 s)
      else if starts_with ''quot;'' s then CHR 0x22 # unescape_html (drop 5 s)
      else if starts_with ''#39;'' s then CHR 0x27 # unescape_html (drop 4 s)
      else c # unescape_html s)"

lemma unescape_esc_char: "unescape_html (esc_char c @ s) = c # unescape_html s"
  by (simp add: esc_char_def)

subsection \<open>Templates\<close>

text \<open>A template line is a list of literal texts, escaped values and values put in as they are.\<close>

datatype part = Lit string | Esc string | Raw string

record email_data =
  ed_client :: string
  ed_provider :: string
  ed_date :: "int option"
  ed_tz :: string
  ed_offset :: int
  ed_booking :: string
  ed_unsubscribe :: string

definition reminder_html :: "email_data \<Rightarrow> string \<Rightarrow> string \<Rightarrow> part list list" where
  \<open>reminder_html d timeLabel dateTime =
    [[],
     [Lit ''    <div style="font-family: -apple-system, BlinkMacSystemFont, 'Segoe UI', Roboto, sans-serif; max-width: 600px; margin: 0 auto; padding: 20px;">''],
     [Lit ''      <div style="background: linear-gradient(135deg, #6366f1, #4f46e5); padding: 30px; border-radius: 16px 16px 0 0; color: white;">''],
     [Lit ''        <h1 style="margin: 0; font-size: 24px;">Appointment Reminder</h1>''],
     [Lit ''        <p style="margin: 10px 0 0 0; opacity: 0.9;">'', Raw timeLabel, Lit '' notice</p>''],
     [Lit ''      </div>''],
     [],
     [Lit ''      <div style="background: #f8fafc; padding: 30px; border-radius: 0 0 16px 16px; border: 1px solid #e2e8f0;">''],
     [Lit ''        <p style="font-size: 16px; margin-bottom: 20px;">''],
     [Lit ''          Hi '', Esc (ed_client d), Lit '',''],
     [Lit ''        </p>''],
     [],
     [Lit ''        <p style="font-size: 16px; margin-bottom: 20px;">''],
     [Lit ''          This is a reminder for your upcoming appointment with''],
     [Lit ''          <strong>'', Esc (ed_provider d), Lit ''</strong>.''],
     [Lit ''        </p>''],
     [],
     [Lit ''        <div style="background: white; border: 1px solid #e2e8f0; border-radius: 12px; padding: 20px; margin-bottom: 20px;">''],
     [Lit ''          <table style="width: 100%; border-collapse: collapse;">''],
     [Lit ''            <tr>''],
     [Lit ''              <td style="padding: 8px 0; color: #64748b; font-size: 14px;">Date &amp; Time</td>''],
     [Lit ''              <td style="padding: 8px 0; font-size: 14px; font-weight: 600;">'', Raw dateTime, Lit ''</td>''],
     [Lit ''            </tr>''],
     [Lit ''            <tr>''],
     [Lit ''              <td style="padding: 8px 0; color: #64748b; font-size: 14px;">Timezone</td>''],
     [Lit ''              <td style="padding: 8px 0; font-size: 14px;">'', Esc (ed_tz d), Lit ''</td>''],
     [Lit ''            </tr>''],
     [Lit ''            <tr>''],
     [Lit ''              <td style="padding: 8px 0; color: #64748b; font-size: 14px;">Booking ID</td>''],
     [Lit ''              <td style="padding: 8px 0; font-size: 14px; font-family: monospace;">'', Esc (ed_booking d), Lit ''</td>''],
     [Lit ''            </tr>''],
     [Lit ''          </table>''],
     [Lit ''        </div>''],
     [],
     [Lit ''        <p style="font-size: 14px; color: #64748b; margin-bottom: 20px;">''],
     [Lit ''          If you no longer need this appointment, please cancel at least 24 hours in advance.''],
     [Lit ''        </p>''],
     [],
     [Lit ''        <hr style="border: none; border-top: 1px solid #e2e8f0; margin: 20px 0;" />''],
     [],
     [Lit ''        <p style="font-size: 12px; color: #94a3b8; margin-bottom: 10px;">''],
     [Lit ''          <a href="'', Esc (ed_unsubscribe d), Lit ''" style="color: #6366f1; text-decoration: underline;">''],
     [Lit ''            Unsubscribe from appointment reminders''],
     [Lit ''          </a>''],
     [Lit ''        </p>''],
     [],
     [Lit ''        <p style="font-size: 11px; color: #94a3b8; margin: 0;">''],
     [Lit ''          This is an automated reminder from Chronos. Please do not reply to this email.''],
     [Lit ''        </p>''],
     [Lit ''      </div>''],
     [Lit ''    </div>''],
     [Lit ''  '']]\<close>

definition reminder_text :: "email_data \<Rightarrow> string \<Rightarrow> string \<Rightarrow> part list list" where
  \<open>reminder_text d timeLabel dateTime =
    [[Lit ''Reminder: Your appointment with '', Raw (ed_provider d), Lit '' is in '', Raw timeLabel],
     [],
     [Lit ''Date & Time: '', Raw dateTime],
     [Lit ''Timezone: '', Raw (ed_tz d)],
     [Lit ''Booking ID: '', Raw (ed_booking d)],
     [],
     [Lit ''If you no longer need this appointment, please cancel at least 24 hours in advance.''],
     [],
     [Lit ''Unsubscribe: '', Raw (ed_unsubscribe d)],
     [],
     [Lit ''This is an automated reminder from Chronos. Please do not reply to this email.'']]\<close>

definition cancellation_html :: "email_data \<Rightarrow> string \<Rightarrow> part list list" where
  \<open>cancellation_html d dateTime =
    [[],
     [Lit ''    <div style="font-family: -apple-system, BlinkMacSystemFont, 'Segoe UI', Roboto, sans-serif; max-width: 600px; margin: 0 auto; padding: 20px;">''],
     [Lit ''      <div style="background: linear-gradient(135deg, #ef4444, #dc2626); padding: 30px; border-radius: 16px 16px 0 0; color: white;">''],
     [Lit ''        <h1 style="margin: 0; font-size: 24px;">Appointment Cancelled</h1>''],
     [Lit ''        <p style="margin: 10px 0 0 0; opacity: 0.9;">Your appointment has been cancelled</p>''],
     [Lit ''      </div>''],
     [],
     [Lit ''      <div style="background: #f8fafc; padding: 30px; border-radius: 0 0 16px 16px; border: 1px solid #e2e8f0;">''],
     [Lit ''        <p style="font-size: 16px; margin-bottom: 20px;">''],
     [Lit ''          Hi, your appointment with <strong>'', Esc (ed_provider d), Lit ''</strong> on <strong>'', Raw dateTime, Lit ''</strong> has been cancelled.''],
     [Lit ''        </p>''],
     [],
     [Lit ''        <div style="background: white; border: 1px solid #e2e8f0; border-radius: 12px; padding: 20px; margin-bottom: 20px;">''],
     [Lit ''          <table style="width: 100%; border-collapse: collapse;">''],
     [Lit ''            <tr>''],
     [Lit ''              <td style="padding: 8px 0; color: #64748b; font-size: 14px;">Date &amp; Time</td>''],
     [Lit ''              <td style="padding: 8px 0; font-size: 14px;">'', Raw dateTime, Lit ''</td>''],
     [Lit ''            </tr>''],
     [Lit ''            <tr>''],
     [Lit ''              <td style="padding: 8px 0; color: #64748b; font-size: 14px;">Booking ID</td>''],
     [Lit ''              <td style="padding: 8px 0; font-size: 14px; font-family: monospace;">'', Esc (ed_booking d), Lit ''</td>''],
     [Lit ''            </tr>''],
     [Lit ''          </table>''],
     [Lit ''        </div>''],
     [],
     [Lit ''        <p style="font-size: 14px; color: #64748b;">''],
     [Lit ''          If this was a mistake, you can reschedule your appointment.''],
     [Lit ''        </p>''],
     [Lit ''      </div>''],
     [Lit ''    </div>''],
     [Lit ''  '']]\<close>

definition cancellation_text :: "email_data \<Rightarrow> string \<Rightarrow> part list list" where
  \<open>cancellation_text d dateTime =
    [[Lit ''Appointment Cancelled: Your appointment with '', Raw (ed_provider d), Lit '' on '', Raw dateTime, Lit '' has been cancelled.''],
     [],
     [Lit ''Booking ID: '', Raw (ed_booking d)],
     [],
     [Lit ''If this was a mistake, you can reschedule your appointment.'']]\<close>

definition confirmation_html :: "email_data \<Rightarrow> string \<Rightarrow> part list list" where
  \<open>confirmation_html d dateTime =
    [[],
     [Lit ''    <div style="font-family: -apple-system, BlinkMacSystemFont, 'Segoe UI', Roboto, sans-serif; max-width: 600px; margin: 0 auto; padding: 20px;">''],
     [Lit ''      <div style="background: linear-gradient(135deg, #10b981, #059669); padding: 30px; border-radius: 16px 16px 0 0; color: white;">''],
     [Lit ''        <h1 style="margin: 0; font-size: 24px;">Appointment Confirmed '', Lit [CHR 0xE2, CHR 0x9C, CHR 0x93], Lit ''</h1>''],
     [Lit ''        <p style="margin: 10px 0 0 0; opacity: 0.9;">Your appointment is scheduled</p>''],
     [Lit ''      </div>''],
     [],
     [Lit ''      <div style="background: #f8fafc; padding: 30px; border-radius: 0 0 16px 16px; border: 1px solid #e2e8f0;">''],
     [Lit ''        <p style="font-size: 16px; margin-bottom: 20px;">''],
     [Lit ''          Hi '', Esc (ed_client d), Lit '', your appointment with <strong>'', Esc (ed_provider d), Lit ''</strong> is confirmed.''],
     [Lit ''        </p>''],
     [],
     [Lit ''        <div style="background: white; border: 1px solid #e2e8f0; border-radius: 12px; padding: 20px; margin-bottom: 20px;">''],
     [Lit ''          <table style="width: 100%; border-collapse: collapse;">''],
     [Lit ''            <tr>''],
     [Lit ''              <td style="padding: 8px 0; color: #64748b; font-size: 14px;">Date &amp; Time</td>''],
     [Lit ''              <td style="padding: 8px 0; font-size: 14px; font-weight: 600;">'', Raw dateTime, Lit ''</td>''],
     [Lit ''            </tr>''],
     [Lit ''            <tr>''],
     [Lit ''              <td style="padding: 8px 0; color: #64748b; font-size: 14px;">Timezone</td>''],
     [Lit ''              <td style="padding: 8px 0; font-size: 14px;">'', Esc (ed_tz d), Lit ''</td>''],
     [Lit ''            </tr>''],
     [Lit ''            <tr>''],
     [Lit ''              <td style="padding: 8px 0; color: #64748b; font-size: 14px;">Booking ID</td>''],
     [Lit ''              <td style="padding: 8px 0; font-size: 14px; font-family: monospace;">'', Esc (ed_booking d), Lit ''</td>''],
     [Lit ''            </tr>''],
     [Lit ''          </table>''],
     [Lit ''        </div>''],
     [],
     [Lit ''        <p style="font-size: 14px; color: #64748b;">''],
     [Lit ''          You'll receive a reminder 1 hour before your appointment.''],
     [Lit ''        </p>''],
     [Lit ''      </div>''],
     [Lit ''    </div>''],
     [Lit ''  '']]\<close>

definition confirmation_text :: "email_data \<Rightarrow> string \<Rightarrow> part list list" where
  \<open>confirmation_text d dateTime =
    [[Lit ''Appointment Confirmed: Your appointment with '', Raw (ed_provider d), Lit '' on '', Raw dateTime, Lit '' is confirmed.''],
     [],
     [Lit ''Booking ID: '', Raw (ed_booking d)],
     [Lit ''Timezone: '', Raw (ed_tz d)],
     [],
     [Lit ''You'll receive a reminder 1 hour before your appointment.'']]\<close>

fun part_text :: "part \<Rightarrow> string" where
  "part_text (Lit s) = s"
| "part_text (Esc s) = escapeHtml s"
| "part_text (Raw s) = s"

definition line_text :: "part list \<Rightarrow> string" where
  "line_text ps = concat (map part_text ps)"

fun join_lines :: "string list \<Rightarrow> string" where
  "join_lines [] = []"
| "join_lines [s] = s"
| "join_lines (s # t # ss) = s @ CHR 0x0A # join_lines (t # ss)"

definition fill :: "part list list \<Rightarrow> string" where
  "fill ls = join_lines (map line_text ls)"

definition js_trim :: "string \<Rightarrow> string" where
  "js_trim s = (let sp = (\<lambda>c. c \<in> {CHR '' '', CHR 0x09, CHR 0x0A, CHR 0x0B, CHR 0x0C, CHR 0x0D}) in
     rev (dropWhile sp (rev (dropWhile sp s))))"

text \<open>\<open>new Date(d).toLocaleString('en-US', { ..., timeZone })\<close>: throws for an unknown zone; a date that
  cannot be read is \<open>Invalid Date\<close>.\<close>

record intl =
  zone_known :: "string \<Rightarrow> bool"
  long_date :: "int \<Rightarrow> string \<Rightarrow> string"

definition locale_date :: "intl \<Rightarrow> int option \<Rightarrow> string \<Rightarrow> exn + string" where
  "locale_date I d tz =
     (if \<not> zone_known I tz then Inl (Js_Error (''Invalid time zone specified: '' @ tz))
      else Inr (case d of None \<Rightarrow> ''Invalid Date'' | Some t \<Rightarrow> long_date I t tz))"

definition renderReminderEmail :: "intl \<Rightarrow> email_data \<Rightarrow> exn + (string \<times> string)" where
  "renderReminderEmail I d =
     sbind (locale_date I (ed_date d) (ed_tz d)) (\<lambda>dateTime.
     let timeLabel = (if ed_offset d = 1440 then ''24-hour'' else ''1-hour'') in
     Inr (fill (reminder_html d timeLabel dateTime), js_trim (fill (reminder_text d timeLabel dateTime))))"

definition renderCancellationEmail :: "intl \<Rightarrow> email_data \<Rightarrow> exn + (string \<times> string)" where
  "renderCancellationEmail I d =
     sbind (locale_date I (ed_date d) (ed_tz d)) (\<lambda>dateTime.
     Inr (fill (cancellation_html d dateTime), js_trim (fill (cancellation_text d dateTime))))"

definition renderConfirmationEmail :: "intl \<Rightarrow> email_data \<Rightarrow> exn + (string \<times> string)" where
  "renderConfirmationEmail I d =
     sbind (locale_date I (ed_date d) (ed_tz d)) (\<lambda>dateTime.
     Inr (fill (confirmation_html d dateTime), js_trim (fill (confirmation_text d dateTime))))"

subsection \<open>The markup of a mail\<close>

text \<open>The part of a line that decides its markup: the literals and what is put in without escaping.\<close>

fun markup_of :: "part \<Rightarrow> string" where
  "markup_of (Lit s) = filter markup_char s"
| "markup_of (Esc s) = []"
| "markup_of (Raw s) = filter markup_char s"

lemma markup_part: "filter markup_char (part_text p) = markup_of p"
  by (cases p) (simp_all add: escapeHtml_no_markup)

lemma markup_line: "filter markup_char (line_text ps) = concat (map markup_of ps)"
  by (induction ps) (simp_all add: line_text_def markup_part)

lemma markup_join: "filter markup_char (join_lines ss) = concat (map (filter markup_char) ss)"
  by (induction ss rule: join_lines.induct) (simp_all add: markup_char_def)

lemma markup_fill: "filter markup_char (fill ls) = concat (map (\<lambda>ps. concat (map markup_of ps)) ls)"
  by (simp add: fill_def markup_join markup_line comp_def)

lemma reminder_markup: "filter markup_char dt = [] \<Longrightarrow>
    filter markup_char (fill (reminder_html d l dt)) = filter markup_char (fill (reminder_html d' l dt'))"
  if "filter markup_char dt' = []"
  using that by (simp only: markup_fill reminder_html_def list.map markup_of.simps(2,3) concat.simps append_Nil append_Nil2)

lemma cancellation_markup: "filter markup_char dt = [] \<Longrightarrow>
    filter markup_char (fill (cancellation_html d dt)) = filter markup_char (fill (cancellation_html d' dt'))"
  if "filter markup_char dt' = []"
  using that by (simp only: markup_fill cancellation_html_def list.map markup_of.simps(2,3) concat.simps append_Nil append_Nil2)

lemma confirmation_markup: "filter markup_char dt = [] \<Longrightarrow>
    filter markup_char (fill (confirmation_html d dt)) = filter markup_char (fill (confirmation_html d' dt'))"
  if "filter markup_char dt' = []"
  using that by (simp only: markup_fill confirmation_html_def list.map markup_of.simps(2,3) concat.simps append_Nil append_Nil2)

text \<open>Formatted dates contain no markup.\<close>

definition plain_dates :: "intl \<Rightarrow> bool" where
  "plain_dates I \<longleftrightarrow> (\<forall>t z. filter markup_char (long_date I t z) = [])"

lemma locale_date_plain: "plain_dates I \<Longrightarrow> locale_date I d z = Inr s \<Longrightarrow> filter markup_char s = []"
  by (auto simp: locale_date_def plain_dates_def markup_char_def split: if_splits option.splits)

subsection \<open>The gateway\<close>

record mail =
  m_to :: string
  m_subject :: string
  m_html :: string
  m_text :: "string option"

record api_error =
  ae_status :: "int option"
  ae_code :: "string option"
  ae_message :: "string option"

text \<open>What the provider's client may do with a mail: accept it, return an error, or throw.\<close>

datatype send_outcome = Accepted "string option" | Returned_Error api_error | Threw api_error

definition lower_char :: "char \<Rightarrow> char" where
  "lower_char c = (let n = (of_char c :: nat) in if 65 \<le> n \<and> n \<le> 90 then char_of (n + 32) else c)"

definition lower_text :: "string \<Rightarrow> string" where
  "lower_text s = map lower_char s"

definition isTransientError :: "api_error \<Rightarrow> bool" where
  "isTransientError err =
     (if (case ae_status err of None \<Rightarrow> False | Some st \<Rightarrow> st = 429 \<or> 500 \<le> st) then True
      else if ae_code err \<in> {Some ''ECONNREFUSED'', Some ''ETIMEDOUT'', Some ''ENOTFOUND''} then True
      else let message = (case ae_message err of None \<Rightarrow> [] | Some m \<Rightarrow> lower_text m) in
        if str_includes ''rate limit'' message \<or> str_includes ''too many requests'' message then True
        else if str_includes ''timeout'' message \<or> str_includes ''network'' message then True
        else str_includes ''503'' message \<or> str_includes ''502'' message \<or> str_includes ''504'' message)"

text \<open>A template string shows a missing message as \<open>undefined\<close>.\<close>

definition shown :: "string option \<Rightarrow> string" where
  "shown m = (case m of None \<Rightarrow> ''undefined'' | Some s \<Rightarrow> s)"

text \<open>The provider: whether it is configured, and what it does with the mail and key of its \<open>n\<close>-th call.
  The programs that send keep the mails given to it as the state of the queue component.\<close>

record mailer =
  is_configured :: bool
  deliver :: "nat \<Rightarrow> mail \<Rightarrow> string \<Rightarrow> send_outcome"

type_synonym outbox = "(mail \<times> string) list"

definition client_send :: "mailer \<Rightarrow> mail \<Rightarrow> string \<Rightarrow> (outbox, send_outcome) prog" where
  "client_send M m key e w = (Inr (deliver M (tick w) m key), (bump w)\<lparr>queue := queue w @ [(m, key)]\<rparr>)"

definition email_send :: "mailer \<Rightarrow> mail \<Rightarrow> string \<Rightarrow> (outbox, string) prog" where
  "email_send M m key =
     (if \<not> is_configured M
      then raise (Email_Error ''Email gateway not configured: EMAIL_API_KEY is missing'' ''configuration'' None)
      else bind (client_send M m key) (\<lambda>result. case result of
          Returned_Error err \<Rightarrow>
            raise (Email_Error (''Resend error: '' @ shown (ae_message err))
              (if isTransientError err then ''transient'' else ''permanent'') None)
        | Accepted i \<Rightarrow> ret (case i of None \<Rightarrow> ''unknown'' | Some x \<Rightarrow> x)
        | Threw err \<Rightarrow>
            if isTransientError err
            then raise (Email_Error (''Transient email error: '' @ shown (ae_message err)) ''transient'' None)
            else raise (Email_Error (''Permanent email error: '' @ shown (ae_message err)) ''permanent'' None)))"

record gateway_health =
  gh_configured :: bool
  gh_reachable :: bool
  gh_error :: string

definition healthCheck :: "mailer \<Rightarrow> gateway_health" where
  "healthCheck M = (if \<not> is_configured M
     then \<lparr>gh_configured = False, gh_reachable = False, gh_error = ''EMAIL_API_KEY missing''\<rparr>
     else \<lparr>gh_configured = True, gh_reachable = False, gh_error = ''REACHABILITY_NOT_VERIFIED''\<rparr>)"

text \<open>The gateway raises e-mail errors only, gives a mail to the provider at most once and touches nothing else.\<close>

lemma wp_email_send:
  assumes "\<And>i w'. is_configured M \<Longrightarrow> deliver M (tick w) m key = Accepted i \<Longrightarrow>
      w' = (bump w)\<lparr>queue := queue w @ [(m, key)]\<rparr> \<Longrightarrow> Q (case i of None \<Rightarrow> ''unknown'' | Some x \<Rightarrow> x) w'"
    and "\<And>t c w'. w' = (bump w)\<lparr>queue := queue w @ [(m, key)]\<rparr> \<Longrightarrow> c \<in> {''transient'', ''permanent''} \<Longrightarrow>
      E (Email_Error t c None) w'"
    and "\<And>t. \<not> is_configured M \<Longrightarrow> E (Email_Error t ''configuration'' None) w"
  shows "wp (email_send M m key) Q E e w"
proof (cases "is_configured M")
  case False
  then show ?thesis using assms(3) by (simp add: email_send_def)
next
  case True
  have "wp (client_send M m key) Q' E e w = Q' (deliver M (tick w) m key) ((bump w)\<lparr>queue := queue w @ [(m, key)]\<rparr>)" for Q'
    by (simp add: wp_def client_send_def)
  then show ?thesis
    using True assms(1) assms(2) by (auto simp: email_send_def split: send_outcome.split)
qed

subsection \<open>Properties\<close>

datatype mail_kind = Reminder_Mail | Cancellation_Mail | Confirmation_Mail

definition render_mail :: "mail_kind \<Rightarrow> intl \<Rightarrow> email_data \<Rightarrow> exn + (string \<times> string)" where
  "render_mail k I d = (case k of Reminder_Mail \<Rightarrow> renderReminderEmail I d
     | Cancellation_Mail \<Rightarrow> renderCancellationEmail I d | Confirmation_Mail \<Rightarrow> renderConfirmationEmail I d)"

text \<open>C20. Values put into a mail cannot change its markup: whatever names, identifiers, zones and links two
  mails of the same kind carry, their HTML has the same tags and quotes in the same order, as long as
  formatted dates contain none.\<close>

theorem mail_markup_fixed:
  assumes "plain_dates I" "render_mail k I d = Inr (h, t)" "render_mail k I d' = Inr (h', t')"
    and "ed_offset d = 1440 \<longleftrightarrow> ed_offset d' = 1440"
  shows "filter markup_char h = filter markup_char h'"
proof (cases k)
  case Reminder_Mail
  then show ?thesis
    using assms by (auto simp: render_mail_def renderReminderEmail_def sbind_Inr_iff Let_def
        dest!: locale_date_plain [OF assms(1)] intro: reminder_markup)
next
  case Cancellation_Mail
  then show ?thesis
    using assms by (auto simp: render_mail_def renderCancellationEmail_def sbind_Inr_iff
        dest!: locale_date_plain [OF assms(1)] intro: cancellation_markup)
next
  case Confirmation_Mail
  then show ?thesis
    using assms by (auto simp: render_mail_def renderConfirmationEmail_def sbind_Inr_iff
        dest!: locale_date_plain [OF assms(1)] intro: confirmation_markup)
qed

definition demo_intl :: intl where
  "demo_intl = \<lparr>zone_known = (\<lambda>z. z = ''UTC''), long_date = (\<lambda>_ _. ''Sunday, November 1, 2026 at 04:00 PM'')\<rparr>"

definition demo_mail_data :: "string \<Rightarrow> email_data" where
  "demo_mail_data name = \<lparr>ed_client = name, ed_provider = ''Ada'', ed_date = Some 1793548800000, ed_tz = ''UTC'',
     ed_offset = 60, ed_booking = ''b1'', ed_unsubscribe = ''https://x.org/u''\<rparr>"

theorem mail_markup_fixed_witness:
  "\<exists>h t h' t'. render_mail Reminder_Mail demo_intl (demo_mail_data ''<script>'') = Inr (h, t)
     \<and> render_mail Reminder_Mail demo_intl (demo_mail_data ''Bob'') = Inr (h', t')
     \<and> filter markup_char h = filter markup_char h'"
proof -
  have plain: "plain_dates demo_intl" by (simp add: plain_dates_def demo_intl_def markup_char_def)
  have "\<exists>h t. render_mail Reminder_Mail demo_intl (demo_mail_data n) = Inr (h, t)" for n
    by (simp add: render_mail_def renderReminderEmail_def sbind_Inr_iff Let_def locale_date_def demo_intl_def
        demo_mail_data_def)
  then obtain h t h' t' where "render_mail Reminder_Mail demo_intl (demo_mail_data ''<script>'') = Inr (h, t)"
    "render_mail Reminder_Mail demo_intl (demo_mail_data ''Bob'') = Inr (h', t')" by metis
  moreover from mail_markup_fixed [OF plain this] have "filter markup_char h = filter markup_char h'"
    by (simp add: demo_mail_data_def)
  ultimately show ?thesis by blast
qed

text \<open>Escaping is faithful and safe: it takes one pass over the text, leaves no character that could open or
  leave a tag or an attribute, and a reader that resolves the entities shows the original text.\<close>

theorem escapeHtml_roundtrip:
  "unescape_html (escapeHtml s) = s \<and> filter markup_char (escapeHtml s) = []"
proof
  have "unescape_html (concat (map esc_char s)) = s"
    by (induction s) (simp_all add: unescape_esc_char)
  then show "unescape_html (escapeHtml s) = s" by (simp add: escapeHtml_single_pass)
qed (rule escapeHtml_no_markup)

end
