(* ===== verification/Unsubscribe.thy ===== *)
theory Unsubscribe
  imports Quiet Json
begin

text \<open>
  \<^verbatim>\<open>apps/api/src/email/unsubscribe.token.ts\<close> and \<^verbatim>\<open>unsubscribe.controller.ts\<close>: the signed link of a
  reminder mail. The keyed hash of the standard library is a parameter, \<open>mac\<close>, giving the text of the
  signature; base64url, the JSON text of the payload and its reading are modelled.
\<close>

subsection \<open>base64url\<close>

definition b64_char :: "nat \<Rightarrow> char" where
  "b64_char i =
     (if i < 26 then char_of (65 + i) else if i < 52 then char_of (71 + i) else if i < 62 then char_of (i - 4)
      else if i = 62 then CHR ''-'' else CHR ''_'')"

text \<open>The reader also takes the standard alphabet and skips everything else.\<close>

definition b64_val :: "char \<Rightarrow> nat option" where
  "b64_val c = (let n = (of_char c :: nat) in
     if 65 \<le> n \<and> n \<le> 90 then Some (n - 65) else if 97 \<le> n \<and> n \<le> 122 then Some (n - 71)
     else if 48 \<le> n \<and> n \<le> 57 then Some (n + 4) else if n = 45 \<or> n = 43 then Some 62
     else if n = 95 \<or> n = 47 then Some 63 else None)"

fun b64_digits :: "nat list \<Rightarrow> nat list" where
  "b64_digits [] = []"
| "b64_digits [a] = [a div 4, a mod 4 * 16]"
| "b64_digits [a, b] = [a div 4, a mod 4 * 16 + b div 16, b mod 16 * 4]"
| "b64_digits (a # b # c # r) =
     [a div 4, a mod 4 * 16 + b div 16, b mod 16 * 4 + c div 64, c mod 64] @ b64_digits r"

fun b64_bytes :: "nat list \<Rightarrow> nat list" where
  "b64_bytes [] = []"
| "b64_bytes [x] = []"
| "b64_bytes [x, y] = [x * 4 + y div 16]"
| "b64_bytes [x, y, z] = [x * 4 + y div 16, y mod 16 * 16 + z div 4]"
| "b64_bytes (x # y # z # u # r) =
     [x * 4 + y div 16, y mod 16 * 16 + z div 4, z mod 4 * 64 + u] @ b64_bytes r"

definition base64url :: "string \<Rightarrow> string" where
  "base64url s = map b64_char (b64_digits (map of_char s))"

definition from_base64url :: "string \<Rightarrow> string" where
  "from_base64url s = map char_of (b64_bytes (List.map_filter b64_val s))"

lemma b64_bytes_digits: "list_all (\<lambda>n. n < 256) ns \<Longrightarrow> b64_bytes (b64_digits ns) = ns"
proof (induction ns rule: b64_digits.induct)
  case (4 a b c r)
  have "(a mod 4 * 16 + b div 16) div 16 = a mod 4" "(b mod 16 * 4 + c div 64) div 4 = b mod 16"
    "(a mod 4 * 16 + b div 16) mod 16 = b div 16" "(b mod 16 * 4 + c div 64) mod 4 = c div 64"
    using 4 by (simp_all add: div_less_iff_less_mult)
  then show ?case using 4 by (simp add: mult.commute [of _ 4] mult.commute [of _ 16] mult.commute [of _ 64])
next
  case (3 a b)
  have "(a mod 4 * 16 + b div 16) div 16 = a mod 4" "(a mod 4 * 16 + b div 16) mod 16 = b div 16"
    using 3 by (simp_all add: div_less_iff_less_mult)
  then show ?case by (simp add: mult.commute [of _ 4] mult.commute [of _ 16])
qed (simp_all add: mult.commute [of _ 4])

lemma b64_bounds:
  "b < 256 \<Longrightarrow> a mod 4 * 16 + b div 16 < (64::nat)" "c < 256 \<Longrightarrow> b mod 16 * 4 + c div 64 < (64::nat)"
  "a < 256 \<Longrightarrow> a div 4 < (64::nat)" "a mod 4 * 16 < (64::nat)" "b mod 16 * 4 < (64::nat)"
  using mod_less_divisor [of 4 a] mod_less_divisor [of 16 b] less_mult_imp_div_less [of b 16 16]
    less_mult_imp_div_less [of c 4 64] less_mult_imp_div_less [of a 64 4]
  by simp_all

lemma b64_digits_small: "list_all (\<lambda>n. n < 256) ns \<Longrightarrow> list_all (\<lambda>n. n < 64) (b64_digits ns)"
  by (induction ns rule: b64_digits.induct) (simp_all add: b64_bounds)

lemma b64_val_char: "i < 64 \<Longrightarrow> b64_val (b64_char i) = Some i"
proof -
  assume i: "i < 64"
  have [simp]: "(i - 4) mod 256 = i - 4" using i by simp
  consider "i < 26" | "26 \<le> i \<and> i < 52" | "52 \<le> i \<and> i < 62" | "i = 62" | "i = 63" using i by linarith
  then show ?thesis by cases (auto simp: b64_val_def b64_char_def Let_def)
qed

lemma map_filter_b64: "list_all (\<lambda>n. n < 64) ns \<Longrightarrow> List.map_filter b64_val (map b64_char ns) = ns"
  by (induction ns) (simp_all add: b64_val_char List.map_filter_simps)

lemma base64url_roundtrip: "from_base64url (base64url s) = s"
proof -
  have small: "list_all (\<lambda>n. n < 256) (map of_char s :: nat list)"
    by (simp add: list_all_iff)
  show ?thesis
    unfolding from_base64url_def base64url_def
    by (simp add: map_filter_b64 [OF b64_digits_small [OF small]] b64_bytes_digits [OF small] comp_def)
qed

lemma base64url_no_dot: "CHR ''.'' \<notin> set (base64url s)"
proof -
  have small: "list_all (\<lambda>n. n < 64) (b64_digits (map of_char s))"
    by (rule b64_digits_small) (simp add: list_all_iff)
  have "b64_val (CHR ''.'') = None" by (simp add: b64_val_def)
  then have dot: "b64_char i \<noteq> CHR ''.''" if "i < 64" for i
    using b64_val_char [OF that] by (metis option.distinct(1))
  show ?thesis
  proof
    assume "CHR ''.'' \<in> set (base64url s)"
    then obtain i where i: "i \<in> set (b64_digits (map of_char s))" "CHR ''.'' = b64_char i"
      unfolding base64url_def set_map by (rule imageE)
    have "i < 64" using small i(1) by (simp add: list_all_iff)
    then show False by (rule notE [OF dot i(2) [symmetric]])
  qed
qed

subsection \<open>Tokens\<close>

datatype json_value = J_Text string | J_Number int

definition read_number :: "string \<Rightarrow> (int \<times> string) option" where
  "read_number s =
     (let (neg, t) = (if starts_with ''-'' s then (True, tl s) else (False, s));
          d = takeWhile is_digit t in
      if d = [] then None else Some (if neg then - digits_val d else digits_val d, drop (length d) t))"

definition read_value :: "string \<Rightarrow> (json_value \<times> string) option" where
  "read_value s =
     (if starts_with [quote_char] s then map_option (\<lambda>(v, r). (J_Text v, r)) (read_string (tl s))
      else map_option (\<lambda>(v, r). (J_Number v, r)) (read_number s))"

text \<open>\<open>JSON.parse\<close> on the objects the program writes: one level, texts and integers, no white space.\<close>

fun read_fields :: "nat \<Rightarrow> string \<Rightarrow> (string \<times> json_value) list option" where
  "read_fields 0 s = None"
| "read_fields (Suc n) s =
     (if \<not> starts_with [quote_char] s then None
      else case read_string (tl s) of None \<Rightarrow> None
      | Some (k, t) \<Rightarrow>
          if \<not> starts_with '':'' t then None
          else case read_value (tl t) of None \<Rightarrow> None
          | Some (v, u) \<Rightarrow>
              if u = ''}'' then Some [(k, v)]
              else if starts_with '','' u then map_option ((#) (k, v)) (read_fields n (tl u)) else None)"

definition json_parse :: "string \<Rightarrow> (string \<times> json_value) list option" where
  "json_parse s = (if starts_with ''{'' s then read_fields (length s) (tl s) else None)"

record unsubscribe_payload =
  up_sub :: string
  up_purpose :: string
  up_exp :: int

definition EXPIRY_MS :: int where
  "EXPIRY_MS = 7 * 24 * 60 * 60 * 1000"

definition payload_text :: "string \<Rightarrow> int \<Rightarrow> string" where
  "payload_text sub ex = CHR ''{'' # join_commas
     [json_string ''sub'' @ CHR '':'' # json_string sub,
      json_string ''purpose'' @ CHR '':'' # json_string ''reminder-unsubscribe'',
      json_string ''exp'' @ CHR '':'' # int_text ex] @ ''}''"

text \<open>\<open>digest\<close> is HMAC-SHA256 under the secret.\<close>

definition signToken :: "(string \<Rightarrow> string) \<Rightarrow> int \<Rightarrow> string \<Rightarrow> string" where
  "signToken digest now_ms clientId =
     (let ex = now_ms div 1000 + EXPIRY_MS div 1000;
          payload = payload_text clientId ex;
          sig = base64url (digest payload)
      in base64url payload @ ''.'' @ sig)"

definition payload_of :: "string \<Rightarrow> unsubscribe_payload option" where
  "payload_of payload = (case json_parse payload of None \<Rightarrow> None
     | Some fs \<Rightarrow> let field = map_of (rev fs) in
         (case (field ''sub'', field ''purpose'', field ''exp'') of
            (Some (J_Text sub), Some (J_Text purpose), Some (J_Number ex)) \<Rightarrow>
              Some \<lparr>up_sub = sub, up_purpose = purpose, up_exp = ex\<rparr>
          | _ \<Rightarrow> None))"

definition verifyToken :: "(string \<Rightarrow> string) \<Rightarrow> int \<Rightarrow> string \<Rightarrow> unsubscribe_payload option" where
  "verifyToken digest now_ms token =
     (case split_on (CHR ''.'') token of
        b64 # sig # _ \<Rightarrow>
          if b64 = [] \<or> sig = [] then None
          else let payload = from_base64url b64; expectedSig = base64url (digest payload) in
            if length sig \<noteq> length expectedSig then None
            else if from_base64url sig \<noteq> from_base64url expectedSig then None
            else (case payload_of payload of None \<Rightarrow> None
              | Some data \<Rightarrow>
                  if up_purpose data \<noteq> ''reminder-unsubscribe'' then None
                  else if up_exp data < now_ms div 1000 then None
                  else if up_sub data = [] then None else Some data)
      | _ \<Rightarrow> None)"

subsection \<open>The controller\<close>

text \<open>\<open>UPDATE clients SET reminders_opt_out = true WHERE id = ...\<close>.\<close>

definition set_opt_out :: "string \<Rightarrow> unit stmt" where
  "set_opt_out i n u t =
     Inr ((), t\<lparr>clients := upd_where (\<lambda>c. c_id c = i) (\<lambda>c. c\<lparr>c_opt_out := True\<rparr>) (clients t)\<rparr>)"

definition unsubscribeReminders :: "(string \<Rightarrow> string) \<Rightarrow> chan \<Rightarrow> string option \<Rightarrow> ('q, string) prog" where
  "unsubscribeReminders digest ch token =
     (case truthy token of None \<Rightarrow> raise (Http_Exception 400 ''Invalid unsubscribe request.'')
      | Some tok \<Rightarrow> bind now (\<lambda>c. case verifyToken digest c tok of
            None \<Rightarrow> raise (Http_Exception 400 ''Invalid or expired unsubscribe link.'')
          | Some payload \<Rightarrow>
              bind (query ch (sel (clients_by_id (up_sub payload)))) (\<lambda>client. case client of
                [] \<Rightarrow> raise (Http_Exception 404 ''Client not found.'')
              | _ # _ \<Rightarrow> andthen (query ch (set_opt_out (up_sub payload)))
                  (ret ''You have been unsubscribed from appointment reminders.''))))"

subsection \<open>Reading back what was signed\<close>

lemma read_json_string: "starts_with [quote_char] (json_string k @ r)" "read_string (tl (json_string k @ r)) = Some (k, r)"
  by (simp_all add: json_string_def read_string_quoted)

lemma starts_with_one: "starts_with [c] (c # s)"
  by simp

lemma int_text_shape:
  "takeWhile is_digit (nat_text n @ ''}'') = nat_text n" "nat_text n \<noteq> []" "\<not> starts_with ''-'' (nat_text n @ r)"
proof -
  have d: "list_all is_digit (nat_text n)" using nat_text_value by blast
  then show "takeWhile is_digit (nat_text n @ ''}'') = nat_text n"
    by (subst takeWhile_append2) (auto simp: list_all_iff is_digit_def)
  show ne: "nat_text n \<noteq> []" by (subst nat_text.simps) simp
  show "\<not> starts_with ''-'' (nat_text n @ r)"
    using d ne by (cases "nat_text n") auto
qed

lemma read_number_text: "read_number (int_text n @ ''}'') = Some (n, ''}'')"
  using nat_text_value [of "nat n"] nat_text_value [of "nat (- n)"]
  by (auto simp: read_number_def int_text_def int_text_shape)

lemma not_quote_int: "\<not> starts_with [quote_char] (int_text n @ r)"
proof -
  have "\<not> is_digit quote_char" by (simp add: is_digit_def quote_char_def)
  then have "\<not> starts_with [quote_char] (nat_text k @ r)" for k
    using nat_text_value [of k] int_text_shape(2) [of k] by (cases "nat_text k") auto
  then show ?thesis by (simp add: int_text_def quote_char_def)
qed

lemma read_value_text: "read_value (json_string v @ r) = Some (J_Text v, r)"
  "read_value (int_text n @ ''}'') = Some (J_Number n, ''}'')"
  by (simp_all only: read_value_def read_json_string if_True not_quote_int if_False read_number_text option.map prod.case)

lemma read_field_text:
  "read_value (v @ r) = Some (x, r) \<Longrightarrow> read_fields (Suc n) (json_string k @ '':'' @ v @ r) =
     (if r = ''}'' then Some [(k, x)]
      else if starts_with '','' r then map_option ((#) (k, x)) (read_fields n (tl r)) else None)"
  by (simp add: read_json_string)

lemma json_parse_payload:
  "json_parse (payload_text sub ex) =
     Some [(''sub'', J_Text sub), (''purpose'', J_Text ''reminder-unsubscribe''), (''exp'', J_Number ex)]"
proof -
  define A where "A = (\<lambda>r. json_string ''sub'' @ '':'' @ json_string sub @ r)"
  define B where "B = (\<lambda>r. json_string ''purpose'' @ '':'' @ json_string ''reminder-unsubscribe'' @ r)"
  define C where "C = json_string ''exp'' @ '':'' @ int_text ex @ ''}''"
  have t: "payload_text sub ex = CHR ''{'' # A (CHR '','' # B (CHR '','' # C))"
    by (simp add: payload_text_def A_def B_def C_def)
  have rC: "read_fields (Suc n) C = Some [(''exp'', J_Number ex)]" for n
    unfolding C_def by (simp only: read_field_text [OF read_value_text(2)] if_True simp_thms)
  have rB: "read_fields (Suc n) (B (CHR '','' # r)) =
      map_option ((#) (''purpose'', J_Text ''reminder-unsubscribe'')) (read_fields n r)" for n r
    unfolding B_def by (simp only: read_field_text [OF read_value_text(1)]) simp
  have rA: "read_fields (Suc n) (A (CHR '','' # r)) = map_option ((#) (''sub'', J_Text sub)) (read_fields n r)" for n r
    unfolding A_def by (simp only: read_field_text [OF read_value_text(1)]) simp
  have "3 \<le> length (payload_text sub ex)" by (simp add: payload_text_def json_string_def)
  then obtain n where "length (payload_text sub ex) = Suc (Suc (Suc n))"
    by (metis le_Suc_ex add_Suc numeral_3_eq_3 plus_nat.add_0)
  then show ?thesis
    unfolding json_parse_def by (simp only: t) (simp del: read_fields.simps add: rA rB rC)
qed

lemma payload_of_text:
  "payload_of (payload_text sub ex) = Some \<lparr>up_sub = sub, up_purpose = ''reminder-unsubscribe'', up_exp = ex\<rparr>"
  by (simp add: payload_of_def json_parse_payload)

lemma verify_signed:
  assumes "digest (payload_text sub (now_ms div 1000 + 604800)) \<noteq> []" "sub \<noteq> []"
  shows "verifyToken digest later (signToken digest now_ms sub) =
    (if later div 1000 \<le> now_ms div 1000 + 604800
     then Some \<lparr>up_sub = sub, up_purpose = ''reminder-unsubscribe'', up_exp = now_ms div 1000 + 604800\<rparr> else None)"
proof -
  define P where "P = payload_text sub (now_ms div 1000 + 604800)"
  have ne: "base64url s \<noteq> []" if "s \<noteq> []" for s
    using base64url_roundtrip [of s] that by (auto simp: from_base64url_def)
  have split: "split_on (CHR ''.'') (signToken digest now_ms sub) = [base64url P, base64url (digest P)]"
    using split_on_append_sep [OF base64url_no_dot] split_on_no_sep [OF base64url_no_dot]
    by (simp add: signToken_def EXPIRY_MS_def P_def Let_def)
  have "P \<noteq> []" by (simp add: P_def payload_text_def)
  then show ?thesis
    using assms by (simp add: verifyToken_def split ne base64url_roundtrip payload_of_text P_def [symmetric])
      (simp add: P_def payload_of_text)
qed

subsection \<open>Properties\<close>

text \<open>C21. A signed link works for seven days and no longer: verifying a token signed for a client gives that
  client back up to and including the second of its expiry, and nothing afterwards.\<close>

theorem token_roundtrip:
  assumes "\<And>s. digest s \<noteq> []" "sub \<noteq> []"
  shows "map_option up_sub (verifyToken digest later (signToken digest now_ms sub)) =
    (if later div 1000 \<le> now_ms div 1000 + 7 * 24 * 60 * 60 then Some sub else None)"
  using verify_signed [of digest sub now_ms later] assms by simp

theorem token_roundtrip_witness:
  "map_option up_sub (verifyToken (\<lambda>s. rev s @ ''x'') 1793100000000 (signToken (\<lambda>s. rev s @ ''x'') 1793000000000 ''c1''))
     = Some ''c1''"
  by (simp add: token_roundtrip)

text \<open>C22. Only a signed link opts anyone out: whatever fails, a request changes no table but the clients', and in
  it at most the opt-out mark of the client whose payload the token carries under a valid signature.\<close>

theorem unsubscribe_only_signed:
  assumes "idle T w"
  shows "case unsubscribeReminders digest ch token e w of (r, w') \<Rightarrow>
     idle T w' \<or> (\<exists>tok p b64 sig rest. token = Some tok \<and> split_on (CHR ''.'') tok = b64 # sig # rest
        \<and> from_base64url sig = digest (from_base64url b64) \<and> payload_of (from_base64url b64) = Some p
        \<and> clock_ms e (tick w) div 1000 \<le> up_exp p
        \<and> idle (T\<lparr>clients := upd_where (\<lambda>c. c_id c = up_sub p) (\<lambda>c. c\<lparr>c_opt_out := True\<rparr>) (clients T)\<rparr>) w')"
    (is "case ?run of (r, w') \<Rightarrow> ?P w'")
proof -
  have signed: "\<exists>b64 sig rest. split_on (CHR ''.'') tok = b64 # sig # rest
      \<and> from_base64url sig = digest (from_base64url b64) \<and> payload_of (from_base64url b64) = Some p
      \<and> c div 1000 \<le> up_exp p" if "verifyToken digest c tok = Some p" for c tok p
    using that by (auto simp: verifyToken_def Let_def base64url_roundtrip split: list.splits option.splits if_splits)
  have "wp (unsubscribeReminders digest ch token) (\<lambda>_. ?P) (\<lambda>_. ?P) e w"
    unfolding unsubscribeReminders_def
    apply (intro wp_cases)
     apply (simp add: assms)
    apply simp
    apply (intro wp_cases)
     apply (simp add: assms)
    apply simp
    apply (rule wp_sel_idle [OF assms])
     apply (intro wp_cases)
      apply simp
     apply simp
     apply (rule wp_query_idle, assumption)
      apply (drule signed)
      apply (auto simp: set_opt_out_def truthy_eq_Some)
    done
  then show ?thesis by (auto simp: wp_def split: prod.splits sum.splits)
qed

theorem unsubscribe_only_signed_witness:
  "case unsubscribeReminders (\<lambda>_. ''x'') Pool (Some ''e30.eA'') demo_env demo_world of (r, w') \<Rightarrow>
     idle demo_tables w' \<or> (\<exists>tok p b64 sig rest. Some ''e30.eA'' = Some tok \<and> split_on (CHR ''.'') tok = b64 # sig # rest
        \<and> from_base64url sig = ''x'' \<and> payload_of (from_base64url b64) = Some p
        \<and> clock_ms demo_env (tick demo_world) div 1000 \<le> up_exp p
        \<and> idle (demo_tables\<lparr>clients := upd_where (\<lambda>c. c_id c = up_sub p) (\<lambda>c. c\<lparr>c_opt_out := True\<rparr>)
            (clients demo_tables)\<rparr>) w')"
  by (rule unsubscribe_only_signed [OF demo_idle, where digest = "\<lambda>_. ''x''"])

end
