(* ===== verification/Reminder_Worker.thy ===== *)
theory Reminder_Worker
  imports Email Unsubscribe Lifecycle
begin

text \<open>
  \<^verbatim>\<open>apps/api/src/reminders/reminder.worker.ts\<close> with the error classes of \<^verbatim>\<open>reminder.types.ts\<close>: claiming a
  reminder, sending it through the e-mail gateway and recording what came of it. The mails given to
  the provider are the state of the queue component.
\<close>

subsection \<open>Configuration and errors\<close>

record worker =
  wk_intl :: intl
  wk_digest :: "string \<Rightarrow> string"
  wk_mailer :: mailer
  wk_url :: "string option"

definition RETRY_WINDOW_MS :: int where
  "RETRY_WINDOW_MS = 24 * 60 * 60 * 1000 - 1"

definition LOCK_DURATION_MS :: int where
  "LOCK_DURATION_MS = 2 * 60 * 1000"

definition not_found :: "string \<Rightarrow> exn" where
  "not_found m = Reminder_Error m ''NOT_FOUND'' 404"

definition invalid :: "string \<Rightarrow> exn" where
  "invalid m = Reminder_Error m ''VALIDATION'' 409"

text \<open>The classes of \<open>reminder.types.ts\<close>: the code and HTTP status each error carries.\<close>

fun error_code :: "exn \<Rightarrow> string option" where
  "error_code (Reminder_Error _ c _) = Some c"
| "error_code (Provider_Error _ _) = Some ''PERMANENT''"
| "error_code (Network_Error _) = Some ''TRANSIENT''"
| "error_code _ = None"

fun error_status :: "exn \<Rightarrow> int option" where
  "error_status (Reminder_Error _ _ s) = Some s"
| "error_status (Provider_Error _ _) = Some 400"
| "error_status (Network_Error _) = Some 503"
| "error_status _ = None"

definition DuplicateReminderError :: "string \<Rightarrow> exn" where
  "DuplicateReminderError i = Reminder_Error (''Reminder '' @ i @ '' already exists or was sent'') ''VALIDATION'' 409"

definition ReminderNotFoundError :: "string \<Rightarrow> exn" where
  "ReminderNotFoundError i = Reminder_Error (''Reminder '' @ i @ '' not found'') ''NOT_FOUND'' 404"

subsection \<open>Statements\<close>

definition reminders_by_id :: "string \<Rightarrow> tables \<Rightarrow> reminder_row list" where
  "reminders_by_id i t = filter (\<lambda>r. r_id r = i) (reminders t)"

definition sending :: "int \<Rightarrow> reminder_row \<Rightarrow> reminder_row" where
  "sending lock r = r\<lparr>r_status := Sending, r_attempts := r_attempts r + 1, r_locked := Some lock\<rparr>"

text \<open>The rows the sub-select of \<open>claimDue\<close> ranges over, and the one it picks.\<close>

definition claimable :: "int \<Rightarrow> reminder_row \<Rightarrow> bool" where
  "claimable n r \<longleftrightarrow> r_status r = Scheduled
     \<or> r_status r = Sending \<and> (case r_locked r of None \<Rightarrow> False | Some l \<Rightarrow> l < n)"

definition next_claim :: "int \<Rightarrow> tables \<Rightarrow> reminder_row option" where
  "next_claim n t = (case sort_key r_fire (filter (claimable n) (reminders t)) of [] \<Rightarrow> None | r # _ \<Rightarrow> Some r)"

definition claim_next :: "int \<Rightarrow> reminder_row list stmt" where
  "claim_next lock n u t = (case next_claim n t of None \<Rightarrow> Inr ([], t)
     | Some r \<Rightarrow> upd_reminders (\<lambda>x. r_id x = r_id r) (\<lambda>_. sending lock) n u t)"

definition mark_sent :: "string \<Rightarrow> string \<Rightarrow> reminder_row list stmt" where
  "mark_sent i pid = upd_reminders (\<lambda>r. r_id r = i)
     (\<lambda>n r. r\<lparr>r_status := Sent, r_sent_at := Some n, r_message := Some pid\<rparr>)"

definition mark :: "reminder_status \<Rightarrow> string \<Rightarrow> string \<Rightarrow> reminder_row list stmt" where
  "mark st i reason = upd_reminders (\<lambda>r. r_id r = i) (\<lambda>_ r. r\<lparr>r_status := st, r_error := Some reason\<rparr>)"

text \<open>\<open>status = 'suppressed'\<close> is none of the statuses the table allows.\<close>

definition mark_suppressed :: "string \<Rightarrow> string \<Rightarrow> reminder_row list stmt" where
  "mark_suppressed i reason n u t =
     (if reminders_by_id i t = [] then Inr ([], t) else Inl check_violation)"

subsection \<open>Sending\<close>

definition unsubscribe_url :: "worker \<Rightarrow> int \<Rightarrow> string \<Rightarrow> string" where
  "unsubscribe_url W c client =
     or_else (wk_url W) ''http://localhost:3001'' @ ''/unsubscribe/reminders?token='' @ signToken (wk_digest W) c client"

definition lift_result :: "exn + 'a \<Rightarrow> ('q, 'a) prog" where
  "lift_result r = (case r of Inl x \<Rightarrow> raise x | Inr a \<Rightarrow> ret a)"

text \<open>The row of \<open>bookings\<close> has neither \<open>providerId\<close> nor \<open>slot_start_utc\<close>: the provider is looked up with
  \<open>undefined\<close>, which finds no row, and the date is \<open>new Date(undefined)\<close>.\<close>

definition getProvider_undefined :: "('q, provider_row option) prog" where
  "getProvider_undefined = bind (query Pool (sel (\<lambda>_. [] :: provider_row list))) (\<lambda>rows.
     ret (case rows of [] \<Rightarrow> None | p # _ \<Rightarrow> Some p))"

definition provider_name :: "provider_row option \<Rightarrow> string" where
  "provider_name p = (case p of None \<Rightarrow> ''Service Provider'' | Some x \<Rightarrow> or_else (Some (p_name x)) ''Service Provider'')"

definition no_email :: "booking_row \<Rightarrow> exn" where
  "no_email b = Js_Error (''Client email not available for booking '' @ b_id b)"

definition render_reminder :: "worker \<Rightarrow> booking_row \<Rightarrow> reminder_row \<Rightarrow> ('q, mail) prog" where
  "render_reminder W b r =
     bind (query Pool (sel (clients_by_id (b_client b)))) (\<lambda>rows. case rows of
       [] \<Rightarrow> raise (no_email b)
     | c # _ \<Rightarrow>
       if c_email c = [] then raise (no_email b)
       else bind getProvider_undefined (\<lambda>provider.
         bind now (\<lambda>t.
         let data = \<lparr>ed_client = or_else (Some (c_name c)) (c_email c), ed_provider = provider_name provider,
               ed_date = None, ed_tz = b_tz b, ed_offset = r_offset r, ed_booking = b_id b,
               ed_unsubscribe = unsubscribe_url W t (c_id c)\<rparr> in
         bind (lift_result (locale_date (wk_intl W) None (b_tz b))) (\<lambda>_.
         bind (lift_result (renderReminderEmail (wk_intl W) data)) (\<lambda>(html, text).
         ret \<lparr>m_to = c_email c,
              m_subject = ''Reminder: Appointment with '' @ provider_name provider @ '' in '' @ int_text (r_offset r) @ '' min'',
              m_html = html, m_text = Some text\<rparr>)))))"

definition provider_failure :: "exn \<Rightarrow> exn" where
  "provider_failure x = (case x of
       Email_Error m c i \<Rightarrow> if c = ''transient'' then Network_Error m else Provider_Error m i
     | _ \<Rightarrow> x)"

definition sendWithProvider :: "worker \<Rightarrow> booking_row \<Rightarrow> reminder_row \<Rightarrow> string \<Rightarrow> (outbox, string) prog" where
  "sendWithProvider W b r key =
     try_catch (bind (render_reminder W b r) (\<lambda>m. email_send (wk_mailer W) m key))
       (\<lambda>x. raise (provider_failure x))"

definition idempotency_key :: "booking_row \<Rightarrow> reminder_row \<Rightarrow> string" where
  "idempotency_key b r = ''reminder/'' @ b_id b @ ''/'' @ int_text (r_offset r)"

definition record_failure :: "reminder_row \<Rightarrow> exn \<Rightarrow> (outbox, unit) prog" where
  "record_failure r x = (case x of
       Network_Error _ \<Rightarrow> raise x
     | Provider_Error m _ \<Rightarrow> andthen (query Pool (mark Failed (r_id r) m)) (ret ())
     | _ \<Rightarrow> raise x)"

definition send_and_record :: "worker \<Rightarrow> booking_row \<Rightarrow> reminder_row \<Rightarrow> (outbox, unit) prog" where
  "send_and_record W b r =
     try_catch (bind (sendWithProvider W b r (idempotency_key b r)) (\<lambda>pid.
         andthen (query Pool (mark_sent (r_id r) pid)) (ret ())))
       (record_failure r)"

subsection \<open>Processing\<close>

definition to_client :: "worker \<Rightarrow> booking_row \<Rightarrow> reminder_row \<Rightarrow> client_row list \<Rightarrow> (outbox, unit) prog" where
  "to_client W b r rows = (case rows of
       [] \<Rightarrow> raise (no_email b)
     | c # _ \<Rightarrow>
         if c_email c = [] then raise (no_email b)
         else if c_opt_out c
         then andthen (query Pool (mark_suppressed (r_id r) ''Client opted out of reminder emails'')) (ret ())
         else send_and_record W b r)"

definition to_booking :: "worker \<Rightarrow> reminder_row \<Rightarrow> booking_row \<Rightarrow> (outbox, unit) prog" where
  "to_booking W r b =
     (if b_status b \<noteq> Booked
      then andthen (query Pool (mark R_Cancelled (r_id r) ''Booking is no longer booked'')) (ret ())
      else bind now (\<lambda>c.
        if RETRY_WINDOW_MS < c - r_fire r
        then andthen (query Pool (mark Failed (r_id r) ''Retry window exceeded''))
          (raise (invalid (''Reminder '' @ r_id r @ '' exceeded retry window'')))
        else bind (query Pool (sel (clients_by_id (b_client b)))) (to_client W b r)))"

definition processReminder :: "worker \<Rightarrow> string \<Rightarrow> (outbox, unit) prog" where
  "processReminder W i =
     bind (query Pool (sel (reminders_by_id i))) (\<lambda>rows. case rows of
       [] \<Rightarrow> raise (not_found (''Reminder '' @ i @ '' not found''))
     | r # _ \<Rightarrow>
       if r_status r \<noteq> Sending then raise (invalid (''Reminder '' @ i @ '' not in sending state''))
       else bind (query Pool (sel (bookings_by_id (r_booking r)))) (\<lambda>bs. case bs of
           [] \<Rightarrow> andthen (query Pool (mark Failed (r_id r) ''Booking not found''))
             (raise (not_found (''Booking '' @ r_booking r @ '' not found'')))
         | b # _ \<Rightarrow> to_booking W r b))"

definition claimDue :: "(outbox, reminder_row option) prog" where
  "claimDue = bind now (\<lambda>c.
     bind (query Pool (claim_next (c + LOCK_DURATION_MS))) (\<lambda>rows.
     ret (case rows of [] \<Rightarrow> None | r # _ \<Rightarrow> Some r)))"

definition process :: "worker \<Rightarrow> string option \<Rightarrow> (outbox, unit) prog" where
  "process W job = (case truthy job of
       None \<Rightarrow> raise (Js_Error ''Missing reminderId in BullMQ payload'')
     | Some i \<Rightarrow> bind now (\<lambda>c.
         bind (query Pool (upd_reminders (\<lambda>r. r_id r = i \<and> r_status r = Scheduled)
            (\<lambda>_. sending (c + LOCK_DURATION_MS)))) (\<lambda>claimed. case claimed of
           [] \<Rightarrow> bind (query Pool (sel (reminders_by_id i))) (\<lambda>check. case check of
               [] \<Rightarrow> ret ()
             | r # _ \<Rightarrow> if r_status r = Sending then processReminder W i else ret ())
         | _ # _ \<Rightarrow> processReminder W i)))"

definition handleJob :: "worker \<Rightarrow> string option \<Rightarrow> (outbox, unit) prog" where
  "handleJob W job = (case truthy job of
       None \<Rightarrow> raise (Js_Error ''Missing reminderId in BullMQ payload'')
     | Some i \<Rightarrow> processReminder W i)"

subsection \<open>What processing does to the tables and the outbox\<close>

definition logged :: "tables \<Rightarrow> outbox \<Rightarrow> outbox world \<Rightarrow> bool" where
  "logged T L w \<longleftrightarrow> idle T w \<and> queue w = L"

lemma wp_query_queue:
  "wp (query ch st) (\<lambda>a w'. queue w' = queue w \<longrightarrow> Q a w') (\<lambda>x w'. queue w' = queue w \<longrightarrow> E x w') e w \<Longrightarrow>
     wp (query ch st) Q E e w"
  by (auto simp: wp_def query_def split: option.splits sum.splits if_splits)

lemma wp_stmt_logged:
  assumes "logged T L w" "\<And>n u a T' w'. st n u T = Inr (a, T') \<Longrightarrow> logged T' L w' \<Longrightarrow> Q a w'"
    and "\<And>x w'. logged T L w' \<Longrightarrow> E x w'"
  shows "wp (query ch st) Q E e w"
proof (rule wp_query_queue)
  have w: "idle T w" "queue w = L" using assms(1) by (simp_all add: logged_def)
  show "wp (query ch st) (\<lambda>a w'. queue w' = queue w \<longrightarrow> Q a w') (\<lambda>x w'. queue w' = queue w \<longrightarrow> E x w') e w"
    by (rule wp_query_idle [OF w(1)]) (simp_all add: assms(2,3) logged_def w(2))
qed

lemma wp_sel_logged:
  assumes "logged T L w" "\<And>w'. logged T L w' \<Longrightarrow> Q (f T) w'" "\<And>x w'. logged T L w' \<Longrightarrow> E x w'"
  shows "wp (query ch (sel f)) Q E e w"
  by (rule wp_stmt_logged [OF assms(1)]) (auto simp: sel_def assms(2,3))

text \<open>A mail that may be sent for the reminder \<open>i\<close>, and under which key.\<close>

definition eligible :: "'q env \<Rightarrow> tables \<Rightarrow> string \<Rightarrow> mail \<Rightarrow> string \<Rightarrow> bool" where
  "eligible e T i m key \<longleftrightarrow>
     (\<exists>r b c. r \<in> set (reminders T) \<and> r_id r = i \<and> r_status r = Sending
        \<and> b \<in> set (bookings T) \<and> b_id b = r_booking r \<and> b_status b = Booked
        \<and> c \<in> set (clients T) \<and> c_id c = b_client b \<and> c_email c \<noteq> [] \<and> \<not> c_opt_out c
        \<and> (\<exists>n. clock_ms e n - r_fire r \<le> RETRY_WINDOW_MS)
        \<and> m_to m = c_email c \<and> key = idempotency_key b r)"

definition log_ok :: "'q env \<Rightarrow> tables \<Rightarrow> string \<Rightarrow> outbox \<Rightarrow> outbox \<Rightarrow> bool" where
  "log_ok e T i L L' \<longleftrightarrow> L' = L \<or> (\<exists>m key. L' = L @ [(m, key)] \<and> eligible e T i m key)"

lemma log_ok_refl [simp]: "log_ok e T i L L"
  by (simp add: log_ok_def)

text \<open>The row of the reminder, and no other, has a new status.\<close>

definition row_marked :: "string \<Rightarrow> reminder_status \<Rightarrow> tables \<Rightarrow> tables \<Rightarrow> bool" where
  "row_marked i st T T' \<longleftrightarrow> (\<exists>f. T' = T\<lparr>reminders := upd_where (\<lambda>r. r_id r = i) f (reminders T)\<rparr>
     \<and> (\<forall>r. r_status (f r) = st \<and> r_id (f r) = r_id r \<and> r_booking (f r) = r_booking r \<and> r_offset (f r) = r_offset r))"

lemma mark_Inr: "mark st i reason n u T = Inr (a, T') \<Longrightarrow> row_marked i st T T'"
  unfolding row_marked_def
  by (rule exI [of _ "\<lambda>r. r\<lparr>r_status := st, r_error := Some reason\<rparr>"]) (auto simp: mark_def upd_reminders_def)

lemma mark_sent_Inr: "mark_sent i pid n u T = Inr (a, T') \<Longrightarrow> row_marked i Sent T T'"
  unfolding row_marked_def
  by (rule exI [of _ "\<lambda>r. r\<lparr>r_status := Sent, r_sent_at := Some n, r_message := Some pid\<rparr>"])
    (auto simp: mark_sent_def upd_reminders_def)

definition settled_well :: "'q env \<Rightarrow> tables \<Rightarrow> string \<Rightarrow> outbox \<Rightarrow> outbox world \<Rightarrow> bool" where
  "settled_well e T i L w \<longleftrightarrow>
     (\<exists>T' L' st. logged T' L' w \<and> row_marked i st T T' \<and> st \<in> {Sent, Failed, R_Cancelled} \<and> log_ok e T i L L'
        \<and> (st = Sent \<longrightarrow> L' \<noteq> L))"

definition gave_up :: "'q env \<Rightarrow> tables \<Rightarrow> string \<Rightarrow> outbox \<Rightarrow> outbox world \<Rightarrow> bool" where
  "gave_up e T i L w \<longleftrightarrow>
     (\<exists>T' L'. logged T' L' w \<and> (T' = T \<or> row_marked i Failed T T') \<and> log_ok e T i L L')"

lemma gave_upI: "logged T L' w \<Longrightarrow> log_ok e T i L L' \<Longrightarrow> gave_up e T i L w"
  unfolding gave_up_def by blast

lemma gave_up_failed: "logged T' L' w \<Longrightarrow> row_marked i Failed T T' \<Longrightarrow> log_ok e T i L L' \<Longrightarrow> gave_up e T i L w"
  unfolding gave_up_def by blast

lemma settled_wellI:
  "logged T' L' w \<Longrightarrow> row_marked i st T T' \<Longrightarrow> st \<in> {Sent, Failed, R_Cancelled} \<Longrightarrow> log_ok e T i L L' \<Longrightarrow>
     (st = Sent \<Longrightarrow> L' \<noteq> L) \<Longrightarrow> settled_well e T i L w"
  unfolding settled_well_def by blast

lemma wp_lift_result: "(\<And>a. r = Inr a \<Longrightarrow> Q a w) \<Longrightarrow> (\<And>x. r = Inl x \<Longrightarrow> E x w) \<Longrightarrow> wp (lift_result r) Q E e w"
  by (cases r) (simp_all add: lift_result_def)

lemma wp_render_reminder:
  assumes "logged T L w" "clients_by_id (b_client b) T = c # cs"
    and "\<And>m w'. logged T L w' \<Longrightarrow> m_to m = c_email c \<Longrightarrow> Q m w'" "\<And>x w'. logged T L w' \<Longrightarrow> E x w'"
  shows "wp (render_reminder W b r) Q E e w"
  unfolding render_reminder_def getProvider_undefined_def Let_def
  apply simp
  apply (rule wp_sel_logged [OF assms(1)])
   apply (simp add: assms(2) split del: if_split)
   apply (intro wp_cases)
    apply (simp add: assms(4))
   apply simp
   apply (rule wp_sel_logged, assumption)
    apply (rule wp_lift_result)
     apply (rule wp_lift_result)
      apply (intro wp_cases)
      apply (simp add: assms(3))
     apply (simp_all add: assms(4))
  done

lemma logged_sent: "logged T L w \<Longrightarrow> w' = (bump w)\<lparr>queue := queue w @ [x]\<rparr> \<Longrightarrow> logged T (L @ [x]) w'"
  by (simp add: logged_def)

lemma wp_sendWithProvider:
  assumes "logged T L w" "clients_by_id (b_client b) T = c # cs"
    and "\<And>m pid w'. logged T (L @ [(m, key)]) w' \<Longrightarrow> m_to m = c_email c \<Longrightarrow> Q pid w'"
    and "\<And>x w'. logged T L w' \<Longrightarrow> E x w'"
    and "\<And>x m w'. logged T (L @ [(m, key)]) w' \<Longrightarrow> m_to m = c_email c \<Longrightarrow> E x w'"
  shows "wp (sendWithProvider W b r key) Q E e w"
  unfolding sendWithProvider_def
  apply simp
  apply (rule wp_render_reminder [OF assms(1,2)])
   apply (rule wp_email_send)
     apply (drule (1) logged_sent, erule (1) assms(3))
    apply (drule (1) logged_sent, erule (1) assms(5))
   apply (simp_all add: assms(4))
  done

lemma wp_send_and_record:
  assumes "logged T L w" "clients_by_id (b_client b) T = c # cs" "r_id r = i"
    and "\<And>m. m_to m = c_email c \<Longrightarrow> eligible e T i m (idempotency_key b r)"
  shows "wp (send_and_record W b r) (\<lambda>_. settled_well e T i L) (\<lambda>_. gave_up e T i L) e w"
proof -
  have ok: "log_ok e T i L (L @ [(m, idempotency_key b r)])" if "m_to m = c_email c" for m
    using assms(4) [OF that] by (auto simp: log_ok_def)
  have fail: "wp (record_failure r x) (\<lambda>_. settled_well e T i L) (\<lambda>_. gave_up e T i L) e w'"
    if "logged T L' w'" "log_ok e T i L L'" for x L' w'
    unfolding record_failure_def
    apply (cases x; simp)
          apply (rule gave_upI [OF that] gave_upI [OF that])+
     apply (rule wp_stmt_logged [OF that(1)])
      apply (drule mark_Inr)
      apply (erule settled_wellI, simp add: assms(3), simp, rule that(2), simp)
     apply (rule gave_upI, assumption, rule that)
    apply (rule gave_upI [OF that])
    done
  show ?thesis
    unfolding send_and_record_def
    apply simp
    apply (rule wp_sendWithProvider [OF assms(1,2)])
      apply (rule wp_stmt_logged, assumption)
       apply (drule mark_sent_Inr)
       apply (erule settled_wellI, simp add: assms(3), simp, erule ok, simp)
      apply (erule fail, erule ok)
     apply (erule fail, simp)
    apply (erule fail, erule ok)
    done
qed

lemma wp_to_client:
  assumes "logged T L w" "r_id r = i"
    and "\<And>c cs m. clients_by_id (b_client b) T = c # cs \<Longrightarrow> c_email c \<noteq> [] \<Longrightarrow> \<not> c_opt_out c \<Longrightarrow> m_to m = c_email c \<Longrightarrow>
      eligible e T i m (idempotency_key b r)"
    and "r \<in> set (reminders T)"
  shows "wp (to_client W b r (clients_by_id (b_client b) T)) (\<lambda>_. settled_well e T i L) (\<lambda>_. gave_up e T i L) e w"
  unfolding to_client_def
  apply (intro wp_cases)
     apply (simp add: gave_upI [OF assms(1)])
    apply (simp add: gave_upI [OF assms(1)])
   apply simp
   apply (rule wp_stmt_logged [OF assms(1)])
    apply (use assms(4) in \<open>auto simp: mark_suppressed_def reminders_by_id_def filter_empty_conv split: if_splits\<close>)[1]
   apply (erule gave_upI, simp)
  apply (rule wp_send_and_record [OF assms(1) _ assms(2)], assumption)
  apply (rule assms(3), assumption+)
  done

lemma reminders_by_id_mem: "reminders_by_id i t = r # rs \<Longrightarrow> r \<in> set (reminders t) \<and> r_id r = i"
  by (metis (mono_tags, lifting) reminders_by_id_def list.set_intros(1) mem_Collect_eq set_filter)

lemma wp_to_booking:
  assumes "logged T L w" "reminders_by_id i T = r # rs" "r_status r = Sending" "bookings_by_id (r_booking r) T = b # bs"
  shows "wp (to_booking W r b) (\<lambda>_. settled_well e T i L) (\<lambda>_. gave_up e T i L) e w"
proof -
  note r = reminders_by_id_mem [OF assms(2)] and b = bookings_by_id_mem [OF assms(4)]
  show ?thesis
    unfolding to_booking_def
    apply (intro wp_cases)
     apply simp
     apply (rule wp_stmt_logged [OF assms(1)])
      apply (drule mark_Inr)
      apply (erule settled_wellI, simp add: r, simp, simp, simp)
     apply (erule gave_upI, simp)
    apply simp
    apply (intro conjI impI)
     apply (rule wp_stmt_logged [OF assms(1)])
      apply (drule mark_Inr)
      apply (erule gave_up_failed, simp add: r, simp)
     apply (erule gave_upI, simp)
    apply (rule wp_sel_logged [OF assms(1)])
     apply (rule wp_to_client, assumption)
       apply (simp add: r)
      apply (drule clients_by_id_mem)
      apply (use r b assms(3) in \<open>auto simp: eligible_def not_less\<close>)[1]
     apply (simp add: r)
    apply (erule gave_upI, simp)
    done
qed

lemma wp_processReminder:
  assumes "logged T L w"
  shows "wp (processReminder W i) (\<lambda>_. settled_well e T i L) (\<lambda>_. gave_up e T i L) e w"
  unfolding processReminder_def
  apply simp
  apply (rule wp_sel_logged [OF assms])
   apply (intro wp_cases)
     apply (simp, erule gave_upI, simp)
    apply (simp, erule gave_upI, simp)
   apply simp
   apply (rule wp_sel_logged, assumption)
    apply (intro wp_cases)
     apply simp
     apply (rule wp_stmt_logged, assumption)
      apply (drule mark_Inr)
      apply (erule gave_up_failed, simp add: reminders_by_id_mem, simp)
     apply (erule gave_upI, simp)
    apply (rule wp_to_booking, assumption+)
   apply (erule gave_upI, simp)+
  done

text \<open>The worker leaves slots and bookings alone.\<close>

lemma undisturbing_lift_result [quiet_intros]: "undisturbing (lift_result r)"
  unfolding lift_result_def by (cases r) (simp_all add: undisturbing_basic)

lemma quiet_marks [quiet_intros]:
  "quiet (mark st i reason)" "quiet (mark_sent i pid)" "quiet (mark_suppressed i reason)" "quiet (claim_next lock)"
  by (auto simp: mark_def mark_sent_def mark_suppressed_def claim_next_def quiet_def same_booking_tables_def
      upd_reminders_def split: if_splits option.splits)

lemma undisturbing_email [quiet_intros]: "undisturbing (email_send M m key)"
proof -
  have "undisturbing (client_send M m key)"
    by (rule undisturbingI) (auto simp: wp_def client_send_def near_idle_def idle_def)
  then show ?thesis
    unfolding email_send_def by (intro quiet_intros) (auto split: send_outcome.split intro!: quiet_intros)
qed

lemma undisturbing_send [quiet_intros]: "undisturbing (sendWithProvider W b r key)"
  unfolding sendWithProvider_def render_reminder_def getProvider_undefined_def Let_def
  by (intro quiet_intros)

lemma undisturbing_record [quiet_intros]: "undisturbing (record_failure r x)"
  unfolding record_failure_def by (cases x) (simp_all add: quiet_intros)

lemma undisturbing_processReminder [quiet_intros]: "undisturbing (processReminder W i)"
  unfolding processReminder_def to_booking_def to_client_def send_and_record_def
  by (intro quiet_intros)

lemma undisturbing_process: "undisturbing (process W job)" "undisturbing (handleJob W job)" "undisturbing claimDue"
  unfolding process_def handleJob_def claimDue_def by (intro quiet_intros)+

lemma wp_process_opted_out:
  assumes "logged T L w" "reminders_by_id i T = r # rs" "bookings_by_id (r_booking r) T = b # bs" "b_status b = Booked"
    and "clients_by_id (b_client b) T = c # cs" "c_opt_out c" "\<forall>n. clock_ms e n - r_fire r \<le> RETRY_WINDOW_MS"
  shows "wp (processReminder W i) (\<lambda>_ _. False) (\<lambda>_. logged T L) e w"
proof -
  have suppress: "wp (query Pool (mark_suppressed (r_id r) reason)) Q (\<lambda>_. logged T L) e w'"
    if "logged T L w'" for Q reason w'
    using reminders_by_id_mem [OF assms(2)]
    by (intro wp_stmt_logged [OF that])
      (auto simp: mark_suppressed_def reminders_by_id_def filter_empty_conv split: if_splits)
  have late: "\<not> RETRY_WINDOW_MS < clock_ms e n - r_fire r" for n
    using assms(7) by (simp add: not_less)
  show ?thesis
    unfolding processReminder_def
    apply simp
    apply (rule wp_sel_logged [OF assms(1)])
     apply (simp add: assms(2) split del: if_split)
     apply (intro conjI impI wp_cases)
      apply simp
     apply simp
     apply (rule wp_sel_logged, assumption)
      apply (simp add: assms(3) to_booking_def assms(4) late)
      apply (rule wp_sel_logged, assumption)
       apply (simp add: assms(5,6) to_client_def suppress)
      apply assumption+
    done
qed

lemma claimDue_run:
  assumes "claimDue e w = (Inr (Some r), w1)" "tx w = No_Tx"
  shows "\<exists>x. next_claim (clock_ms e (tick w)) (tabs w) = Some x \<and> r_id r = r_id x \<and> r_status r = Sending
    \<and> tabs w1 = (tabs w)\<lparr>reminders := upd_where (\<lambda>y. r_id y = r_id x)
        (sending (clock_ms e (tick w) + LOCK_DURATION_MS)) (reminders (tabs w))\<rparr>"
proof (cases "next_claim (clock_ms e (tick w)) (tabs w)")
  case None
  then show ?thesis
    using assms by (auto simp: claimDue_def prog_simps query_def claim_next_def split: option.splits)
next
  case (Some x)
  have mem: "z # zs = filter (\<lambda>y. r_id y = r_id x) ys \<Longrightarrow> r_id z = r_id x" for z zs ys
    by (metis (mono_tags, lifting) list.set_intros(1) mem_Collect_eq set_filter)
  show ?thesis
    using assms Some
    by (auto simp: claimDue_def prog_simps query_def claim_next_def upd_reminders_def sending_def
        split: option.splits list.splits dest!: Cons_eq_map_D dest: mem mem [OF sym])
qed

subsection \<open>A concrete worker\<close>

definition demo_worker :: worker where
  "demo_worker = \<lparr>wk_intl = demo_intl, wk_digest = (\<lambda>_. ''x''),
     wk_mailer = \<lparr>is_configured = True, deliver = (\<lambda>_ _ _. Accepted (Some ''m1''))\<rparr>, wk_url = None\<rparr>"

definition box_env :: "(nat \<Rightarrow> exn option) \<Rightarrow> outbox env" where
  "box_env fl = \<lparr>fault = fl, lands = (\<lambda>_. False), clock_ms = (\<lambda>_. 1793000000000),
     fresh = (\<lambda>n. replicate (Suc n) (CHR ''x'')), pool_pins = True, driver_dates = True,
     double_release = None, range_text = ''invalid ISO 8601 string'',
     queue_add = (\<lambda>_ _ _ q. Inr q), queue_get = (\<lambda>_ _. Inr False), queue_remove = (\<lambda>_ q. Inr q)\<rparr>"

definition box_tables :: "reminder_status \<Rightarrow> bool \<Rightarrow> tables" where
  "box_tables st out = demo_tables\<lparr>reminders := [(new_reminder ''b1'' 1440 1793462400000 ''r1'')\<lparr>r_status := st\<rparr>],
     clients := map (\<lambda>c. c\<lparr>c_opt_out := out\<rparr>) (clients demo_tables)\<rparr>"

definition box_world :: "reminder_status \<Rightarrow> bool \<Rightarrow> outbox world" where
  "box_world st out = \<lparr>tabs = box_tables st out, tx = No_Tx, tick = 0, leased = [], queue = []\<rparr>"

lemma box_logged: "logged (box_tables st out) [] (box_world st out)"
  by (simp add: logged_def idle_def box_world_def)

subsection \<open>Properties\<close>

text \<open>C18. Processing a reminder, whatever fails: when it returns, exactly that reminder's row is marked sent, failed
  or cancelled, and sent only if a mail went out; when it throws, the row is as it was or marked
  failed. Either way at most one mail was handed to the provider, and only to the client of the
  reminder's booking, booked, within the retry window, with an address and not opted out, under the
  key of the booking and the offset.\<close>

theorem processReminder_outcome:
  assumes "logged T L w"
  shows "case processReminder W i e w of
      (Inr _, w') \<Rightarrow> settled_well e T i L w'
    | (Inl _, w') \<Rightarrow> gave_up e T i L w'"
  using wp_processReminder [OF assms, of W i e] by (simp add: wp_def)

theorem processReminder_outcome_witness:
  "case processReminder demo_worker ''r1'' (box_env (\<lambda>_. None)) (box_world Sending False) of
      (Inr _, w') \<Rightarrow> settled_well (box_env (\<lambda>_. None)) (box_tables Sending False) ''r1'' [] w'
    | (Inl _, w') \<Rightarrow> gave_up (box_env (\<lambda>_. None)) (box_tables Sending False) ''r1'' [] w'"
  by (rule processReminder_outcome [OF box_logged])



text \<open>A reminder of a client who opted out is never settled: the status the worker writes is not one the
  table allows, so whatever fails the job ends in an exception, no mail is sent, and the row stays
  in sending.\<close>

theorem opt_out_never_settles:
  assumes "logged T L w" "reminders_by_id i T = r # rs" "bookings_by_id (r_booking r) T = b # bs" "b_status b = Booked"
    and "clients_by_id (b_client b) T = c # cs" "c_opt_out c" "\<forall>n. clock_ms e n - r_fire r \<le> RETRY_WINDOW_MS"
  shows "\<exists>x w'. processReminder W i e w = (Inl x, w') \<and> tabs w' = T \<and> queue w' = L"
proof -
  obtain y w' where run: "processReminder W i e w = (y, w')" by fastforce
  then show ?thesis
    using wp_process_opted_out [OF assms, of W]
    by (auto simp: wp_def logged_def idle_def split: sum.splits)
qed

theorem opt_out_never_settles_witness:
  "\<exists>x w'. processReminder demo_worker ''r1'' (box_env (\<lambda>_. None)) (box_world Sending True) = (Inl x, w')
     \<and> tabs w' = box_tables Sending True \<and> queue w' = []"
proof (rule opt_out_never_settles [OF box_logged, where cs = "[]" and bs = "[]" and rs = "[]"])
  show "reminders_by_id ''r1'' (box_tables Sending True)
      = [(new_reminder ''b1'' 1440 1793462400000 ''r1'')\<lparr>r_status := Sending\<rparr>]"
    by (simp add: box_tables_def reminders_by_id_def new_reminder_def)
  show "bookings_by_id (r_booking ((new_reminder ''b1'' 1440 1793462400000 ''r1'')\<lparr>r_status := Sending\<rparr>))
      (box_tables Sending True) = [demo_booking]"
    by (simp add: box_tables_def bookings_by_id_def new_reminder_def demo_booking_def demo_tables_def)
  show "b_status demo_booking = Booked" by (simp add: demo_booking_in)
  show "clients_by_id (b_client demo_booking) (box_tables Sending True)
      = [\<lparr>c_id = ''c1'', c_email = ''c1@x.org'', c_name = ''Bob'', c_company = [], c_opt_out = True\<rparr>]"
    by (simp add: box_tables_def clients_by_id_def demo_booking_def demo_tables_def)
qed (simp_all add: new_reminder_def box_env_def RETRY_WINDOW_MS_def)

text \<open>Delivery is at least once: when marking the row as sent fails after the provider took the mail, the row
  stays in sending and the retried job hands the same mail to the provider again, under the same key.\<close>

theorem resend_after_lost_mark:
  "let down = box_env (\<lambda>n. if n = 7 then Some (Js_Error ''Connection terminated'') else None);
       (r1, w1) = process demo_worker (Some ''r1'') down (box_world Scheduled False);
       (r2, w2) = process demo_worker (Some ''r1'') (box_env (\<lambda>_. None)) w1
   in r1 = Inl (Js_Error ''Connection terminated'') \<and> r2 = Inr ()
      \<and> map snd (queue w2) = [''reminder/b1/1440'', ''reminder/b1/1440'']
      \<and> map r_status (reminders (tabs w2)) = [Sent]"
  by (simp add: process_def processReminder_def to_booking_def to_client_def send_and_record_def sendWithProvider_def
      render_reminder_def getProvider_undefined_def email_send_def client_send_def record_failure_def provider_failure_def
      prog_simps query_def sel_def upd_reminders_def mark_sent_def sending_def box_env_def box_world_def box_tables_def
      demo_tables_def demo_worker_def demo_intl_def new_reminder_def locale_date_def renderReminderEmail_def lift_result_def
      sbind_def reminders_by_id_def bookings_by_id_def clients_by_id_def RETRY_WINDOW_MS_def upd_where_def Let_def bump_def
      idempotency_key_def int_text_def nat_text.simps digit_char_def)
    code_simp

text \<open>No mail carries a date: the worker reads the start from the row of the booking, which has none.\<close>

lemma fill_line: "ps \<in> set ls \<Longrightarrow> \<exists>u v. fill ls = u @ line_text ps @ v"
proof (induction ls)
  case (Cons x xs)
  have f: "fill (x # xs) = line_text x @ (if xs = [] then [] else CHR 0x0A # fill xs)"
    by (cases xs) (simp_all add: fill_def)
  show ?case
  proof (cases "ps = x")
    case True
    then show ?thesis by (intro exI [of _ "[]"] exI) (simp add: f)
  next
    case False
    then have "ps \<in> set xs" using Cons.prems by simp
    then obtain u v where "fill xs = u @ line_text ps @ v" using Cons.IH by blast
    then show ?thesis
      using \<open>ps \<in> set xs\<close> by (intro exI [of _ "line_text x @ CHR 0x0A # u"] exI [of _ v]) (auto simp: f)
  qed
qed simp

lemma mail_has_no_date:
  "wp (render_reminder W b r) (\<lambda>m _. str_includes ''>Invalid Date</td>'' (m_html m)) (\<lambda>_ _. True) e w"
proof -
  have html: "str_includes ''>Invalid Date</td>'' h" if "renderReminderEmail I d = Inr (h, t)" "ed_date d = None" for I d h t
  proof -
    have h: "h = fill (reminder_html d (if ed_offset d = 1440 then ''24-hour'' else ''1-hour'') ''Invalid Date'')"
      using that by (auto simp: renderReminderEmail_def sbind_Inr_iff locale_date_def Let_def split: if_splits)
    let ?line = "[Lit ''              <td style=\"padding: 8px 0; font-size: 14px; font-weight: 600;\">'', Raw ''Invalid Date'', Lit ''</td>'']"
    have "?line \<in> set (reminder_html d l ''Invalid Date'')" for l
      unfolding reminder_html_def by (simp only: list.set insert_iff) simp
    from fill_line [OF this] obtain u v where "h = u @ line_text ?line @ v" unfolding h by blast
    then show ?thesis
      unfolding includes_iff
      by (intro exI [of _ "u @ ''              <td style=\"padding: 8px 0; font-size: 14px; font-weight: 600;\"''"] exI [of _ v])
        (simp add: line_text_def)
  qed
  have all: "wp m Q (\<lambda>_ _. True) e w" if "\<And>a w'. Q a w'" for m :: "('a, 'b) prog" and Q w
    using that by (auto simp: wp_def split: prod.split sum.split)
  show ?thesis
    unfolding render_reminder_def Let_def wp_bind
    apply (rule all, intro wp_cases, simp, simp)
    apply (simp, rule all)
    apply (rule wp_lift_result)
     apply (rule wp_lift_result)
      apply (intro wp_cases, simp, erule html, simp)
     apply simp_all
    done
qed

text \<open>A claim does not wait for the time of the reminder: one that fires years ahead is claimed.\<close>

lemma claim_not_due:
  "case claimDue (box_env (\<lambda>_. None)) (box_world Scheduled False) of (r, w1) \<Rightarrow>
     (case r of Inr (Some x) \<Rightarrow> 1793000000000 < r_fire x \<and> r_status x = Sending | _ \<Rightarrow> False)"
  by code_simp

text \<open>The worker never touches a booking or a slot: whatever is claimed, sent or fails, both tables are as
  they were.\<close>

theorem worker_leaves_bookings:
  assumes "idle T w"
  shows "same_booking_tables T (committed (snd (process W job e w)))
    \<and> same_booking_tables T (committed (snd (handleJob W job e w)))
    \<and> same_booking_tables T (committed (snd (claimDue e w)))"
  using undisturbing_committed [OF undisturbing_process(1) assms] undisturbing_committed [OF undisturbing_process(2) assms]
    undisturbing_committed [OF undisturbing_process(3) assms] by blast

theorem worker_leaves_bookings_witness:
  "same_booking_tables (box_tables Sending False)
    (committed (snd (process demo_worker (Some ''r1'') (box_env (\<lambda>_. None)) (box_world Sending False))))"
  using worker_leaves_bookings [of "box_tables Sending False" "box_world Sending False"] box_logged
  by (simp add: logged_def)

end
