(* ===== verification/Codec.thy ===== *)
theory Codec
  imports Booking_Controller Unsubscribe
begin

text \<open>
  Standard library functions the session code uses on texts: base64 with padding, the percent encoding
  of cookies (\<open>encodeURIComponent\<close>, \<open>decodeURIComponent\<close>) and \<open>trim\<close>. Texts are UTF-8 bytes.
\<close>

subsection \<open>base64\<close>

text \<open>\<open>Buffer.toString('base64')\<close>; \<open>Buffer.from(s, 'base64')\<close> is \<open>from_base64url\<close>, one reader for both alphabets.\<close>

definition std_char :: "char \<Rightarrow> char" where
  "std_char c = (if c = CHR ''-'' then CHR ''+'' else if c = CHR ''_'' then CHR 0x2F else c)"

definition base64 :: "string \<Rightarrow> string" where
  "base64 s = map std_char (base64url s) @ replicate ((3 - length s mod 3) mod 3) (CHR ''='')"

lemma b64_val_std: "b64_val (std_char c) = b64_val c"
  by (simp add: std_char_def b64_val_def)

lemma map_filter_append: "List.map_filter f (xs @ ys) = List.map_filter f xs @ List.map_filter f ys"
  by (simp add: List.map_filter_def)

lemma map_filter_padding: "List.map_filter b64_val (replicate n (CHR ''='')) = []"
  by (induction n) (simp_all add: List.map_filter_simps b64_val_def)

lemma map_filter_std: "List.map_filter b64_val (map std_char s) = List.map_filter b64_val s"
  by (induction s) (simp_all add: List.map_filter_simps b64_val_std split: option.split)

lemma base64_roundtrip: "from_base64url (base64 s) = s"
proof -
  have "from_base64url (base64 s) = from_base64url (base64url s)"
    by (simp add: from_base64url_def base64_def map_filter_append map_filter_padding map_filter_std)
  then show ?thesis by (simp add: base64url_roundtrip)
qed

lemma base64_inj: "base64 s = base64 t \<longleftrightarrow> s = t"
  by (metis base64_roundtrip)

lemma base64_no_colon: "CHR '':'' \<notin> set (base64 s)"
proof -
  have small: "list_all (\<lambda>n. n < 64) (b64_digits (map of_char s))"
    by (rule b64_digits_small) (simp add: list_all_iff)
  have colon: "std_char (b64_char i) \<noteq> CHR '':''" if "i < 64" for i
  proof
    assume "std_char (b64_char i) = CHR '':''"
    then have "b64_val (b64_char i) = b64_val (CHR '':'')" by (metis b64_val_std)
    then show False using b64_val_char [OF that] by (simp add: b64_val_def)
  qed
  have "\<And>c. c \<in> set (base64url s) \<Longrightarrow> std_char c \<noteq> CHR '':''"
    using small colon by (auto simp: base64url_def list_all_iff)
  then have "CHR '':'' \<notin> std_char ` set (base64url s)" by (metis imageE)
  then show ?thesis by (simp add: base64_def)
qed

lemma base64_Nil: "base64 [] = []"
  by (simp add: base64_def base64url_def)

lemma base64_nonempty: "s \<noteq> [] \<Longrightarrow> base64 s \<noteq> []"
  by (metis base64_inj base64_Nil)

subsection \<open>Percent encoding\<close>

definition unreserved :: "char \<Rightarrow> bool" where
  "unreserved c \<longleftrightarrow> (let n = (of_char c :: nat) in
     (65 \<le> n \<and> n \<le> 90) \<or> (97 \<le> n \<and> n \<le> 122) \<or> (48 \<le> n \<and> n \<le> 57)) \<or> c \<in> set ''-_.!~*()'' \<or> c = CHR 0x27"

definition upper_hex :: "nat \<Rightarrow> char" where
  "upper_hex n = (if n < 10 then char_of (48 + n) else char_of (55 + n))"

definition hex_digit_val :: "char \<Rightarrow> nat" where
  "hex_digit_val c = (let n = (of_char c :: nat) in
     if n \<le> 57 then n - 48 else if n \<le> 70 then n - 55 else n - 87)"

definition percent_char :: "char \<Rightarrow> string" where
  "percent_char c = (let n = (of_char c :: nat) in
     if unreserved c then [c] else [CHR ''%'', upper_hex (n div 16), upper_hex (n mod 16)])"

definition encodeURIComponent :: "string \<Rightarrow> string" where
  "encodeURIComponent s = concat (map percent_char s)"

text \<open>The byte of a percent escape at the front of a text.\<close>

fun escape_byte :: "string \<Rightarrow> (nat \<times> string) option" where
  "escape_byte (p # h # l # r) =
     (if p = CHR ''%'' \<and> is_hex h \<and> is_hex l then Some (16 * hex_digit_val h + hex_digit_val l, r) else None)"
| "escape_byte _ = None"

text \<open>\<open>n\<close> continuation bytes, each in its escape, the first of them between \<open>lo\<close> and \<open>hi\<close>.\<close>

fun continuation :: "nat \<Rightarrow> nat \<Rightarrow> nat \<Rightarrow> string \<Rightarrow> (string \<times> string) option" where
  "continuation 0 lo hi s = Some ([], s)"
| "continuation (Suc n) lo hi s = (case escape_byte s of None \<Rightarrow> None
     | Some (b, r) \<Rightarrow>
         if lo \<le> b \<and> b \<le> hi then map_option (\<lambda>(bs, t). (char_of b # bs, t)) (continuation n 128 191 r)
         else None)"

text \<open>One character: the escapes from 128 up must spell a UTF-8 sequence.\<close>

definition decode_one :: "string \<Rightarrow> (string \<times> string) option" where
  "decode_one s = (case escape_byte s of None \<Rightarrow> None
     | Some (b, r) \<Rightarrow>
         map_option (\<lambda>(bs, t). (char_of b # bs, t))
          (if b < 128 then Some ([], r)
           else if 194 \<le> b \<and> b \<le> 223 then continuation 1 128 191 r
           else if b = 224 then continuation 2 160 191 r
           else if b = 237 then continuation 2 128 159 r
           else if 225 \<le> b \<and> b \<le> 239 then continuation 2 128 191 r
           else if b = 240 then continuation 3 144 191 r
           else if 241 \<le> b \<and> b \<le> 243 then continuation 3 128 191 r
           else if b = 244 then continuation 3 128 143 r
           else None))"

lemma escape_byte_length: "escape_byte s = Some (b, r) \<Longrightarrow> length s = length r + 3"
  by (induction s rule: escape_byte.induct) (auto split: if_splits)

lemma continuation_length: "continuation n lo hi s = Some (bs, t) \<Longrightarrow> length t \<le> length s"
  by (induction n lo hi s arbitrary: bs t rule: continuation.induct)
    (fastforce dest: escape_byte_length split: option.splits if_splits)+

lemma decode_one_length: "decode_one s = Some (bs, t) \<Longrightarrow> length t < length s"
  by (auto simp: decode_one_def split: option.splits if_splits
      dest!: escape_byte_length continuation_length)

text \<open>\<open>None\<close> is the \<open>URIError\<close>.\<close>

function decodeURIComponent :: "string \<Rightarrow> string option" where
  "decodeURIComponent s = (case s of [] \<Rightarrow> Some []
     | c # cs \<Rightarrow>
         if c \<noteq> CHR ''%'' then map_option ((#) c) (decodeURIComponent cs)
         else (case decode_one s of None \<Rightarrow> None
           | Some (bs, t) \<Rightarrow> map_option ((@) bs) (decodeURIComponent t)))"
  by pat_completeness auto

termination
  by (relation "measure length") (auto dest: decode_one_length)

declare decodeURIComponent.simps [simp del]

lemma hex_digit_upper: "n < 16 \<Longrightarrow> hex_digit_val (upper_hex n) = n \<and> is_hex (upper_hex n)"
proof -
  assume "n < 16"
  then have "n \<in> {0,1,2,3,4,5,6,7,8,9,10,11,12,13,14,15}" by (simp add: numeral_eq_Suc less_Suc_eq)
  then show ?thesis
    by (elim insertE emptyE; simp only:; code_simp)
qed

lemma decode_percent_char:
  assumes "of_char c < (128::nat)"
  shows "decodeURIComponent (percent_char c @ t) = map_option ((#) c) (decodeURIComponent t)"
proof (cases "unreserved c")
  case True
  then have "c \<noteq> CHR ''%''" by (auto simp: unreserved_def)
  then show ?thesis using True by (simp add: percent_char_def decodeURIComponent.simps [of "c # t"])
next
  case False
  let ?n = "of_char c :: nat"
  have h: "hex_digit_val (upper_hex (?n div 16)) = ?n div 16" "is_hex (upper_hex (?n div 16))"
    "hex_digit_val (upper_hex (?n mod 16)) = ?n mod 16" "is_hex (upper_hex (?n mod 16))"
    using assms hex_digit_upper [of "?n div 16"] hex_digit_upper [of "?n mod 16"] by simp_all
  have "decode_one (percent_char c @ t) = Some ([c], t)"
    using False h assms by (simp add: percent_char_def Let_def decode_one_def)
  then show ?thesis
    using False
    by (subst decodeURIComponent.simps, cases "decodeURIComponent t") (simp_all add: percent_char_def Let_def)
qed

text \<open>What is encoded is read back, for the ASCII texts tokens are.\<close>

lemma decode_encode:
  "list_all (\<lambda>c. of_char c < (128::nat)) s \<Longrightarrow> decodeURIComponent (encodeURIComponent s) = Some s"
  by (induction s)
    (simp_all add: encodeURIComponent_def decode_percent_char decodeURIComponent.simps [of "[]"])

lemma encoded_omits:
  assumes "\<not> unreserved x" "\<not> is_hex x" "x \<noteq> CHR ''%''"
  shows "x \<notin> set (encodeURIComponent s)"
proof -
  have hex: "upper_hex n \<noteq> x" if "n < 16" for n
    using hex_digit_upper [OF that] assms(2) by auto
  have "x \<notin> set (percent_char c)" for c
  proof -
    have bounds: "of_char c div 16 < (16::nat)" "of_char c mod 16 < (16::nat)"
      by (simp_all add: less_mult_imp_div_less)
    show ?thesis
      using hex [OF bounds(1)] hex [OF bounds(2)] assms(1,3) by (auto simp: percent_char_def Let_def)
  qed
  then show ?thesis by (auto simp: encodeURIComponent_def)
qed

lemma encoded_no_semicolon: "CHR '';'' \<notin> set (encodeURIComponent s)"
  by (rule encoded_omits) (simp_all add: unreserved_def is_hex_def)

lemma encoded_nonempty: "s \<noteq> [] \<Longrightarrow> encodeURIComponent s \<noteq> []"
  by (cases s) (auto simp: encodeURIComponent_def percent_char_def Let_def)

lemma base64_ascii: "list_all (\<lambda>c. of_char c < (128::nat)) (base64 s)"
proof -
  have small: "list_all (\<lambda>n. n < 64) (b64_digits (map of_char s))"
    by (rule b64_digits_small) (simp add: list_all_iff)
  have "of_char (std_char (b64_char i)) < (128::nat)" if "i < 64" for i
    using that by (auto simp: std_char_def b64_char_def)
  then show ?thesis
    using small by (auto simp: base64_def base64url_def list_all_iff)
qed

subsection \<open>trim\<close>

definition js_space :: "nat list list" where
  "js_space = [[9], [10], [11], [12], [13], [32], [194, 160], [225, 154, 128], [226, 128, 168], [226, 128, 169],
     [226, 128, 175], [226, 129, 159], [227, 128, 128], [239, 187, 191]]
     @ map (\<lambda>i. [226, 128, 128 + i]) [0..<11]"

definition strip_one :: "nat list list \<Rightarrow> nat list \<Rightarrow> nat list option" where
  "strip_one sps s = (case filter (\<lambda>p. take (length p) s = p) sps of [] \<Rightarrow> None | p # _ \<Rightarrow> Some (drop (length p) s))"

fun strip_front :: "nat \<Rightarrow> nat list list \<Rightarrow> nat list \<Rightarrow> nat list" where
  "strip_front 0 sps s = s"
| "strip_front (Suc n) sps s = (case strip_one sps s of None \<Rightarrow> s | Some t \<Rightarrow> strip_front n sps t)"

definition trim_bytes :: "nat list \<Rightarrow> nat list" where
  "trim_bytes s = (let t = strip_front (length s) js_space s in
     rev (strip_front (length t) (map rev js_space) (rev t)))"

definition trim :: "string \<Rightarrow> string" where
  "trim s = map char_of (trim_bytes (map of_char s))"

lemma strip_front_none: "strip_one sps s = None \<Longrightarrow> strip_front n sps s = s"
  by (cases n) simp_all

text \<open>Without white space at its ends a text is its own \<open>trim\<close>.\<close>

lemma trim_plain:
  "strip_one js_space (map of_char s) = None \<Longrightarrow>
   strip_one (map rev js_space) (rev (map of_char s)) = None \<Longrightarrow> trim s = s"
  by (simp add: trim_def trim_bytes_def strip_front_none Let_def comp_def)

lemma trim_Nil: "trim [] = []"
  by (simp add: trim_def trim_bytes_def)

end
