(* ===== verification/Auth.thy ===== *)
theory Auth
  imports Codec
begin

text \<open>
  \<^verbatim>\<open>apps/api/src/auth\<close>: passwords, the sessions of providers and administrators, the guards and the login
  and logout handlers. The accounts and sessions are the state the programs carry beside the booking
  tables; every access to it and every key derivation is an external call that can fail. \<open>scrypt\<close> and the
  random generator are parameters.
\<close>

record account =
  ac_id :: string
  ac_name :: "string option"
  ac_email :: "string option"
  ac_slug :: string
  ac_tz :: string
  ac_hash :: "string option"

record session_row =
  se_owner :: string
  se_hash :: string
  se_expires :: int

record auth_store =
  provider_accounts :: "account list"
  admin_accounts :: "account list"
  provider_sessions :: "session_row list"
  admin_sessions :: "session_row list"

text \<open>\<open>scrypt(secret, salt, length)\<close> with N = 4096, r = 8, p = 1, the only parameters the code uses, and the
  bytes of the n-th draw.\<close>

record crypto =
  kdf :: "string \<Rightarrow> string \<Rightarrow> nat \<Rightarrow> string"
  random_bytes :: "nat \<Rightarrow> nat \<Rightarrow> string"
  production :: bool
  no_real_auth :: bool

type_synonym 'a auth = "(auth_store, 'a) prog"

definition randomBytes :: "crypto \<Rightarrow> nat \<Rightarrow> string auth" where
  "randomBytes K n e w = (Inr (random_bytes K (tick w) n), bump w)"

definition scrypt :: "crypto \<Rightarrow> string \<Rightarrow> string \<Rightarrow> nat \<Rightarrow> string auth" where
  "scrypt K secret salt n = queue_ask (\<lambda>_ _. Inr (kdf K secret salt n))"

definition find :: "(auth_store \<Rightarrow> 'a) \<Rightarrow> 'a auth" where
  "find f = queue_ask (\<lambda>_ s. Inr (f s))"

definition store :: "(auth_store \<Rightarrow> auth_store) \<Rightarrow> unit auth" where
  "store f = queue_call (\<lambda>_ s. Inr (f s))"

text \<open>\<open>findUnique\<close> and \<open>findFirst\<close>.\<close>

definition first_where :: "('r \<Rightarrow> bool) \<Rightarrow> 'r list \<Rightarrow> 'r option" where
  "first_where P rs = (case filter P rs of [] \<Rightarrow> None | r # _ \<Rightarrow> Some r)"

definition by_email :: "string \<Rightarrow> account list \<Rightarrow> account option" where
  "by_email m = first_where (\<lambda>a. ac_email a = Some m)"

subsection \<open>Passwords\<close>

definition hashed :: "string \<Rightarrow> string \<Rightarrow> string" where
  "hashed salt derived = ''scrypt:'' @ salt @ '':'' @ base64 derived"

definition hashPassword :: "crypto \<Rightarrow> string \<Rightarrow> string auth" where
  "hashPassword K password =
     bind (randomBytes K 32) (\<lambda>bytes. let salt = base64 bytes in
     bind (scrypt K password (from_base64url salt) 32) (\<lambda>derived. ret (hashed salt derived)))"

definition verifyPassword :: "crypto \<Rightarrow> string \<Rightarrow> string \<Rightarrow> bool auth" where
  "verifyPassword K password encoded =
     (case split_on (CHR '':'') encoded of
        scheme # salt # derived # _ \<Rightarrow>
          if scheme \<noteq> ''scrypt'' \<or> salt = [] \<or> derived = [] then ret False
          else bind (scrypt K password (from_base64url salt) 32) (\<lambda>key. ret (base64 key = derived))
      | _ \<Rightarrow> ret False)"

subsection \<open>Sessions of providers\<close>

definition provider_salt :: string where
  "provider_salt = ''provider_session_salt''"

definition hashToken :: "crypto \<Rightarrow> string \<Rightarrow> string auth" where
  "hashToken K token = bind (scrypt K token provider_salt 32) (\<lambda>key. ret (base64 key))"

record provider_session =
  ps_token :: string
  ps_hash :: string
  ps_expires :: int

definition createSession :: "crypto \<Rightarrow> string \<Rightarrow> provider_session auth" where
  "createSession K providerId =
     bind (randomBytes K 48) (\<lambda>bytes. let rawToken = base64 bytes in
     bind (hashToken K rawToken) (\<lambda>tokenHash.
     bind now (\<lambda>n. let expiresAt = n + 86400000 in
     andthen (store (\<lambda>s. s\<lparr>provider_sessions := provider_sessions s
        @ [\<lparr>se_owner = providerId, se_hash = tokenHash, se_expires = expiresAt\<rparr>]\<rparr>))
      (ret \<lparr>ps_token = rawToken, ps_hash = tokenHash, ps_expires = expiresAt\<rparr>))))"

text \<open>The session with its provider, while it has not expired.\<close>

definition live_session :: "string \<Rightarrow> int \<Rightarrow> auth_store \<Rightarrow> (string \<times> account) option" where
  "live_session tokenHash n s =
     (case first_where (\<lambda>r. se_hash r = tokenHash \<and> n < se_expires r) (provider_sessions s) of None \<Rightarrow> None
      | Some r \<Rightarrow> map_option (Pair (se_owner r))
          (first_where (\<lambda>a. ac_id a = se_owner r) (provider_accounts s)))"

definition findProviderByTokenHash :: "string \<Rightarrow> (string \<times> account) option auth" where
  "findProviderByTokenHash tokenHash = bind now (\<lambda>n. find (live_session tokenHash n))"

definition revokeSession :: "string \<Rightarrow> unit auth" where
  "revokeSession tokenHash =
     store (\<lambda>s. s\<lparr>provider_sessions := filter (\<lambda>r. se_hash r \<noteq> tokenHash) (provider_sessions s)\<rparr>)"

definition cleanupExpired :: "unit auth" where
  "cleanupExpired = bind now (\<lambda>n.
     store (\<lambda>s. s\<lparr>provider_sessions := filter (\<lambda>r. \<not> se_expires r < n) (provider_sessions s)\<rparr>))"

text \<open>The value of a cookie in a request's \<open>Cookie\<close> header.\<close>

definition cookie_of :: "string \<Rightarrow> string option \<Rightarrow> string option" where
  "cookie_of name header = session_match (name @ ''='') (case header of None \<Rightarrow> [] | Some c \<Rightarrow> c)"

definition decoded :: "string \<Rightarrow> string auth" where
  "decoded s = (case decodeURIComponent s of None \<Rightarrow> raise (Js_Error ''URI malformed'') | Some t \<Rightarrow> ret t)"

text \<open>\<open>ProviderAuthGuard.canActivate\<close>; the result is \<open>req.provider\<close>.\<close>

definition providerGuard :: "crypto \<Rightarrow> string option \<Rightarrow> account auth" where
  "providerGuard K cookie =
     (case cookie_of ''chronos_provider_session'' cookie of
        None \<Rightarrow> raise (unauthorized ''Provider authentication required'')
      | Some v \<Rightarrow>
          bind (decoded v) (\<lambda>rawToken.
          bind (hashToken K rawToken) (\<lambda>tokenHash.
          bind (findProviderByTokenHash tokenHash) (\<lambda>result. case result of
             None \<Rightarrow> raise (unauthorized ''Provider authentication required'')
           | Some (_, provider) \<Rightarrow> ret provider))))"

text \<open>A cookie of a response; the framework writes its value percent-encoded.\<close>

record cookie =
  ck_name :: string
  ck_value :: string
  ck_secure :: bool
  ck_max_age :: int

definition header_of :: "cookie \<Rightarrow> string" where
  "header_of c = ck_name c @ ''='' @ encodeURIComponent (ck_value c)"

text \<open>What a response shows of an account.\<close>

datatype account_view =
  Account_View (view_id: string) (view_name: "string option") (view_email: "string option")
    (view_slug: string) (view_tz: string)

definition view_account :: "account \<Rightarrow> account_view" where
  "view_account a = Account_View (ac_id a) (ac_name a) (ac_email a) (ac_slug a) (ac_tz a)"

definition invalid_credentials :: exn where
  "invalid_credentials = unauthorized ''Invalid credentials''"

definition provider_login :: "crypto \<Rightarrow> string option \<Rightarrow> string option \<Rightarrow> (account_view \<times> cookie) auth" where
  "provider_login K email password =
     (let email = trim (or_else email []) in
      case (email, truthy password) of
        ([], _) \<Rightarrow> raise invalid_credentials
      | (_, None) \<Rightarrow> raise invalid_credentials
      | (_, Some pw) \<Rightarrow>
          bind (find (\<lambda>s. by_email email (provider_accounts s))) (\<lambda>p. case p of
            None \<Rightarrow> raise invalid_credentials
          | Some provider \<Rightarrow> (case truthy (ac_hash provider) of
              None \<Rightarrow> raise invalid_credentials
            | Some h \<Rightarrow>
                bind (verifyPassword K pw h) (\<lambda>valid.
                if \<not> valid then raise invalid_credentials
                else bind (createSession K (ac_id provider)) (\<lambda>session.
                  ret (view_account provider, \<lparr>ck_name = ''chronos_provider_session'', ck_value = ps_token session,
                    ck_secure = production K, ck_max_age = 86400000\<rparr>))))))"

definition provider_me :: "crypto \<Rightarrow> string option \<Rightarrow> account_view auth" where
  "provider_me K cookie = bind (providerGuard K cookie) (\<lambda>p. ret (view_account p))"

definition provider_logout :: "crypto \<Rightarrow> string option \<Rightarrow> unit auth" where
  "provider_logout K cookie =
     (case cookie_of ''chronos_provider_session'' cookie of
        None \<Rightarrow> ret ()
      | Some v \<Rightarrow> bind (decoded v) (\<lambda>raw. swallow (bind (hashToken K raw) revokeSession)))"

subsection \<open>Sessions of administrators\<close>

definition admin_hashToken :: "crypto \<Rightarrow> string \<Rightarrow> string auth" where
  "admin_hashToken K token =
     bind (randomBytes K 32) (\<lambda>bytes. let salt = base64 bytes in
     bind (scrypt K token (from_base64url salt) 32) (\<lambda>derived. ret (hashed salt derived)))"

definition admin_createSession :: "crypto \<Rightarrow> string \<Rightarrow> string \<Rightarrow> unit auth" where
  "admin_createSession K adminId rawToken =
     bind (admin_hashToken K rawToken) (\<lambda>tokenHash.
     bind now (\<lambda>n. store (\<lambda>s. s\<lparr>admin_sessions := admin_sessions s
       @ [\<lparr>se_owner = adminId, se_hash = tokenHash, se_expires = n + 8 * 60 * 60 * 1000\<rparr>]\<rparr>)))"

definition session_with_admin :: "string \<Rightarrow> auth_store \<Rightarrow> (session_row \<times> account) option" where
  "session_with_admin tokenHash s =
     (case first_where (\<lambda>r. se_hash r = tokenHash) (admin_sessions s) of None \<Rightarrow> None
      | Some r \<Rightarrow> map_option (Pair r) (first_where (\<lambda>a. ac_id a = se_owner r) (admin_accounts s)))"

definition findByToken :: "crypto \<Rightarrow> string \<Rightarrow> (session_row \<times> account) option auth" where
  "findByToken K rawToken =
     bind (admin_hashToken K rawToken) (\<lambda>tokenHash. find (session_with_admin tokenHash))"

definition admin_revokeSession :: "crypto \<Rightarrow> string \<Rightarrow> unit auth" where
  "admin_revokeSession K token =
     bind (admin_hashToken K token) (\<lambda>tokenHash.
       store (\<lambda>s. s\<lparr>admin_sessions := filter (\<lambda>r. se_hash r \<noteq> tokenHash) (admin_sessions s)\<rparr>))"

definition isValid :: "crypto \<Rightarrow> string \<Rightarrow> bool auth" where
  "isValid K rawToken =
     bind (findByToken K rawToken) (\<lambda>session. case session of None \<Rightarrow> ret False
       | Some (r, _) \<Rightarrow> bind now (\<lambda>n. ret (\<not> se_expires r < n)))"

definition adminGuard :: "crypto \<Rightarrow> string option \<Rightarrow> account auth" where
  "adminGuard K cookie =
     (case cookie_of ''chronos_admin_session'' cookie of
        None \<Rightarrow> raise (unauthorized ''Admin session required'')
      | Some sessionToken \<Rightarrow>
          bind (findByToken K sessionToken) (\<lambda>session. case session of
             None \<Rightarrow> raise (unauthorized ''Admin session invalid or expired'')
           | Some (r, admin) \<Rightarrow>
               bind now (\<lambda>n. if se_expires r < n then raise (unauthorized ''Admin session invalid or expired'')
                 else ret admin)))"

definition admin_login :: "crypto \<Rightarrow> string option \<Rightarrow> string option \<Rightarrow> (account_view \<times> cookie) auth" where
  "admin_login K email password =
     (case (truthy email, truthy password) of
        (Some m, Some pw) \<Rightarrow>
          bind (find (\<lambda>s. by_email m (admin_accounts s))) (\<lambda>a. case a of
            None \<Rightarrow> raise invalid_credentials
          | Some admin \<Rightarrow> (case truthy (ac_hash admin) of
              None \<Rightarrow> raise invalid_credentials
            | Some h \<Rightarrow>
                bind (verifyPassword K pw h) (\<lambda>ok.
                if \<not> ok then raise invalid_credentials
                else bind (randomBytes K 32) (\<lambda>bytes. let rawToken = base64 bytes in
                  andthen (admin_createSession K (ac_id admin) rawToken)
                  (ret (view_account admin, \<lparr>ck_name = ''chronos_admin_session'', ck_value = rawToken,
                    ck_secure = production K, ck_max_age = 8 * 60 * 60 * 1000\<rparr>))))))
      | _ \<Rightarrow> raise (unauthorized ''Credentials required''))"

definition admin_logout :: "crypto \<Rightarrow> string option \<Rightarrow> unit auth" where
  "admin_logout K cookie =
     (case cookie_of ''chronos_admin_session'' cookie of None \<Rightarrow> ret ()
      | Some v \<Rightarrow> admin_revokeSession K v)"

text \<open>\<^verbatim>\<open>admin.controller.ts\<close>: behind the guard.\<close>

definition guarded_logout :: "crypto \<Rightarrow> string option \<Rightarrow> unit auth" where
  "guarded_logout K cookie = bind (adminGuard K cookie) (\<lambda>_. admin_logout K cookie)"

definition admin_status :: "crypto \<Rightarrow> string option \<Rightarrow> account_view auth" where
  "admin_status K cookie = bind (adminGuard K cookie) (\<lambda>admin. ret (view_account admin))"

subsection \<open>Clients\<close>

definition client_login :: "crypto \<Rightarrow> string option \<Rightarrow> (client_row \<times> cookie) auth" where
  "client_login K email =
     (case truthy (map_option trim email) of
        None \<Rightarrow> raise (unauthorized ''Email required'')
      | Some m \<Rightarrow>
          bind (query Pool (sel (\<lambda>t. first_where (\<lambda>c. c_email c = m) (clients t)))) (\<lambda>client. case client of
            None \<Rightarrow> raise (unauthorized ''Invalid email'')
          | Some c \<Rightarrow> ret (c, \<lparr>ck_name = ''chronos_session'', ck_value = c_id c, ck_secure = production K,
              ck_max_age = 86400000\<rparr>)))"

text \<open>\<open>AuthGuard.canActivate\<close>: the identity and role given to the request.\<close>

definition authGuard :: "crypto \<Rightarrow> string option \<Rightarrow> exn + (string \<times> string)" where
  "authGuard K cookie =
     (case cookie_of ''chronos_session'' cookie of
        Some session \<Rightarrow> Inr (session, ''user'')
      | None \<Rightarrow> if no_real_auth K \<and> \<not> production K then Inr (''dev-user'', ''client'')
          else Inl (unauthorized ''Authentication required''))"

subsection \<open>Passwords: what is hashed verifies\<close>

lemma split_hashed:
  assumes "CHR '':'' \<notin> set salt"
  shows "split_on (CHR '':'') (hashed salt d) = [''scrypt'', salt, base64 d]"
proof -
  have "split_on (CHR '':'') (''scrypt'' @ CHR '':'' # salt @ CHR '':'' # base64 d)
      = [''scrypt''] @ [salt] @ [base64 d]"
    using assms base64_no_colon by (simp add: split_on_append_sep split_on_no_sep)
  then show ?thesis by (simp add: hashed_def)
qed

lemma hashPassword_Inr:
  assumes "hashPassword K password e w = (Inr h, w')"
  shows "h = hashed (base64 (random_bytes K (tick w) 32)) (kdf K password (random_bytes K (tick w) 32) 32)"
  using assms
  by (auto simp: hashPassword_def prog_simps randomBytes_def scrypt_def queue_ask_def base64_roundtrip Let_def
      split: option.splits)

text \<open>A password that was hashed verifies, and another one only if the key derivation sends it to the same
  key under the same salt: the text written by \<open>hashPassword\<close> is split, decoded and compared back to
  exactly the salt and key it was made of.\<close>

theorem password_roundtrip:
  assumes "hashPassword K password e w = (Inr h, w')" and "reliable e'"
    and "\<And>i. length (random_bytes K i 32) = 32" and "\<And>p s. length (kdf K p s 32) = 32"
  shows "fst (verifyPassword K attempt h e' v)
    = Inr (kdf K attempt (random_bytes K (tick w) 32) 32 = kdf K password (random_bytes K (tick w) 32) 32)"
proof -
  have ne: "base64 (random_bytes K (tick w) 32) \<noteq> []" "base64 (kdf K password (random_bytes K (tick w) 32) 32) \<noteq> []"
    using assms(3) [of "tick w"] assms(4) [of password "random_bytes K (tick w) 32"]
    by (auto intro!: base64_nonempty)
  show ?thesis
    using hashPassword_Inr [OF assms(1)] ne assms(2)
    by (simp add: verifyPassword_def split_hashed base64_no_colon base64_roundtrip scrypt_def queue_ask_def
        prog_simps base64_inj)
qed

subsection \<open>Steps\<close>

lemma wp_randomBytes:
  "(\<And>w'. queue w' = queue w \<Longrightarrow> tick w' = Suc (tick w) \<Longrightarrow> Q (random_bytes K (tick w) n) w') \<Longrightarrow>
     wp (randomBytes K n) Q E e w"
  by (simp add: wp_def randomBytes_def)

lemma wp_scrypt:
  "(\<And>w'. queue w' = queue w \<Longrightarrow> tick w' = Suc (tick w) \<Longrightarrow> Q (kdf K p s n) w') \<Longrightarrow>
   (\<And>x w'. queue w' = queue w \<Longrightarrow> tick w' = Suc (tick w) \<Longrightarrow> E x w') \<Longrightarrow> wp (scrypt K p s n) Q E e w"
  by (auto simp: wp_def scrypt_def queue_ask_def split: option.splits)

lemma wp_find:
  "(\<And>w'. queue w' = queue w \<Longrightarrow> tick w' = Suc (tick w) \<Longrightarrow> Q (f (queue w)) w') \<Longrightarrow>
   (\<And>x w'. queue w' = queue w \<Longrightarrow> tick w' = Suc (tick w) \<Longrightarrow> E x w') \<Longrightarrow> wp (find f) Q E e w"
  by (auto simp: wp_def find_def queue_ask_def split: option.splits)

lemma wp_store:
  "(\<And>w'. queue w' = f (queue w) \<Longrightarrow> tick w' = Suc (tick w) \<Longrightarrow> Q () w') \<Longrightarrow>
   (\<And>x w'. queue w' = queue w \<Longrightarrow> tick w' = Suc (tick w) \<Longrightarrow> E x w') \<Longrightarrow> wp (store f) Q E e w"
  by (auto simp: wp_def store_def queue_call_def split: option.splits)

lemma wp_verifyPassword:
  assumes "\<And>b w'. queue w' = queue w \<Longrightarrow> tick w \<le> tick w' \<Longrightarrow> Q b w'"
    and "\<And>x w'. queue w' = queue w \<Longrightarrow> tick w \<le> tick w' \<Longrightarrow> E x w'"
  shows "wp (verifyPassword K p h) Q E e w"
  unfolding verifyPassword_def
  by (auto split: list.split intro!: wp_scrypt assms)

lemma wp_decoded:
  "(\<And>t. decodeURIComponent s = Some t \<Longrightarrow> Q t w) \<Longrightarrow> (\<And>x. E x w) \<Longrightarrow> wp (decoded s) Q E e w"
  by (auto simp: decoded_def split: option.split)

lemmas auth_steps = wp_randomBytes wp_scrypt wp_find wp_store wp_verifyPassword wp_decoded

lemma first_where_Some: "first_where P rs = Some r \<Longrightarrow> r \<in> set rs \<and> P r"
  by (auto simp: first_where_def split: list.splits dest: filter_eq_ConsD)

lemma first_where_None: "first_where P rs = None \<longleftrightarrow> (\<forall>r \<in> set rs. \<not> P r)"
  by (induction rs) (auto simp: first_where_def)

lemma first_where_snoc:
  "(\<And>r. r \<in> set rs \<Longrightarrow> \<not> P r) \<Longrightarrow> first_where P (rs @ [r]) = (if P r then Some r else None)"
  by (simp add: first_where_def filter_empty_conv)

lemma first_where_key:
  "distinct (map f rs) \<Longrightarrow> r \<in> set rs \<Longrightarrow> first_where (\<lambda>x. f x = f r) rs = Some r"
  by (induction rs) (auto simp: first_where_def filter_empty_conv)

lemma cookie_of_plain:
  assumes "v \<noteq> []" "CHR '';'' \<notin> set v" "name \<noteq> []"
  shows "cookie_of name (Some (name @ ''='' @ v)) = Some v"
proof -
  have all: "takeWhile (\<lambda>x. x \<noteq> CHR '';'') v = v"
    using assms(2) by (subst takeWhile_eq_all_conv) blast
  obtain a as where h: "name @ ''='' @ v = a # as" using assms(3) by (cases name) auto
  have start: "starts_with (name @ ''='') (a # as)" "drop (length (name @ ''='')) (a # as) = v"
    unfolding h [symmetric] by (simp_all add: starts_with_iff)
  show ?thesis
    using start all assms(1) by (simp only: cookie_of_def option.case h session_match.simps) simp
qed

lemma cookie_of_header:
  "ck_value c \<noteq> [] \<Longrightarrow> ck_name c \<noteq> [] \<Longrightarrow>
     cookie_of (ck_name c) (Some (header_of c)) = Some (encodeURIComponent (ck_value c))"
  unfolding header_of_def by (intro cookie_of_plain encoded_nonempty encoded_no_semicolon)

subsection \<open>Sessions of providers\<close>

text \<open>What a successful login leaves.\<close>

definition session_opened :: "crypto \<Rightarrow> int \<Rightarrow> auth_store \<Rightarrow> account_view \<times> cookie \<Rightarrow> auth_store \<Rightarrow> bool" where
  "session_opened K t s r s' \<longleftrightarrow> (\<exists>a i. a \<in> set (provider_accounts s) \<and> fst r = view_account a
     \<and> ck_name (snd r) = ''chronos_provider_session'' \<and> ck_value (snd r) = base64 (random_bytes K i 48)
     \<and> s' = s\<lparr>provider_sessions := provider_sessions s @ [\<lparr>se_owner = ac_id a,
          se_hash = base64 (kdf K (ck_value (snd r)) provider_salt 32), se_expires = t + 86400000\<rparr>]\<rparr>)"

lemma session_openedI:
  "a \<in> set (provider_accounts s) \<Longrightarrow> s' = s\<lparr>provider_sessions := provider_sessions s @ [\<lparr>se_owner = ac_id a,
       se_hash = base64 (kdf K (base64 (random_bytes K i 48)) provider_salt 32), se_expires = t + 86400000\<rparr>]\<rparr> \<Longrightarrow>
     session_opened K t s (view_account a, \<lparr>ck_name = ''chronos_provider_session'',
       ck_value = base64 (random_bytes K i 48), ck_secure = b, ck_max_age = m\<rparr>) s'"
  by (auto simp: session_opened_def)

lemma wp_provider_login:
  assumes "clock_ms e = (\<lambda>_. t)" and "queue w = s"
  shows "wp (provider_login K email password) (\<lambda>r w'. session_opened K t s r (queue w')) (\<lambda>_ _. True) e w"
  unfolding provider_login_def Let_def createSession_def hashToken_def by_email_def
  apply (auto split: list.split option.split intro!: auth_steps simp: assms dest!: first_where_Some)
  apply (rule session_openedI; simp)
  done

text \<open>The guard, where nothing fails.\<close>

lemma providerGuard_run:
  assumes "reliable e" "clock_ms e = (\<lambda>_. t)" "cookie_of ''chronos_provider_session'' cookie = Some v"
    and "decodeURIComponent v = Some token"
  shows "fst (providerGuard K cookie e w)
    = (case live_session (base64 (kdf K token provider_salt 32)) t (queue w) of
         None \<Rightarrow> Inl (unauthorized ''Provider authentication required'') | Some (_, p) \<Rightarrow> Inr p)"
  using assms
  by (simp add: providerGuard_def hashToken_def findProviderByTokenHash_def prog_simps decoded_def scrypt_def
      queue_ask_def find_def split: option.split prod.split)

lemma session_lasts_a_day:
  assumes login: "provider_login K email password e w = (Inr (view, c), w')" and t: "clock_ms e = (\<lambda>_. t)"
    and new: "\<forall>r \<in> set (provider_sessions (queue w)). se_hash r \<noteq> base64 (kdf K (ck_value c) provider_salt 32)"
    and keys: "distinct (map ac_id (provider_accounts (queue w)))"
    and draws: "\<And>i. length (random_bytes K i 48) = 48"
    and later: "reliable e'" "clock_ms e' = (\<lambda>_. t')" "queue v = queue w'"
  shows "fst (provider_me K (Some (header_of c)) e' v)
    = (if t' < t + 86400000 then Inr view else Inl (unauthorized ''Provider authentication required''))"
proof -
  have "session_opened K t (queue w) (view, c) (queue w')"
    using wp_provider_login [OF t refl, of K email password w] login by (simp add: wp_def)
  then obtain a i where a: "a \<in> set (provider_accounts (queue w))" "view = view_account a"
    and c: "ck_name c = ''chronos_provider_session''" "ck_value c = base64 (random_bytes K i 48)"
    and s: "queue w' = (queue w)\<lparr>provider_sessions := provider_sessions (queue w) @ [\<lparr>se_owner = ac_id a,
      se_hash = base64 (kdf K (ck_value c) provider_salt 32), se_expires = t + 86400000\<rparr>]\<rparr>"
    by (auto simp: session_opened_def)
  have "random_bytes K i 48 \<noteq> []" using draws [of i] by auto
  then have cookie: "cookie_of ''chronos_provider_session'' (Some (header_of c)) = Some (encodeURIComponent (ck_value c))"
    using cookie_of_header [of c] c by (simp add: base64_nonempty)
  have dec: "decodeURIComponent (encodeURIComponent (ck_value c)) = Some (ck_value c)"
    unfolding c(2) by (rule decode_encode [OF base64_ascii])
  have "live_session (base64 (kdf K (ck_value c) provider_salt 32)) t' (queue v)
      = (if t' < t + 86400000 then Some (ac_id a, a) else None)"
    using new first_where_key [OF keys a(1)] unfolding later(3) s
    by (simp add: live_session_def first_where_snoc)
  then show ?thesis
    using providerGuard_run [OF later(1,2) cookie dec, of K v] a(2)
    by (auto simp: provider_me_def prog_simps split: prod.splits sum.splits if_splits)
qed

text \<open>A provider's session lasts one day to the millisecond: the cookie a login sets is accepted by the
  guard, in the name of the provider that logged in, before that time, and refused from then on. The
  token is new, so no session in the table has its hash.\<close>

theorem provider_session_lifetime:
  assumes login: "provider_login K email password e w = (Inr (view, c), w')" and t: "clock_ms e = (\<lambda>_. t)"
    and new: "\<forall>r \<in> set (provider_sessions (queue w)). se_hash r \<noteq> base64 (kdf K (ck_value c) provider_salt 32)"
    and keys: "distinct (map ac_id (provider_accounts (queue w)))"
    and draws: "\<And>i. length (random_bytes K i 48) = 48"
    and later: "reliable e'" "clock_ms e' = (\<lambda>_. t')" "queue v = queue w'"
  shows "fst (provider_me K (Some (header_of c)) e' v)
    = (if t' < t + 86400000 then Inr view else Inl (unauthorized ''Provider authentication required''))"
  using assms by (rule session_lasts_a_day)

text \<open>Logging out ends the session of the cookie for good: whatever time it is, the guard refuses the
  cookie afterwards.\<close>

theorem provider_logout_ends_session:
  assumes "provider_logout K cookie e w = (r, w')" "reliable e"
    and "cookie_of ''chronos_provider_session'' cookie = Some v" "decodeURIComponent v = Some token"
    and "reliable e'" "clock_ms e' = (\<lambda>_. t)" "queue u = queue w'"
  shows "fst (providerGuard K cookie e' u) = Inl (unauthorized ''Provider authentication required'')"
proof -
  let ?h = "base64 (kdf K token provider_salt 32)"
  have "provider_sessions (queue w') = filter (\<lambda>r. se_hash r \<noteq> ?h) (provider_sessions (queue w))"
    using assms(1-4)
    by (auto simp: provider_logout_def decoded_def prog_simps hashToken_def scrypt_def queue_ask_def
        revokeSession_def store_def queue_call_def)
  then have "first_where (\<lambda>r. se_hash r = ?h \<and> t < se_expires r) (provider_sessions (queue u)) = None"
    unfolding assms(7) by (simp add: first_where_None)
  then have "live_session ?h t (queue u) = None" by (simp add: live_session_def)
  then show ?thesis using providerGuard_run [OF assms(5,6,3,4), of K u] by simp
qed

lemma wp_providerGuard:
  "wp (providerGuard K cookie)
     (\<lambda>p w'. queue w' = queue w \<and> (\<exists>v token i r. cookie_of ''chronos_provider_session'' cookie = Some v
        \<and> decodeURIComponent v = Some token \<and> r \<in> set (provider_sessions (queue w))
        \<and> se_hash r = base64 (kdf K token provider_salt 32) \<and> clock_ms e i < se_expires r
        \<and> p \<in> set (provider_accounts (queue w)) \<and> ac_id p = se_owner r))
     (\<lambda>_ w'. queue w' = queue w) e w"
  unfolding providerGuard_def hashToken_def findProviderByTokenHash_def
  by (auto split: option.split intro!: auth_steps simp: live_session_def
      dest!: first_where_Some split: option.splits)
    blast+

text \<open>C23. The guard of a provider's routes lets a request in only with the token of a session that is stored
  and has not expired, and then only in the name of that session's provider. This holds whichever calls
  fail, and the guard changes nothing.\<close>

theorem provider_guard_sound:
  assumes "providerGuard K cookie e w = (Inr p, w')"
  shows "queue w' = queue w \<and> (\<exists>v token i r. cookie_of ''chronos_provider_session'' cookie = Some v
        \<and> decodeURIComponent v = Some token \<and> r \<in> set (provider_sessions (queue w))
        \<and> se_hash r = base64 (kdf K token provider_salt 32) \<and> clock_ms e i < se_expires r
        \<and> p \<in> set (provider_accounts (queue w)) \<and> ac_id p = se_owner r)"
  using wp_providerGuard [of K cookie w e] assms by (simp add: wp_def)

subsection \<open>Sessions of administrators\<close>

text \<open>Every stored hash was salted by an earlier draw.\<close>

definition salted_before :: "crypto \<Rightarrow> nat \<Rightarrow> auth_store \<Rightarrow> bool" where
  "salted_before K n s \<longleftrightarrow> (\<forall>r \<in> set (admin_sessions s). \<exists>i < n. \<exists>d.
     se_hash r = hashed (base64 (random_bytes K i 32)) d)"

lemma hashed_salt_eq: "hashed (base64 a) d = hashed (base64 b) d' \<Longrightarrow> a = b"
  using split_hashed [OF base64_no_colon, of a d] split_hashed [OF base64_no_colon, of b d']
  by (metis base64_inj list.inject)

lemma salted_before_cong:
  "admin_sessions s' = admin_sessions s \<Longrightarrow> salted_before K n s \<Longrightarrow> n \<le> m \<Longrightarrow> salted_before K m s'"
  unfolding salted_before_def by (metis order_less_le_trans)

lemma wp_admin_hashToken:
  assumes "\<And>d w'. queue w' = queue w \<Longrightarrow> tick w < tick w' \<Longrightarrow>
       Q (hashed (base64 (random_bytes K (tick w) 32)) d) w'"
    and "\<And>x w'. queue w' = queue w \<Longrightarrow> tick w < tick w' \<Longrightarrow> E x w'"
  shows "wp (admin_hashToken K token) Q E e w"
  unfolding admin_hashToken_def Let_def by (auto intro!: auth_steps assms)

text \<open>A fresh salt makes the hash of a token new, so it is never found.\<close>

definition fresh_draw :: "crypto \<Rightarrow> nat \<Rightarrow> bool" where
  "fresh_draw K n \<longleftrightarrow> (\<forall>i < n. random_bytes K i 32 \<noteq> random_bytes K n 32)"

lemma fresh_hash_unknown:
  assumes "fresh_draw K n" "salted_before K n s" "r \<in> set (admin_sessions s)"
  shows "se_hash r \<noteq> hashed (base64 (random_bytes K n 32)) d"
  using assms unfolding fresh_draw_def salted_before_def by (metis hashed_salt_eq)

lemma wp_adminGuard_refuses:
  assumes "fresh_draw K (tick w)" "salted_before K (tick w) (queue w)"
  shows "wp (adminGuard K cookie) (\<lambda>_ _. False) (\<lambda>_ _. True) e w"
proof -
  have none: "session_with_admin (hashed (base64 (random_bytes K (tick w) 32)) d) (queue w) = None" for d
  proof -
    have "first_where (\<lambda>r. se_hash r = hashed (base64 (random_bytes K (tick w) 32)) d) (admin_sessions (queue w)) = None"
      using fresh_hash_unknown [OF assms] by (simp add: first_where_None)
    then show ?thesis by (simp add: session_with_admin_def)
  qed
  show ?thesis
    unfolding adminGuard_def findByToken_def
    by (auto split: option.split intro!: wp_admin_hashToken wp_find simp: none)
qed

lemma wp_admin_logout_keeps:
  assumes "fresh_draw K (tick w)" "salted_before K (tick w) (queue w)"
  shows "wp (admin_logout K cookie) (\<lambda>_ w'. queue w' = queue w) (\<lambda>_ w'. queue w' = queue w) e w"
proof -
  have "filter (\<lambda>r. se_hash r \<noteq> hashed (base64 (random_bytes K (tick w) 32)) d) (admin_sessions (queue w))
      = admin_sessions (queue w)" for d
    using fresh_hash_unknown [OF assms] by (simp add: filter_id_conv)
  then show ?thesis
    unfolding admin_logout_def admin_revokeSession_def
    by (auto split: option.split intro!: wp_admin_hashToken wp_store)
qed

subsection \<open>Runs of requests\<close>

datatype auth_request =
    Admin_Login "string option" "string option"
  | Admin_Logout "string option"
  | Admin_Guarded_Logout "string option"
  | Admin_Status "string option"
  | Provider_Login "string option" "string option"
  | Provider_Logout "string option"
  | Provider_Me "string option"
  | Cleanup

definition void :: "'a auth \<Rightarrow> unit auth" where
  "void m = bind m (\<lambda>_. ret ())"

fun run_request :: "crypto \<Rightarrow> auth_request \<Rightarrow> unit auth" where
  "run_request K (Admin_Login email password) = void (admin_login K email password)"
| "run_request K (Admin_Logout cookie) = admin_logout K cookie"
| "run_request K (Admin_Guarded_Logout cookie) = guarded_logout K cookie"
| "run_request K (Admin_Status cookie) = void (admin_status K cookie)"
| "run_request K (Provider_Login email password) = void (provider_login K email password)"
| "run_request K (Provider_Logout cookie) = provider_logout K cookie"
| "run_request K (Provider_Me cookie) = void (provider_me K cookie)"
| "run_request K Cleanup = cleanupExpired"

text \<open>Requests one after the other from a world without sessions of administrators, each in any
  environment.\<close>

inductive auth_reachable :: "crypto \<Rightarrow> auth_store world \<Rightarrow> bool" for K where
  start: "admin_sessions (queue w) = [] \<Longrightarrow> auth_reachable K w"
| step: "auth_reachable K w \<Longrightarrow> auth_reachable K (snd (run_request K a e w))"

definition salted_on :: "crypto \<Rightarrow> nat \<Rightarrow> auth_store world \<Rightarrow> bool" where
  "salted_on K n w \<longleftrightarrow> n \<le> tick w \<and> salted_before K (tick w) (queue w)"

lemma salted_onI:
  "salted_on K n w \<Longrightarrow> set (admin_sessions (queue w')) \<subseteq> set (admin_sessions (queue w)) \<Longrightarrow>
     tick w \<le> tick w' \<Longrightarrow> salted_on K n w'"
  unfolding salted_on_def salted_before_def by (meson order_less_le_trans order_trans subsetD)

lemma salted_on_snoc:
  assumes "salted_on K n w" "tick w \<le> k" "k < tick w'"
    and "admin_sessions (queue w') = admin_sessions (queue w)
       @ [\<lparr>se_owner = i, se_hash = hashed (base64 (random_bytes K k 32)) d, se_expires = t\<rparr>]"
  shows "salted_on K n w'"
proof -
  have "\<exists>i < tick w'. \<exists>d. se_hash r = hashed (base64 (random_bytes K i 32)) d"
    if "r \<in> set (admin_sessions (queue w'))" for r
  proof (cases "r \<in> set (admin_sessions (queue w))")
    case True
    then obtain i d where "i < tick w" "se_hash r = hashed (base64 (random_bytes K i 32)) d"
      using assms(1) by (auto simp: salted_on_def salted_before_def)
    then show ?thesis using assms(2,3) by (meson order_less_le_trans less_imp_le)
  next
    case False
    then show ?thesis using that assms(3,4) by auto
  qed
  then show ?thesis using assms(1-3) by (simp add: salted_on_def salted_before_def)
qed

text \<open>Every step of a request keeps the hashes salted.\<close>

definition stays_salted :: "crypto \<Rightarrow> 'a auth \<Rightarrow> bool" where
  "stays_salted K m \<longleftrightarrow> (\<forall>n e w. salted_on K n w \<longrightarrow> salted_on K n (snd (m e w)))"

lemma stays_salted_simps [simp]:
  "stays_salted K (ret a)" "stays_salted K (raise x)" "stays_salted K now"
  "stays_salted K (decoded s)"
  by (auto simp: stays_salted_def prog_simps decoded_def split: option.split)

lemma stays_salted_bind:
  "stays_salted K m \<Longrightarrow> (\<And>a. stays_salted K (f a)) \<Longrightarrow> stays_salted K (bind m f)"
  unfolding stays_salted_def by (simp add: prog_simps split: prod.split sum.split) (metis snd_conv)

lemma stays_salted_swallow: "stays_salted K m \<Longrightarrow> stays_salted K (swallow m)"
  unfolding stays_salted_def by (auto simp: prog_simps case_prod_beta)

lemma stays_salted_calls [simp]:
  "stays_salted K (find f)" "stays_salted K (randomBytes K n)" "stays_salted K (scrypt K p s n)"
  by (auto simp: stays_salted_def find_def scrypt_def queue_ask_def randomBytes_def
      split: option.split elim: salted_onI)

lemma stays_salted_store:
  "(\<And>s. set (admin_sessions (f s)) \<subseteq> set (admin_sessions s)) \<Longrightarrow> stays_salted K (store f)"
  unfolding stays_salted_def store_def queue_call_def
  by (auto split: option.split elim!: salted_onI) (metis subsetD)

lemma stays_salted_split:
  "(x = None \<Longrightarrow> stays_salted K m) \<Longrightarrow> (\<And>y. x = Some y \<Longrightarrow> stays_salted K (g y)) \<Longrightarrow>
     stays_salted K (case x of None \<Rightarrow> m | Some y \<Rightarrow> g y)"
  "(l = [] \<Longrightarrow> stays_salted K m) \<Longrightarrow> (\<And>y ys. l = y # ys \<Longrightarrow> stays_salted K (h y ys)) \<Longrightarrow>
     stays_salted K (case l of [] \<Rightarrow> m | y # ys \<Rightarrow> h y ys)"
  "(\<And>y z. q = (y, z) \<Longrightarrow> stays_salted K (k y z)) \<Longrightarrow> stays_salted K (case q of (y, z) \<Rightarrow> k y z)"
  "(c \<Longrightarrow> stays_salted K m) \<Longrightarrow> (\<not> c \<Longrightarrow> stays_salted K m') \<Longrightarrow> stays_salted K (if c then m else m')"
  by (auto split: option.split list.split prod.split)

lemmas stays_salted_intros = stays_salted_bind stays_salted_swallow stays_salted_store stays_salted_split

text \<open>Adding a session is the one step that needs its hash to come from a draw.\<close>

lemma stays_salted_create: "stays_salted K (admin_createSession K i token)"
proof -
  have "wp (admin_createSession K i token) (\<lambda>_. salted_on K n) (\<lambda>_. salted_on K n) e w" if "salted_on K n w" for n e w
    unfolding admin_createSession_def
    by (auto intro!: wp_admin_hashToken wp_store elim: salted_on_snoc [OF that, rotated]
        intro: salted_onI [OF that] salted_on_snoc [OF that, of "tick w"])
  then show ?thesis unfolding stays_salted_def by (simp add: wp_snd)
qed

lemma stays_salted_request: "stays_salted K (run_request K a)"
proof (cases a)
  case Admin_Login
  show ?thesis
    unfolding Admin_Login run_request.simps void_def admin_login_def verifyPassword_def Let_def
    by (intro stays_salted_intros stays_salted_create stays_salted_simps stays_salted_calls
        | simp add: andthen_def)+
next
  case Admin_Logout
  show ?thesis
    unfolding Admin_Logout run_request.simps admin_logout_def admin_revokeSession_def admin_hashToken_def Let_def
    by (intro stays_salted_intros | auto)+
next
  case Admin_Guarded_Logout
  show ?thesis
    unfolding Admin_Guarded_Logout run_request.simps guarded_logout_def admin_logout_def admin_revokeSession_def
      adminGuard_def findByToken_def admin_hashToken_def Let_def
    by (intro stays_salted_intros | auto)+
next
  case Admin_Status
  show ?thesis
    unfolding Admin_Status run_request.simps void_def admin_status_def adminGuard_def findByToken_def
      admin_hashToken_def Let_def
    by (intro stays_salted_intros | auto)+
next
  case Provider_Login
  show ?thesis
    unfolding Provider_Login run_request.simps void_def provider_login_def verifyPassword_def createSession_def
      hashToken_def Let_def
    by (intro stays_salted_intros | simp add: andthen_def)+
next
  case Provider_Logout
  show ?thesis
    unfolding Provider_Logout run_request.simps provider_logout_def hashToken_def revokeSession_def
    by (intro stays_salted_intros | auto)+
next
  case Provider_Me
  show ?thesis
    unfolding Provider_Me run_request.simps void_def provider_me_def providerGuard_def hashToken_def
      findProviderByTokenHash_def
    by (intro stays_salted_intros | auto)+
next
  case Cleanup
  show ?thesis
    unfolding Cleanup run_request.simps cleanupExpired_def
    by (intro stays_salted_intros | auto)+
qed

lemma reachable_salted: "auth_reachable K w \<Longrightarrow> salted_on K 0 w"
proof (induction rule: auth_reachable.induct)
  case (step w a e)
  then show ?case using stays_salted_request [of K a] by (simp add: stays_salted_def)
qed (simp add: salted_on_def salted_before_def)

text \<open>C24. No administrator ever gets past the guard. \<open>hashToken\<close> salts each call anew and the session is
  looked up by the whole hash, so in every state that requests can lead to, as soon as the next draw
  differs from the earlier ones, the guard refuses every cookie, the one a login has just set included;
  and for the same reason logging out removes no session.\<close>

theorem admin_guard_refuses:
  assumes "auth_reachable K w" "fresh_draw K (tick w)"
  shows "fst (adminGuard K cookie e w) \<noteq> Inr admin
    \<and> queue (snd (admin_logout K cookie e w)) = queue w"
proof -
  have s: "salted_before K (tick w) (queue w)"
    using reachable_salted [OF assms(1)] by (simp add: salted_on_def)
  show ?thesis
    using wp_adminGuard_refuses [OF assms(2) s, of cookie e] wp_admin_logout_keeps [OF assms(2) s, of cookie e]
    by (auto simp: wp_def split: prod.splits sum.splits)
qed

subsection \<open>Clients\<close>

text \<open>A client's session is the client's identifier itself. The guard takes any value of the cookie as the
  identity of the request, so whoever knows an identifier is that client without having logged in; the
  development bypass is never open in production.\<close>

theorem client_session_is_id:
  assumes "clientId \<noteq> []" "CHR '';'' \<notin> set clientId" "production K"
  shows "authGuard K (Some (''chronos_session='' @ clientId)) = Inr (clientId, ''user'')
    \<and> authGuard K None = Inl (unauthorized ''Authentication required'')"
  using cookie_of_plain [OF assms(1,2), of "''chronos_session''"] assms(3)
  by (simp add: authGuard_def) (simp add: cookie_of_def)

text \<open>The login asks for nothing but the e-mail address.\<close>

lemma client_login_needs_email_only:
  assumes "reliable e" "tx w = No_Tx" "trim email \<noteq> []"
    and "first_where (\<lambda>c. c_email c = trim email) (clients (tabs w)) = Some c"
  shows "\<exists>w' k. client_login K (Some email) e w = (Inr (c, k), w') \<and> ck_value k = c_id c"
  using assms by (cases "trim email") (auto simp: client_login_def prog_simps query_def sel_def)

subsection \<open>Logins with the right password\<close>

lemma verifyPassword_right:
  assumes "reliable e" "salt \<noteq> []" "kdf K pw salt 32 \<noteq> []"
  shows "verifyPassword K pw (hashed (base64 salt) (kdf K pw salt 32)) e w = (Inr True, bump w)"
  using assms
  by (simp add: verifyPassword_def split_hashed base64_no_colon base64_roundtrip base64_nonempty prog_simps
      scrypt_def queue_ask_def)

lemma provider_login_run:
  assumes "reliable e" "salt \<noteq> []" "kdf K pw salt 32 \<noteq> []" "pw \<noteq> []" "trim m \<noteq> []"
    and "by_email (trim m) (provider_accounts (queue w)) = Some a"
    and "ac_hash a = Some (hashed (base64 salt) (kdf K pw salt 32))"
  shows "fst (provider_login K (Some m) (Some pw) e w)
    = Inr (view_account a, \<lparr>ck_name = ''chronos_provider_session'',
        ck_value = base64 (random_bytes K (tick w + 2) 48), ck_secure = production K, ck_max_age = 86400000\<rparr>)"
proof -
  have "m \<noteq> []" using assms(5) by (auto simp: trim_Nil)
  then have email: "or_else (Some m) [] = m" by (simp add: or_else_def)
  have hash: "truthy (Some (hashed s d)) = Some (hashed s d)" for s d by (simp add: hashed_def)
  show ?thesis
    using assms hash
    by (cases "trim m")
      (simp_all add: provider_login_def email createSession_def hashToken_def Let_def verifyPassword_right prog_simps
        find_def store_def scrypt_def queue_ask_def queue_call_def randomBytes_def numeral_2_eq_2)
qed

lemma admin_login_run:
  assumes "reliable e" "salt \<noteq> []" "kdf K pw salt 32 \<noteq> []" "pw \<noteq> []" "m \<noteq> []"
    and "by_email m (admin_accounts (queue w)) = Some a"
    and "ac_hash a = Some (hashed (base64 salt) (kdf K pw salt 32))"
  shows "\<exists>w'. admin_login K (Some m) (Some pw) e w
    = (Inr (view_account a, \<lparr>ck_name = ''chronos_admin_session'',
        ck_value = base64 (random_bytes K (tick w + 2) 32), ck_secure = production K,
        ck_max_age = 8 * 60 * 60 * 1000\<rparr>), w') \<and> tick w' = tick w + 6
      \<and> length (admin_sessions (queue w')) = Suc (length (admin_sessions (queue w)))"
proof -
  have hash: "truthy (Some (hashed s d)) = Some (hashed s d)" for s d by (simp add: hashed_def)
  have "truthy (Some m) = Some m" "truthy (Some pw) = Some pw" using assms(4,5) by (cases m; cases pw; simp)+
  then show ?thesis
    using assms hash
    by (simp add: admin_login_def admin_createSession_def admin_hashToken_def Let_def verifyPassword_right prog_simps
        find_def store_def scrypt_def queue_ask_def queue_call_def randomBytes_def)
qed

subsection \<open>A concrete run\<close>

definition demo_crypto :: crypto where
  "demo_crypto = \<lparr>kdf = (\<lambda>p s n. take n (p @ replicate n (CHR ''k''))),
     random_bytes = (\<lambda>i n. replicate n (char_of (65 + i))), production = True, no_real_auth = False\<rparr>"

definition demo_account :: account where
  "demo_account = \<lparr>ac_id = ''p1'', ac_name = Some ''Ada'', ac_email = Some ''ada@x.org'', ac_slug = ''ada'',
     ac_tz = ''UTC'', ac_hash = Some (hashed (base64 ''salt'') (''pw'' @ replicate 30 (CHR ''k'')))\<rparr>"

definition demo_auth_store :: auth_store where
  "demo_auth_store = \<lparr>provider_accounts = [demo_account], admin_accounts = [demo_account], provider_sessions = [],
     admin_sessions = []\<rparr>"

definition auth_env_at :: "int \<Rightarrow> auth_store env" where
  "auth_env_at t = \<lparr>fault = (\<lambda>_. None), lands = (\<lambda>_. False), clock_ms = (\<lambda>_. t),
     fresh = (\<lambda>n. replicate (Suc n) (CHR ''x'')), pool_pins = True, driver_dates = True,
     double_release = None, range_text = [], queue_add = (\<lambda>_ _ _ q. Inr q), queue_get = (\<lambda>_ _. Inr False),
     queue_remove = (\<lambda>_ q. Inr q)\<rparr>"

definition demo_auth_world :: "auth_store world" where
  "demo_auth_world = \<lparr>tabs = demo_tables, tx = No_Tx, tick = 0, leased = [], queue = demo_auth_store\<rparr>"

lemma demo_account_hash:
  "ac_hash demo_account = Some (hashed (base64 ''salt'') (kdf demo_crypto ''pw'' ''salt'' 32))"
  by (simp add: demo_account_def demo_crypto_def)

lemma demo_auth_reliable: "reliable (auth_env_at t)" "clock_ms (auth_env_at t) = (\<lambda>_. t)"
  by (simp_all add: auth_env_at_def reliable_def)

lemma demo_trim: "trim ''ada@x.org'' = ''ada@x.org''"
  by (rule trim_plain) (simp_all add: strip_one_def js_space_def upt_conv_Cons)

lemma demo_by_email:
  "by_email ''ada@x.org'' (provider_accounts (queue demo_auth_world)) = Some demo_account"
  "by_email ''ada@x.org'' (admin_accounts (queue demo_auth_world)) = Some demo_account"
  by (simp_all add: by_email_def first_where_def demo_auth_world_def demo_auth_store_def demo_account_def)

definition demo_cookie :: cookie where
  "demo_cookie = \<lparr>ck_name = ''chronos_provider_session'', ck_value = base64 (random_bytes demo_crypto 2 48),
     ck_secure = True, ck_max_age = 86400000\<rparr>"

definition after_login :: "auth_store world" where
  "after_login = snd (provider_login demo_crypto (Some ''ada@x.org'') (Some ''pw'') (auth_env_at 1000) demo_auth_world)"

lemma demo_draws: "length (random_bytes demo_crypto i n) = n"
  by (simp add: demo_crypto_def)

lemma demo_provider_login:
  "provider_login demo_crypto (Some ''ada@x.org'') (Some ''pw'') (auth_env_at 1000) demo_auth_world
    = (Inr (view_account demo_account, demo_cookie), after_login)"
proof -
  have "kdf demo_crypto ''pw'' ''salt'' 32 \<noteq> []" "production demo_crypto" by (simp_all add: demo_crypto_def)
  then have "fst (provider_login demo_crypto (Some ''ada@x.org'') (Some ''pw'') (auth_env_at 1000) demo_auth_world)
      = Inr (view_account demo_account, demo_cookie)"
    using provider_login_run [of "auth_env_at 1000" "''salt''" demo_crypto "''pw''" "''ada@x.org''" demo_auth_world
        demo_account] demo_account_hash demo_trim demo_by_email demo_auth_reliable(1)
    by (simp add: demo_cookie_def demo_auth_world_def numeral_2_eq_2)
  then show ?thesis by (simp add: after_login_def prod_eq_iff)
qed

theorem provider_session_lifetime_witness:
  "fst (provider_me demo_crypto (Some (header_of demo_cookie)) (auth_env_at 2000) after_login)
      = Inr (view_account demo_account)
    \<and> fst (provider_me demo_crypto (Some (header_of demo_cookie)) (auth_env_at 86401000) after_login)
      = Inl (unauthorized ''Provider authentication required'')"
  using provider_session_lifetime [OF demo_provider_login demo_auth_reliable(2) _ _ demo_draws demo_auth_reliable refl,
      of 2000]
    provider_session_lifetime [OF demo_provider_login demo_auth_reliable(2) _ _ demo_draws demo_auth_reliable refl,
      of 86401000]
  by (simp add: demo_auth_world_def demo_auth_store_def)

lemma demo_cookie_value:
  "cookie_of ''chronos_provider_session'' (Some (header_of demo_cookie)) = Some (encodeURIComponent (ck_value demo_cookie))"
proof -
  have "random_bytes demo_crypto 2 48 \<noteq> []" by (simp add: demo_crypto_def)
  then show ?thesis
    using cookie_of_header [of demo_cookie] by (simp add: demo_cookie_def base64_nonempty)
qed

lemma demo_cookie_decodes: "decodeURIComponent (encodeURIComponent (ck_value demo_cookie)) = Some (ck_value demo_cookie)"
  unfolding demo_cookie_def cookie.simps by (rule decode_encode [OF base64_ascii])

theorem provider_logout_ends_session_witness:
  "fst (providerGuard demo_crypto (Some (header_of demo_cookie)) (auth_env_at 2000)
      (snd (provider_logout demo_crypto (Some (header_of demo_cookie)) (auth_env_at 1500) after_login)))
    = Inl (unauthorized ''Provider authentication required'')"
  by (rule provider_logout_ends_session [OF surjective_pairing demo_auth_reliable(1) demo_cookie_value
        demo_cookie_decodes demo_auth_reliable refl])

theorem provider_guard_sound_witness:
  "\<exists>p w'. providerGuard demo_crypto (Some (header_of demo_cookie)) (auth_env_at 2000) after_login = (Inr p, w')
    \<and> queue w' = queue after_login \<and> p \<in> set (provider_accounts (queue after_login))"
proof -
  have "fst (provider_me demo_crypto (Some (header_of demo_cookie)) (auth_env_at 2000) after_login)
      = Inr (view_account demo_account)"
    using session_lasts_a_day [OF demo_provider_login demo_auth_reliable(2) _ _ demo_draws demo_auth_reliable refl,
      of 2000]
    by (simp add: demo_auth_world_def demo_auth_store_def)
  then obtain p w' where "providerGuard demo_crypto (Some (header_of demo_cookie)) (auth_env_at 2000) after_login = (Inr p, w')"
    by (auto simp: provider_me_def prog_simps split: prod.splits sum.splits)
  then show ?thesis using provider_guard_sound by blast
qed

theorem password_roundtrip_witness:
  "(case hashPassword demo_crypto ''pw'' (auth_env_at 0) demo_auth_world of
      (Inr h, w) \<Rightarrow> fst (verifyPassword demo_crypto ''pw'' h (auth_env_at 0) w) = Inr True
        \<and> fst (verifyPassword demo_crypto ''px'' h (auth_env_at 0) w) = Inr False
    | _ \<Rightarrow> False)"
proof -
  obtain h w where h: "hashPassword demo_crypto ''pw'' (auth_env_at 0) demo_auth_world = (Inr h, w)"
    using demo_auth_reliable(1) [of 0]
    by (simp add: hashPassword_def prog_simps randomBytes_def scrypt_def queue_ask_def Let_def)
  have k: "\<And>p s. length (kdf demo_crypto p s 32) = 32" by (simp add: demo_crypto_def)
  have "kdf demo_crypto ''px'' s 32 \<noteq> kdf demo_crypto ''pw'' s 32" for s by (simp add: demo_crypto_def)
  then show ?thesis
    using password_roundtrip [OF h demo_auth_reliable(1) demo_draws k, of "''pw''" 0 w]
      password_roundtrip [OF h demo_auth_reliable(1) demo_draws k, of "''px''" 0 w]
    by (simp add: h)
qed

text \<open>The administrator of this witness has just logged in with the right password.\<close>

definition after_admin_login :: "auth_store world" where
  "after_admin_login =
     snd (run_request demo_crypto (Admin_Login (Some ''ada@x.org'') (Some ''pw'')) (auth_env_at 1000) demo_auth_world)"

theorem admin_guard_refuses_witness:
  "length (admin_sessions (queue after_admin_login)) = 1
    \<and> fst (adminGuard demo_crypto (Some (''chronos_admin_session='' @ base64 (random_bytes demo_crypto 2 32)))
        (auth_env_at 1000) after_admin_login) \<noteq> Inr demo_account"
proof -
  have "kdf demo_crypto ''pw'' ''salt'' 32 \<noteq> []" by (simp add: demo_crypto_def)
  then have w: "tick after_admin_login = 6" "length (admin_sessions (queue after_admin_login)) = 1"
    using admin_login_run [of "auth_env_at 1000" "''salt''" demo_crypto "''pw''" "''ada@x.org''" demo_auth_world
        demo_account] demo_account_hash demo_by_email demo_auth_reliable(1) [of 1000]
    by (auto simp: after_admin_login_def void_def prog_simps) (simp_all add: demo_auth_world_def demo_auth_store_def)
  have "auth_reachable demo_crypto after_admin_login"
    unfolding after_admin_login_def
    by (intro auth_reachable.intros) (simp add: demo_auth_world_def demo_auth_store_def)
  moreover have "fresh_draw demo_crypto (tick after_admin_login)"
  proof -
    have "char_of (65 + i) \<noteq> (char_of (71 :: nat) :: char)" if "i < (6 :: nat)" for i
      using that by (simp add: char_of_eq_iff take_bit_nat_eq_self)
    then show ?thesis by (simp add: w fresh_draw_def demo_crypto_def)
  qed
  ultimately show ?thesis
    using admin_guard_refuses [of demo_crypto after_admin_login] w(2) by blast
qed

theorem client_session_is_id_witness:
  "authGuard demo_crypto (Some ''chronos_session=c1'') = Inr (''c1'', ''user'')"
  using client_session_is_id [of "''c1''" demo_crypto] by (simp add: demo_crypto_def)

end
