(* ===== verification/Materializer.thy ===== *)
theory Materializer
  imports Quiet Json Time_Core
begin

text \<open>
  \<^verbatim>\<open>apps/api/src/materialize\<close>: turning the weekly rules of providers into slots of the next sixty days.
  The rules are the state the program carries beside the tables; the reading of a raw SQL text by the
  database and \<open>Intl\<close>'s date format are parameters.
\<close>

record rule_row =
  ru_provider :: string
  ru_dow :: int
  ru_start :: string
  ru_end :: string
  ru_active :: bool

record stats =
  providersProcessed :: nat
  rulesProcessed :: nat
  slotsCreated :: nat
  slotsSkipped :: nat
  stat_errors :: nat

definition no_stats :: stats where
  "no_stats = \<lparr>providersProcessed = 0, rulesProcessed = 0, slotsCreated = 0, slotsSkipped = 0, stat_errors = 0\<rparr>"

definition horizonDays :: int where "horizonDays = 60"

definition defaultSlotMinutes :: int where "defaultSlotMinutes = 60"

text \<open>What the program calls outside the repository: the zone data, \<open>Intl.DateTimeFormat('en-CA')\<close> on an
  instant (\<open>None\<close> when it throws) and the database's reading of a raw statement.\<close>

record host =
  zones :: zone_db
  en_CA_date :: "string \<Rightarrow> int \<Rightarrow> string option"
  raw_sql :: "string \<Rightarrow> unit stmt"

text \<open>\<open>Date.prototype.toISOString\<close>: always three digits of milliseconds.\<close>

definition toISOString :: "int \<Rightarrow> string" where
  "toISOString t = date_text (civil_of_day (t div ms_per_day)) @ ''T''
     @ clock_text (t mod ms_per_day div 1000) @ ''.'' @ pad_digits 3 (t mod 1000) @ ''Z''"

definition localDateInZone :: "host \<Rightarrow> int \<Rightarrow> string \<Rightarrow> string" where
  "localDateInZone H t tz =
     (case en_CA_date H tz t of Some d \<Rightarrow> d | None \<Rightarrow> take 10 (toISOString t))"

subsection \<open>One window per weekday\<close>

text \<open>The map from weekdays to windows, in the order of insertion; setting a known key keeps its place.\<close>

fun set_key :: "int \<Rightarrow> 'v \<Rightarrow> (int \<times> 'v) list \<Rightarrow> (int \<times> 'v) list" where
  "set_key k v [] = [(k, v)]"
| "set_key k v ((k', v') # m) = (if k' = k then (k, v) # m else (k', v') # set_key k v m)"

definition add_rule :: "rule_row \<Rightarrow> (int \<times> string \<times> string) list \<Rightarrow> (int \<times> string \<times> string) list" where
  "add_rule r m =
     (case map_of m (ru_dow r) of
        Some existing \<Rightarrow> if fst existing > ru_start r then set_key (ru_dow r) (ru_start r, ru_end r) m else m
      | None \<Rightarrow> set_key (ru_dow r) (ru_start r, ru_end r) m)"

definition byDow :: "rule_row list \<Rightarrow> (int \<times> string \<times> string) list" where
  "byDow rs = fold add_rule rs []"

subsection \<open>The slots of a provider\<close>

definition window_slots ::
    "host \<Rightarrow> provider_row \<Rightarrow> string \<Rightarrow> string \<Rightarrow> int \<times> string \<times> string \<Rightarrow> js_error + gen_slot list" where
  "window_slots H p fromDate toDate win = (case win of (dow, start, end) \<Rightarrow>
     generateSlots (zones H) (p_tz p) defaultSlotMinutes
       (Some \<lparr>daysOfWeek = Some [dow], startTime = Some start, endTime = Some end\<rparr>) fromDate toDate)"

fun all_windows :: "(int \<times> string \<times> string \<Rightarrow> js_error + gen_slot list) \<Rightarrow> (int \<times> string \<times> string) list \<Rightarrow>
    js_error + gen_slot list" where
  "all_windows f [] = Inr []"
| "all_windows f (win # ws) = sbind (f win) (\<lambda>s. sbind (all_windows f ws) (\<lambda>t. Inr (s @ t)))"

text \<open>One row of the batch as the JSON object \<open>{p, s, e, t, d}\<close>.\<close>

definition batch_row :: "provider_row \<Rightarrow> gen_slot \<Rightarrow> string" where
  "batch_row p s = stringify
     [(''p'', Some (p_id p)), (''s'', Some (toISOString (startUtc s))), (''e'', Some (toISOString (endUtc s))),
      (''t'', Some ''open''), (''d'', Some (if p_tz p = [] then ''UTC'' else p_tz p))]"

definition insert_head :: string where
  "insert_head =
     ''INSERT INTO slots (provider_id, slot_start_utc, slot_end_utc, status, display_tz) SELECT * FROM UNNEST(''"

definition insert_tail :: string where
  "insert_tail =
     ''::jsonb) AS t(p text, s text, e text, t text, d text) ON CONFLICT (provider_id, slot_start_utc) DO NOTHING''"

definition insert_sql :: "provider_row \<Rightarrow> gen_slot list \<Rightarrow> string" where
  "insert_sql p ss = insert_head @ ''['' @ join_commas (map (batch_row p) ss) @ '']'' @ insert_tail"

text \<open>\<open>e.code === 'P2002'\<close>.\<close>

fun prisma_duplicate :: "exn \<Rightarrow> bool" where
  "prisma_duplicate (Pg_Error c _) = (c = ''P2002'')"
| "prisma_duplicate _ = False"

definition insert_batch :: "host \<Rightarrow> provider_row \<Rightarrow> gen_slot list \<Rightarrow> stats \<Rightarrow> ('q, stats) prog" where
  "insert_batch H p ss st =
     try_catch
       (andthen (query Pool (raw_sql H (insert_sql p ss))) (ret (st\<lparr>slotsCreated := slotsCreated st + length ss\<rparr>)))
       (\<lambda>x. if prisma_duplicate x then ret (st\<lparr>slotsSkipped := slotsSkipped st + length ss\<rparr>)
         else ret (st\<lparr>stat_errors := stat_errors st + length ss\<rparr>))"

text \<open>The outcome of a call whose exception leaves the loop, with the statistics so far.\<close>

definition attempt :: "('q, 'a) prog \<Rightarrow> ('q, exn + 'a) prog" where
  "attempt m = try_catch (bind m (\<lambda>a. ret (Inr a))) (\<lambda>x. ret (Inl x))"

type_synonym 'a mat = "(rule_row list, 'a) prog"

definition active_rules :: "string \<Rightarrow> rule_row list mat" where
  "active_rules p = queue_ask (\<lambda>_ rs. Inr (filter (\<lambda>r. ru_provider r = p \<and> ru_active r) rs))"

definition aborted :: "stats \<Rightarrow> stats" where
  "aborted st = st\<lparr>stat_errors := stat_errors st + 1\<rparr>"

primrec each_provider :: "host \<Rightarrow> string \<Rightarrow> string \<Rightarrow> provider_row list \<Rightarrow> stats \<Rightarrow> stats mat" where
  "each_provider H fromDate toDate [] st = ret st"
| "each_provider H fromDate toDate (p # ps) st =
     bind (attempt (active_rules (p_id p))) (\<lambda>r. case r of
        Inl x \<Rightarrow> ret (aborted st)
      | Inr rules \<Rightarrow>
          let st1 = st\<lparr>rulesProcessed := rulesProcessed st + length rules\<rparr> in
          (case all_windows (window_slots H p fromDate toDate) (byDow rules) of
             Inl x \<Rightarrow> ret (aborted st1)
           | Inr gs \<Rightarrow> bind (insert_batch H p gs st1) (each_provider H fromDate toDate ps)))"

definition materialize :: "host \<Rightarrow> string option \<Rightarrow> stats mat" where
  "materialize H providerId =
     bind (attempt (query Pool (sel (case truthy providerId of Some i \<Rightarrow> providers_by_id i | None \<Rightarrow> providers))))
       (\<lambda>r. case r of
          Inl x \<Rightarrow> ret (aborted no_stats)
        | Inr ps \<Rightarrow>
            let st = no_stats\<lparr>providersProcessed := length ps\<rparr> in
            bind now (\<lambda>t.
              let fromDate = take 10 (localDateInZone H t ''UTC'') in
            bind now (\<lambda>t'.
              let toDate = take 10 (localDateInZone H (t' + horizonDays * 86400000) ''UTC'') in
            each_provider H fromDate toDate ps st)))"

definition runOnce :: "host \<Rightarrow> string option \<Rightarrow> stats mat" where
  "runOnce H providerId = materialize H providerId"

subsection \<open>The window kept for a weekday\<close>

lemma map_of_set_key: "map_of (set_key k v m) = (map_of m)(k \<mapsto> v)"
  by (induction k v m rule: set_key.induct) auto

lemma keys_set_key: "set (map fst (set_key k v m)) = insert k (set (map fst m))"
  by (induction k v m rule: set_key.induct) auto

lemma distinct_set_key: "distinct (map fst m) \<Longrightarrow> distinct (map fst (set_key k v m))"
  by (induction k v m rule: set_key.induct) (auto simp: keys_set_key simp del: set_map)

lemma byDow_snoc: "byDow (rs @ [r]) = add_rule r (byDow rs)"
  by (simp add: byDow_def)

lemma byDow_distinct: "distinct (map fst (byDow rs))"
  by (induction rs rule: rev_induct)
    (auto simp: byDow_snoc add_rule_def distinct_set_key split: option.split, simp add: byDow_def)

text \<open>The earliest start wins; the other windows of that weekday are dropped.\<close>

definition earliest :: "rule_row list \<Rightarrow> int \<Rightarrow> (string \<times> string) option \<Rightarrow> bool" where
  "earliest rs d x \<longleftrightarrow> (case x of
     None \<Rightarrow> \<forall>r \<in> set rs. ru_dow r \<noteq> d
   | Some (start, end) \<Rightarrow> (\<exists>r \<in> set rs. ru_dow r = d \<and> ru_start r = start \<and> ru_end r = end)
       \<and> (\<forall>r \<in> set rs. ru_dow r = d \<longrightarrow> start \<le> ru_start r))"

lemma byDow_earliest: "earliest rs d (map_of (byDow rs) d)"
proof (induction rs rule: rev_induct)
  case Nil
  then show ?case by (simp add: earliest_def byDow_def)
next
  case (snoc r rs)
  then show ?case
    by (auto simp: earliest_def byDow_snoc add_rule_def map_of_set_key split: option.splits prod.splits)
qed

subsection \<open>The slots of a provider do not overlap\<close>

text \<open>Slots on days of one weekday, each within its day.\<close>

definition on_weekday :: "int \<Rightarrow> int \<Rightarrow> int \<Rightarrow> int \<Rightarrow> gen_slot \<Rightarrow> bool" where
  "on_weekday ofs a b d g \<longleftrightarrow> (\<exists>n. a \<le> n \<and> n \<le> b \<and> iso_weekday n = d \<and> startUtc g < endUtc g
     \<and> n * ms_per_day \<le> startUtc g + ofs \<and> endUtc g + ofs < (n + 1) * ms_per_day)"

definition apart :: "gen_slot \<Rightarrow> gen_slot \<Rightarrow> bool" where
  "apart x y \<longleftrightarrow> endUtc x \<le> startUtc y \<or> endUtc y \<le> startUtc x"

lemma other_weekday_apart:
  assumes "on_weekday ofs a b d x" "on_weekday ofs a b d' y" "d \<noteq> d'"
  shows "apart x y"
proof -
  obtain n m where n: "iso_weekday n = d" "startUtc x < endUtc x" "n * ms_per_day \<le> startUtc x + ofs"
      "endUtc x + ofs < (n + 1) * ms_per_day"
    and m: "iso_weekday m = d'" "startUtc y < endUtc y" "m * ms_per_day \<le> startUtc y + ofs"
      "endUtc y + ofs < (m + 1) * ms_per_day"
    using assms(1,2) unfolding on_weekday_def by blast
  have "n \<noteq> m" using n(1) m(1) assms(3) by auto
  then consider "n + 1 \<le> m" | "m + 1 \<le> n" by linarith
  then show ?thesis
  proof cases
    case 1
    then have "(n + 1) * ms_per_day \<le> m * ms_per_day" by (intro mult_right_mono) (simp_all add: ms_per_day_def)
    then show ?thesis using n m by (simp add: apart_def)
  next
    case 2
    then have "(m + 1) * ms_per_day \<le> n * ms_per_day" by (intro mult_right_mono) (simp_all add: ms_per_day_def)
    then show ?thesis using n m by (simp add: apart_def)
  qed
qed

lemma all_windows_apart:
  assumes "\<And>d s e. (d, s, e) \<in> set ws \<Longrightarrow> \<exists>gs. f (d, s, e) = Inr gs \<and> sorted_wrt apart gs \<and> (\<forall>g \<in> set gs. on_weekday ofs a b d g)"
    and "distinct (map fst ws)"
  shows "\<exists>gs. all_windows f ws = Inr gs \<and> sorted_wrt apart gs
    \<and> (\<forall>g \<in> set gs. \<exists>d \<in> set (map fst ws). on_weekday ofs a b d g)"
  using assms
proof (induction ws)
  case (Cons win ws)
  obtain d s e where w: "win = (d, s, e)" by (cases win)
  obtain gs where gs: "f win = Inr gs" "sorted_wrt apart gs" "\<forall>g \<in> set gs. on_weekday ofs a b d g"
    using Cons.prems(1) [of d s e] by (auto simp: w)
  obtain hs where hs: "all_windows f ws = Inr hs" "sorted_wrt apart hs"
    "\<forall>g \<in> set hs. \<exists>d \<in> set (map fst ws). on_weekday ofs a b d g"
    using Cons.IH Cons.prems by force
  have "apart g h" if g: "g \<in> set gs" and h: "h \<in> set hs" for g h
  proof -
    obtain d' where d': "d' \<in> set (map fst ws)" "on_weekday ofs a b d' h" using hs(3) h by blast
    moreover have "d \<noteq> d'" using Cons.prems(2) d'(1) by (auto simp: w)
    ultimately show ?thesis using gs(3) g other_weekday_apart by blast
  qed
  then show ?case using gs hs by (auto simp: w sbind_simps sorted_wrt_append)
qed simp

definition plain_rule :: "rule_row \<Rightarrow> bool" where
  "plain_rule r \<longleftrightarrow> (\<exists>s e. ru_start r = hhmm s \<and> ru_end r = hhmm e \<and> 0 \<le> s \<and> s \<le> e \<and> e < 1440)"

lemma window_slots_ok:
  assumes "zones H (p_tz p) = Some (\<lambda>_. ofs)" "p_tz p \<noteq> []" "\<bar>ofs\<bar> \<le> ms_per_day"
    and "parse_plain_date f = Inr a" "parse_plain_date t = Inr b" "0 \<le> a" "a \<le> b" "b < 2932896"
    and "0 \<le> s" "s \<le> e" "e < 1440"
  shows "\<exists>gs. window_slots H p f t (d, hhmm s, hhmm e) = Inr gs \<and> sorted_wrt apart gs
    \<and> (\<forall>g \<in> set gs. on_weekday ofs a b d g)"
proof -
  let ?r = "Some \<lparr>daysOfWeek = Some [d], startTime = Some (hhmm s), endTime = Some (hhmm e)\<rparr>"
  obtain gs where gs: "window_slots H p f t (d, hhmm s, hhmm e) = Inr gs"
    "gs = concat (map (\<lambda>n. if rule_covers ?r (iso_weekday n) then fixed_slots ofs 60 s e n else []) [a..b])"
    "sorted_wrt (\<lambda>x y. endUtc x \<le> startUtc y) gs"
    using generateSlots_fixed [where zdb = "zones H" and tz = "p_tz p" and ofs = ofs and sm = 60 and f = f and a = a
        and t = t and b = b and r = ?r and s = s and e = e] assms
    by (auto simp: window_slots_def defaultSlotMinutes_def rule_start_def rule_end_def)
  have "on_weekday ofs a b d g" if g: "g \<in> set gs" for g
  proof -
    obtain n where n: "a \<le> n" "n \<le> b" "iso_weekday n = d" "g \<in> set (fixed_slots ofs 60 s e n)"
      using g gs(2) by (auto simp: rule_covers_def split: if_splits)
    show ?thesis
      using n fixed_slots_bounds [OF n(4) _ assms(9,11)]
      by (auto simp: on_weekday_def ms_per_day_def intro!: exI [of _ n])
  qed
  moreover have "sorted_wrt apart gs"
    by (rule sorted_wrt_mono_rel [OF _ gs(3)]) (simp add: apart_def)
  ultimately show ?thesis using gs(1) by blast
qed

lemma slots_apart:
  assumes "zones H (p_tz p) = Some (\<lambda>_. ofs)" "p_tz p \<noteq> []" "\<bar>ofs\<bar> \<le> ms_per_day"
    and "parse_plain_date f = Inr a" "parse_plain_date t = Inr b" "0 \<le> a" "a \<le> b" "b < 2932896"
    and "\<forall>r \<in> set rules. plain_rule r"
  shows "\<exists>gs. all_windows (window_slots H p f t) (byDow rules) = Inr gs \<and> sorted_wrt apart gs
    \<and> (\<forall>g \<in> set gs. \<exists>r \<in> set rules. on_weekday ofs a b (ru_dow r) g)"
proof -
  have kept: "\<exists>r \<in> set rules. ru_dow r = d \<and> ru_start r = s \<and> ru_end r = e" if "(d, s, e) \<in> set (byDow rules)" for d s e
    using byDow_earliest [of rules d] that byDow_distinct [of rules] by (simp add: earliest_def)
  have "\<exists>gs. window_slots H p f t (d, s, e) = Inr gs \<and> sorted_wrt apart gs \<and> (\<forall>g \<in> set gs. on_weekday ofs a b d g)"
    if win: "(d, s, e) \<in> set (byDow rules)" for d s e
  proof -
    obtain r where r: "r \<in> set rules" "ru_start r = s" "ru_end r = e" using kept [OF win] by blast
    obtain i j where "s = hhmm i" "e = hhmm j" "0 \<le> i" "i \<le> j" "j < 1440"
      using assms(9) r unfolding plain_rule_def by blast
    then show ?thesis using window_slots_ok [OF assms(1-8)] by blast
  qed
  then obtain gs where gs: "all_windows (window_slots H p f t) (byDow rules) = Inr gs" "sorted_wrt apart gs"
    "\<forall>g \<in> set gs. \<exists>d \<in> set (map fst (byDow rules)). on_weekday ofs a b d g"
    using all_windows_apart [OF _ byDow_distinct, of rules] by blast
  moreover have "\<exists>r \<in> set rules. on_weekday ofs a b (ru_dow r) g" if g: "g \<in> set gs" for g
    using gs(3) g kept by force
  ultimately show ?thesis by blast
qed

text \<open>C26. In a zone whose offset does not change, rules with times \<open>HH:MM\<close> that end after they start always
  materialize, and no two of the slots generated for a provider overlap: each lies within one day, on the
  weekday of one of the provider's rules.\<close>

theorem materialized_slots_apart:
  assumes "zones H (p_tz p) = Some (\<lambda>_. ofs)" "p_tz p \<noteq> []" "\<bar>ofs\<bar> \<le> ms_per_day"
    and "parse_plain_date f = Inr a" "parse_plain_date t = Inr b" "0 \<le> a" "a \<le> b" "b < 2932896"
    and "\<forall>r \<in> set rules. plain_rule r"
  shows "\<exists>gs. all_windows (window_slots H p f t) (byDow rules) = Inr gs \<and> sorted_wrt apart gs
    \<and> (\<forall>g \<in> set gs. \<exists>r \<in> set rules. on_weekday ofs a b (ru_dow r) g)"
  using assms by (rule slots_apart)

subsection \<open>The batch is never stored\<close>

text \<open>
  PostgreSQL's grammar has no expression that begins with a bracket, so a statement whose argument of
  \<open>UNNEST\<close> does is a syntax error, which the client reports under the code P2010.
\<close>

definition rejects_bracket :: "host \<Rightarrow> bool" where
  "rejects_bracket H \<longleftrightarrow>
     (\<forall>rest n u t. \<exists>m. raw_sql H (insert_head @ ''['' @ rest) n u t = Inl (Pg_Error ''P2010'' m))"

lemma insert_sql_rejected:
  "rejects_bracket H \<Longrightarrow> \<exists>m. raw_sql H (insert_sql p ss) n u t = Inl (Pg_Error ''P2010'' m)"
  unfolding rejects_bracket_def insert_sql_def by blast

lemma wp_attempt [simp]:
  "wp (attempt m) Q E e = wp m (\<lambda>a. Q (Inr a)) (\<lambda>x. Q (Inl x)) e"
  by (simp add: attempt_def)

lemma wp_insert_batch:
  assumes "rejects_bracket H" "idle T w" "slotsCreated st = 0"
    and "\<And>st' w'. slotsCreated st' = 0 \<Longrightarrow> idle T w' \<Longrightarrow> Q st' w'"
  shows "wp (insert_batch H p ss st) Q E e w"
proof -
  have no: "raw_sql H (insert_sql p ss) n u t \<noteq> Inr r" for n u t r
    using insert_sql_rejected [OF assms(1), of p ss n u t] by auto
  show ?thesis
    unfolding insert_batch_def wp_try_catch wp_andthen
    by (rule wp_query_idle [OF assms(2)]) (auto simp: no assms(3) intro: assms(4))
qed

lemma wp_each_provider:
  assumes "rejects_bracket H"
  shows "idle T w \<Longrightarrow> slotsCreated st = 0 \<Longrightarrow>
    wp (each_provider H f t ps st) (\<lambda>st' w'. slotsCreated st' = 0 \<and> idle T w') E e w"
proof (induction ps arbitrary: st w)
  case (Cons p ps)
  show ?case
    unfolding each_provider.simps wp_bind wp_attempt active_rules_def
    by (rule wp_queue_ask [OF Cons.prems(1)])
      (auto simp: Let_def aborted_def Cons.prems(2) split: sum.split intro!: wp_insert_batch [OF assms] Cons.IH)
qed simp

lemma wp_materialize:
  assumes "rejects_bracket H" "idle T w"
  shows "wp (materialize H i) (\<lambda>st w'. slotsCreated st = 0 \<and> idle T w') (\<lambda>_ _. False) e w"
  unfolding materialize_def wp_bind wp_attempt
  by (rule wp_sel_idle [OF assms(2)])
    (auto simp: Let_def aborted_def no_stats_def intro!: wp_each_provider [OF assms(1)])

text \<open>C27. The materializer never stores a slot. The rows are written into the SQL text without quotes, so
  the database rejects every batch; the exception is swallowed, the call returns, and its statistics
  report no slot created, whichever calls fail besides.\<close>

theorem materialize_creates_nothing:
  assumes "rejects_bracket H" "idle T w"
  shows "\<exists>st w'. materialize H i e w = (Inr st, w') \<and> slotsCreated st = 0 \<and> committed w' = T"
  using wp_returns [OF wp_materialize [OF assms, of i e]] idle_committed by blast

subsection \<open>The materializer of the database package\<close>

text \<open>
  \<^verbatim>\<open>packages/db/src/materializer.ts\<close> inserts the slots one by one. The statement passes over a row that
  would overlap another slot of the provider, start with one or reuse an identifier.
\<close>

definition overlapping :: "string \<Rightarrow> int \<Rightarrow> int \<Rightarrow> tables \<Rightarrow> bool" where
  "overlapping p st en t \<longleftrightarrow>
     list_ex (\<lambda>x. s_provider x = p \<and> (s_start x = st \<or> (s_start x < en \<and> st < s_end x))) (slots t)"

definition insert_slot :: "string \<Rightarrow> int \<Rightarrow> int \<Rightarrow> string \<Rightarrow> unit stmt" where
  "insert_slot p st en tz n u t =
     (if en \<le> st then Inl check_violation
      else if overlapping p st en t \<or> u \<in> s_id ` set (slots t) then Inr ((), t)
      else if p \<notin> p_id ` set (providers t) then Inl fk_violation
      else Inr ((), t\<lparr>slots := slots t @ [\<lparr>s_id = u, s_provider = p, s_start = st, s_end = en, s_tz = tz,
        s_status = Open\<rparr>]\<rparr>))"

definition js_exn :: "js_error \<Rightarrow> exn" where
  "js_exn x = Js_Error (case x of Error m \<Rightarrow> m | Range_Error \<Rightarrow> ''RangeError'' | Type_Error \<Rightarrow> ''TypeError'')"

definition package_slots :: "zone_db \<Rightarrow> string \<Rightarrow> string \<Rightarrow> string \<Rightarrow> js_error + gen_slot list" where
  "package_slots zdb tz fromDate toDate = generateSlots zdb tz 30
     (Some \<lparr>daysOfWeek = None, startTime = Some ''09:00'', endTime = Some ''17:00''\<rparr>) fromDate toDate"

definition materializeProvider ::
    "zone_db \<Rightarrow> chan \<Rightarrow> string \<Rightarrow> string \<Rightarrow> string \<Rightarrow> string \<Rightarrow> ('q, unit) prog" where
  "materializeProvider zdb db providerId fromDate toDate tz =
     (case package_slots zdb tz fromDate toDate of Inl x \<Rightarrow> raise (js_exn x)
      | Inr gs \<Rightarrow> for_each gs (\<lambda>g. query db (insert_slot providerId (startUtc g) (endUtc g) tz)))"

text \<open>What the exclusion constraint promises.\<close>

definition no_overlap :: "tables \<Rightarrow> bool" where
  "no_overlap t \<longleftrightarrow> (\<forall>x \<in> set (slots t). s_start x < s_end x)
     \<and> sorted_wrt (\<lambda>x y. s_provider x = s_provider y \<longrightarrow> s_end x \<le> s_start y \<or> s_end y \<le> s_start x) (slots t)"

lemma insert_slot_no_overlap [pres_intros]: "keeps_stmt no_overlap (insert_slot p st en tz)"
  by (rule keeps_stmtI)
    (auto simp: insert_slot_def overlapping_def no_overlap_def sorted_wrt_append list_ex_iff not_less split: if_splits)

text \<open>A slot with a new identifier is held by no booking.\<close>

lemma insert_slot_consistent [pres_intros]: "keeps_stmt consistent (insert_slot p st en tz)"
proof (rule keeps_stmtI)
  fix n u t r t'
  assume ok: "consistent t" and run: "insert_slot p st en tz n u t = Inr (r, t')"
  show "consistent t'"
  proof (cases "t' = t")
    case False
    then have new: "u \<notin> s_id ` set (slots t)" and t': "slots t' = slots t @ [\<lparr>s_id = u, s_provider = p,
        s_start = st, s_end = en, s_tz = tz, s_status = Open\<rparr>]"
      "bookings t' = bookings t" "clients t' = clients t" "reminders t' = reminders t" "idempotency t' = idempotency t"
      using run by (auto simp: insert_slot_def split: if_splits)
    have live: "live_on i t' = live_on i t" for i by (simp add: live_on_def t')
    have "live_on u t = []"
      using ok new by (auto simp: consistent_iff schema_ok_def refs_ok_def live_on_def filter_empty_conv)
    moreover have "schema_ok t'"
      using ok new by (auto simp: consistent_iff schema_ok_def keys_ok_def refs_ok_def one_live_per_slot_def live t')
    ultimately show ?thesis using ok by (auto simp: consistent_iff live t')
  qed (use ok in simp)
qed

text \<open>Materializing keeps what the database and the services rely on: slots of a provider do not overlap
  and end after they start, and a slot is held exactly when a live booking has it; also when a statement
  fails half way through the list.\<close>

theorem materializeProvider_keeps:
  fixes w :: "'q world"
  assumes "tx w = No_Tx" "no_overlap (tabs w)" "consistent (tabs w)"
  shows "no_overlap (committed (snd (materializeProvider zdb db p f t tz e w)))
    \<and> consistent (committed (snd (materializeProvider zdb db p f t tz e w)))"
proof -
  have all: "keeps I (materializeProvider zdb db p f t tz :: ('q, unit) prog)" if "\<And>st en. keeps_stmt I (insert_slot p st en tz)" for I
    unfolding materializeProvider_def
    by (cases "package_slots zdb tz f t") (auto intro!: pres_intros that)
  show ?thesis
    using all [OF insert_slot_no_overlap] all [OF insert_slot_consistent] assms by (auto simp: keeps_def holds_def)
qed

text \<open>A slot is covered when inserting it again does nothing.\<close>

definition covered :: "string \<Rightarrow> tables \<Rightarrow> gen_slot \<Rightarrow> bool" where
  "covered p t g \<longleftrightarrow> startUtc g < endUtc g \<and> overlapping p (startUtc g) (endUtc g) t"

definition new_ids :: "'q env \<Rightarrow> 'q world \<Rightarrow> bool" where
  "new_ids e w \<longleftrightarrow> inj (fresh e) \<and> (\<forall>k \<ge> tick w. fresh e k \<notin> s_id ` set (slots (tabs w)))"

lemma insert_slot_covers:
  assumes "query db (insert_slot p (startUtc g) (endUtc g) tz) e w = (Inr (), w')" "tx w = No_Tx" "new_ids e w"
  shows "covered p (tabs w') g \<and> tx w' = No_Tx \<and> new_ids e w'
    \<and> (\<forall>h. covered p (tabs w) h \<longrightarrow> covered p (tabs w') h)"
proof -
  obtain n where run: "insert_slot p (startUtc g) (endUtc g) tz n (fresh e (tick w)) (tabs w) = Inr ((), tabs w')"
    and w': "tick w' = Suc (tick w)" "tx w' = No_Tx"
    using assms(1,2) by (auto simp: query_def split: option.splits if_splits sum.splits prod.splits)
  have u: "fresh e (tick w) \<notin> s_id ` set (slots (tabs w))" using assms(3) by (simp add: new_ids_def)
  consider (skip) "tabs w' = tabs w" "overlapping p (startUtc g) (endUtc g) (tabs w)"
    | (add) "slots (tabs w') = slots (tabs w) @ [\<lparr>s_id = fresh e (tick w), s_provider = p, s_start = startUtc g,
        s_end = endUtc g, s_tz = tz, s_status = Open\<rparr>]"
    using run [symmetric] u by (auto simp: insert_slot_def split: if_splits)
  note step = this
  have pos: "startUtc g < endUtc g" using run by (auto simp: insert_slot_def split: if_splits)
  have "s_id ` set (slots (tabs w')) \<subseteq> insert (fresh e (tick w)) (s_id ` set (slots (tabs w)))"
    by (cases rule: step) auto
  then have "fresh e k \<notin> s_id ` set (slots (tabs w'))" if "Suc (tick w) \<le> k" for k
    using assms(3) that unfolding new_ids_def by (metis Suc_leD Suc_n_not_le_n inj_eq insertE subsetD)
  then have "new_ids e w'"
    using assms(3) by (simp add: new_ids_def w')
  then show ?thesis
    using pos w' by (cases rule: step) (auto simp: covered_def overlapping_def)
qed

lemma inserted_covers:
  "for_each gs (\<lambda>g. query db (insert_slot p (startUtc g) (endUtc g) tz)) e w = (Inr (), w') \<Longrightarrow>
     tx w = No_Tx \<Longrightarrow> new_ids e w \<Longrightarrow>
     (\<forall>g \<in> set gs. covered p (tabs w') g) \<and> (\<forall>h. covered p (tabs w) h \<longrightarrow> covered p (tabs w') h)"
proof (induction gs arbitrary: w)
  case (Cons g gs)
  obtain v where g: "query db (insert_slot p (startUtc g) (endUtc g) tz) e w = (Inr (), v)"
    and gs: "for_each gs (\<lambda>g. query db (insert_slot p (startUtc g) (endUtc g) tz)) e v = (Inr (), w')"
    using Cons.prems(1) by (auto simp: prog_simps split: prod.splits sum.splits)
  show ?case
    using Cons.IH [OF gs] insert_slot_covers [OF g Cons.prems(2,3)] by auto
qed (simp add: prog_simps)

lemma insert_covered:
  assumes "covered p T g" "tx w = No_Tx \<and> tabs w = T"
  shows "wp (query db (insert_slot p (startUtc g) (endUtc g) tz)) (\<lambda>_ w. tx w = No_Tx \<and> tabs w = T)
    (\<lambda>_ w. tx w = No_Tx \<and> tabs w = T) e w"
  using assms by (auto simp: wp_def query_def insert_slot_def covered_def split: option.splits)

lemma insert_all_covered:
  "\<forall>g \<in> set gs. covered p T g \<Longrightarrow> tx w = No_Tx \<and> tabs w = T \<Longrightarrow>
     wp (for_each gs (\<lambda>g. query db (insert_slot p (startUtc g) (endUtc g) tz))) (\<lambda>_ w. tx w = No_Tx \<and> tabs w = T)
       (\<lambda>_ w. tx w = No_Tx \<and> tabs w = T) e w"
  by (rule wp_for_each) (auto intro: insert_covered)

text \<open>Materializing is idempotent: once a call has gone through, repeating it over the same dates changes
  nothing, in any environment, so slots are never duplicated. The identifiers drawn by the first call
  are new.\<close>

theorem materializeProvider_idempotent:
  assumes "materializeProvider zdb db p f t tz e w = (Inr (), w')" "tx w = No_Tx" "new_ids e w"
    and "tx v = No_Tx" "tabs v = tabs w'"
  shows "tabs (snd (materializeProvider zdb db' p f t tz e' v)) = tabs w'"
proof -
  obtain gs where gs: "package_slots zdb tz f t = Inr gs"
    and run: "for_each gs (\<lambda>g. query db (insert_slot p (startUtc g) (endUtc g) tz)) e w = (Inr (), w')"
    using assms(1) by (auto simp: materializeProvider_def prog_simps split: sum.splits)
  show ?thesis
    using insert_all_covered [of gs p "tabs w'" v db' tz e'] inserted_covers [OF run assms(2,3)] assms(4,5)
    by (auto simp: materializeProvider_def gs wp_def split: prod.splits sum.splits)
qed

text \<open>Where nothing fails and the provider exists, the call goes through.\<close>

lemma insert_all_runs:
  fixes w :: "'q world"
  assumes "reliable e" "\<forall>g \<in> set gs. startUtc g < endUtc g"
  shows "tx w = No_Tx \<and> p \<in> p_id ` set (providers (tabs w)) \<Longrightarrow>
    wp (for_each gs (\<lambda>g. query db (insert_slot p (startUtc g) (endUtc g) tz)))
      (\<lambda>_ w. tx w = No_Tx \<and> p \<in> p_id ` set (providers (tabs w))) (\<lambda>_ _. False) e w"
proof (rule wp_for_each)
  fix g and w :: "'q world"
  assume "g \<in> set gs" "tx w = No_Tx \<and> p \<in> p_id ` set (providers (tabs w))"
  then show "wp (query db (insert_slot p (startUtc g) (endUtc g) tz))
      (\<lambda>_ w. tx w = No_Tx \<and> p \<in> p_id ` set (providers (tabs w))) (\<lambda>_ _. False) e w"
    using assms by (auto simp: wp_def query_def insert_slot_def)
qed

subsection \<open>A concrete host\<close>

definition demo_host :: host where
  "demo_host = \<lparr>zones = ny_zone, en_CA_date = (\<lambda>_ _. None),
     raw_sql = (\<lambda>sql n u t. if starts_with (insert_head @ ''['') sql
       then Inl (Pg_Error ''P2010'' ''syntax error at or near ['') else Inr ((), t))\<rparr>"

definition demo_rules :: "rule_row list" where
  "demo_rules =
     [\<lparr>ru_provider = ''p1'', ru_dow = 1, ru_start = hhmm 780, ru_end = hhmm 1020, ru_active = True\<rparr>,
      \<lparr>ru_provider = ''p1'', ru_dow = 1, ru_start = hhmm 540, ru_end = hhmm 720, ru_active = True\<rparr>,
      \<lparr>ru_provider = ''p1'', ru_dow = 3, ru_start = hhmm 600, ru_end = hhmm 720, ru_active = True\<rparr>]"

definition demo_mat_env :: "rule_row list env" where
  "demo_mat_env = \<lparr>fault = (\<lambda>_. None), lands = (\<lambda>_. False), clock_ms = (\<lambda>_. 1793000000000),
     fresh = (\<lambda>n. replicate (Suc n) (CHR ''x'')), pool_pins = True, driver_dates = True,
     double_release = None, range_text = [], queue_add = (\<lambda>_ _ _ q. Inr q), queue_get = (\<lambda>_ _. Inr False),
     queue_remove = (\<lambda>_ q. Inr q)\<rparr>"

definition demo_mat_world :: "rule_row list world" where
  "demo_mat_world = \<lparr>tabs = demo_tables, tx = No_Tx, tick = 0, leased = [], queue = demo_rules\<rparr>"

lemma demo_host_rejects: "rejects_bracket demo_host"
  by (simp add: rejects_bracket_def demo_host_def starts_with_iff)

theorem materialize_creates_nothing_witness:
  "\<exists>st w'. materialize demo_host None demo_mat_env demo_mat_world = (Inr st, w') \<and> slotsCreated st = 0
    \<and> committed w' = demo_tables"
  by (rule materialize_creates_nothing [OF demo_host_rejects]) (simp add: idle_def demo_mat_world_def)

text \<open>Of the two windows of Monday only the morning is kept.\<close>

lemma demo_byDow: "byDow demo_rules = [(1, hhmm 540, hhmm 720), (3, hhmm 600, hhmm 720)]"
  by code_simp

theorem materialized_slots_apart_witness:
  "\<exists>gs. all_windows (window_slots demo_host (hd (providers demo_tables)) ''2026-03-08'' ''2026-11-01'')
        (byDow demo_rules) = Inr gs
    \<and> sorted_wrt apart gs \<and> (\<forall>g \<in> set gs. \<exists>r \<in> set demo_rules. on_weekday 0 20520 20758 (ru_dow r) g)"
proof (rule materialized_slots_apart [OF _ _ _ ny_spring_date ny_fall_date])
  have "plain_rule \<lparr>ru_provider = p, ru_dow = d, ru_start = hhmm s, ru_end = hhmm e, ru_active = x\<rparr>"
    if "0 \<le> s" "s \<le> e" "e < 1440" for p d s e x
    using that by (auto simp: plain_rule_def)
  then show "\<forall>r \<in> set demo_rules. plain_rule r" by (simp add: demo_rules_def)
qed (simp_all add: demo_host_def ny_zone_def demo_tables_def ms_per_day_def)

lemma demo_package: "\<exists>gs. package_slots ny_zone ''UTC'' ''2026-03-08'' ''2026-11-01'' = Inr gs
  \<and> (\<forall>g \<in> set gs. startUtc g < endUtc g)"
proof -
  let ?r = "Some \<lparr>daysOfWeek = None, startTime = Some ''09:00'', endTime = Some ''17:00''\<rparr>"
  have "hhmm 540 = ''09:00''" "hhmm 1020 = ''17:00''" by code_simp+
  then have t: "rule_start ?r = hhmm 540" "rule_end ?r = hhmm 1020"
    by (simp_all add: rule_start_def rule_end_def)
  have spans: "startUtc g < endUtc g"
    if g: "g \<in> set (concat (map (\<lambda>n. if rule_covers ?r (iso_weekday n) then fixed_slots 0 30 540 1020 n else []) ns))"
    for g ns
  proof -
    obtain n where "g \<in> set (fixed_slots 0 30 540 1020 n)" using g by (auto split: if_splits)
    then show ?thesis by (rule fixed_slots_bounds(3)) simp_all
  qed
  obtain gs where "package_slots ny_zone ''UTC'' ''2026-03-08'' ''2026-11-01'' = Inr gs"
    "gs = concat (map (\<lambda>n. if rule_covers ?r (iso_weekday n) then fixed_slots 0 30 540 1020 n else []) [20520..20758])"
  proof -
    assume *: "\<And>gs. package_slots ny_zone ''UTC'' ''2026-03-08'' ''2026-11-01'' = Inr gs \<Longrightarrow>
      gs = concat (map (\<lambda>n. if rule_covers ?r (iso_weekday n) then fixed_slots 0 30 540 1020 n else []) [20520..20758])
        \<Longrightarrow> thesis"
    have "ny_zone ''UTC'' = Some (\<lambda>_. 0)" by (simp add: ny_zone_def)
    then show thesis
      using generateSlots_fixed [where zdb = ny_zone and tz = "''UTC''" and ofs = 0 and sm = 30 and r = ?r,
          OF _ _ _ _ _ ny_spring_date ny_fall_date _ _ _ t] *
      by (simp add: package_slots_def ms_per_day_def del: upto_rec_numeral)
  qed
  then show ?thesis using spans by blast
qed

lemma demo_materialized:
  "\<exists>w'. materializeProvider ny_zone Pool ''p1'' ''2026-03-08'' ''2026-11-01'' ''UTC'' demo_env demo_world = (Inr (), w')
    \<and> tx w' = No_Tx"
proof -
  obtain gs where gs: "package_slots ny_zone ''UTC'' ''2026-03-08'' ''2026-11-01'' = Inr gs"
    "\<forall>g \<in> set gs. startUtc g < endUtc g" using demo_package by blast
  show ?thesis
    using wp_returns [OF insert_all_runs [OF demo_reliable gs(2), of demo_world "''p1''" Pool "''UTC''"]]
    unfolding materializeProvider_def gs(1) sum.case
    by (force simp: demo_world_def demo_tables_def)
qed

theorem materializeProvider_idempotent_witness:
  "\<exists>w'. materializeProvider ny_zone Pool ''p1'' ''2026-03-08'' ''2026-11-01'' ''UTC'' demo_env demo_world = (Inr (), w')
    \<and> tabs (snd (materializeProvider ny_zone Pool ''p1'' ''2026-03-08'' ''2026-11-01'' ''UTC'' demo_env w')) = tabs w'"
proof -
  obtain w' where w': "materializeProvider ny_zone Pool ''p1'' ''2026-03-08'' ''2026-11-01'' ''UTC'' demo_env demo_world
      = (Inr (), w')" "tx w' = No_Tx" using demo_materialized by blast
  have "inj (\<lambda>n. replicate (Suc n) (CHR ''x''))"
    by (rule injI) (metis length_replicate Suc_inject)
  then have "new_ids demo_env demo_world"
    by (auto simp: new_ids_def demo_env_def demo_world_def demo_tables_def)
  then show ?thesis
    using w' materializeProvider_idempotent [OF w'(1) _ _ w'(2) refl] by (auto simp: demo_world_def)
qed

theorem materializeProvider_keeps_witness:
  "no_overlap (committed (snd (materializeProvider ny_zone Pool ''p1'' ''2026-03-08'' ''2026-11-01'' ''UTC''
      demo_env demo_world)))"
  using materializeProvider_keeps [of demo_world] demo_consistent
  by (simp add: demo_world_def) (simp add: no_overlap_def demo_tables_def)

end
