(* ===== verification/Insights.thy ===== *)
theory Insights
  imports Complex_Main Auth Materializer
begin

text \<open>
  The read-only routes of a provider: \<^verbatim>\<open>apps/api/src/reports\<close>, \<^verbatim>\<open>analytics\<close>, \<^verbatim>\<open>billing\<close> and
  \<^verbatim>\<open>dashboard\<close>. All of them run behind the guard of providers and read bookings through their slots.
  Percentages are computed in double precision as the code does. \<open>Date.parse\<close> and the server's local
  calendar are parameters; prices are whole numbers.
\<close>

subsection \<open>Numbers\<close>

function bits :: "int \<Rightarrow> nat" where
  "bits n = (if n \<le> 0 then 0 else Suc (bits (n div 2)))"
  by pat_completeness auto

termination
  by (relation "measure nat") auto

declare bits.simps [simp del]

text \<open>The exponent of the leading bit of a positive fraction, and rounding to 53 bits, ties to even.\<close>

definition leading_bit :: "rat \<Rightarrow> int" where
  "leading_bit x = (case quotient_of x of (p, q) \<Rightarrow>
     let k = int (bits p) - int (bits q) in if 2 powi k \<le> x then k else k - 1)"

definition round_half_even :: "rat \<Rightarrow> int" where
  "round_half_even y = (let f = \<lfloor>y\<rfloor>; d = y - of_int f in
     if d < 1 / 2 then f else if d > 1 / 2 then f + 1 else if even f then f else f + 1)"

definition double_of :: "rat \<Rightarrow> rat" where
  "double_of x = (if x \<le> 0 then 0 else
     let e = leading_bit x - 52 in of_int (round_half_even (x * 2 powi (- e))) * 2 powi e)"

text \<open>\<open>Math.round\<close> and \<open>Math.round((c / t) * 100)\<close>.\<close>

definition math_round :: "rat \<Rightarrow> int" where
  "math_round x = \<lfloor>x + 1 / 2\<rfloor>"

definition percent :: "nat \<Rightarrow> nat \<Rightarrow> int" where
  "percent c t = math_round (double_of (double_of (of_nat c / of_nat t) * 100))"

subsection \<open>Rows of a provider\<close>

record calendar_host =
  parse_date :: "string \<Rightarrow> int option"
  month_start :: "int \<Rightarrow> int"

record booking_join =
  j_booking :: booking_row
  j_slot :: slot_row
  j_client :: "client_row option"
  j_event :: "event_type_row option"

definition event_of :: "tables \<Rightarrow> booking_row \<Rightarrow> event_type_row option" where
  "event_of t b = (case b_event_type b of None \<Rightarrow> None | Some i \<Rightarrow> first_where (\<lambda>e. e_id e = i) (event_types t))"

text \<open>\<open>where: { slot: { providerId }, createdAt }\<close> with the included rows.\<close>

definition provider_bookings :: "string \<Rightarrow> (int \<Rightarrow> bool) \<Rightarrow> tables \<Rightarrow> booking_join list" where
  "provider_bookings p inRange t =
     map (\<lambda>(b, s). \<lparr>j_booking = b, j_slot = s, j_client = first_where (\<lambda>c. c_id c = b_client b) (clients t),
       j_event = event_of t b\<rparr>)
      (filter (\<lambda>(b, s). s_provider s = p) (joined (\<lambda>b. inRange (b_created b)) t))"

definition newest :: "nat \<Rightarrow> booking_join list \<Rightarrow> booking_join list" where
  "newest n js = take n (sort_key (\<lambda>j. - b_created (j_booking j)) js)"

text \<open>The bounds of a query: \<open>None\<close> when one of them is not a date, which the database client refuses.\<close>

definition bound :: "calendar_host \<Rightarrow> string option \<Rightarrow> int option option" where
  "bound H s = (case truthy s of None \<Rightarrow> Some None | Some x \<Rightarrow> map_option Some (parse_date H x))"

definition range_of :: "calendar_host \<Rightarrow> string option \<Rightarrow> string option \<Rightarrow> (int \<Rightarrow> bool) option" where
  "range_of H start end =
     (case (bound H start, bound H end) of
        (Some lo, Some hi) \<Rightarrow> Some (\<lambda>x. (case lo of None \<Rightarrow> True | Some a \<Rightarrow> a \<le> x) \<and> (case hi of None \<Rightarrow> True | Some z \<Rightarrow> x \<le> z))
      | _ \<Rightarrow> None)"

definition invalid_date :: exn where
  "invalid_date = Js_Error ''Invalid value for argument: Provided Date object is invalid''"

definition rows_in :: "(int \<Rightarrow> bool) option \<Rightarrow> ((int \<Rightarrow> bool) \<Rightarrow> tables \<Rightarrow> 'a) \<Rightarrow> ('q, 'a) prog" where
  "rows_in dates f = (case dates of None \<Rightarrow> raise invalid_date | Some r \<Rightarrow> query Pool (sel (f r)))"

subsection \<open>Reports\<close>

definition price_of :: "booking_join \<Rightarrow> int" where
  "price_of j = (case truthy (b_event_type (j_booking j)) of None \<Rightarrow> 0
     | Some _ \<Rightarrow> (case j_event j of None \<Rightarrow> 0 | Some e \<Rightarrow> (case e_price e of None \<Rightarrow> 0 | Some x \<Rightarrow> x)))"

definition em_dash :: string where
  "em_dash = map char_of [226 :: nat, 128, 148]"

definition day_text :: "int \<Rightarrow> string" where
  "day_text t = hd (split_on (CHR ''T'') (toISOString t))"

record report_row =
  rr_id :: string
  rr_status :: booking_status
  rr_client :: string
  rr_event :: string
  rr_date :: string
  rr_revenue :: int

text \<open>The event type has no property \<open>name\<close>, so its column is always a dash.\<close>

definition report_row_of :: "booking_join \<Rightarrow> report_row" where
  "report_row_of j =
     \<lparr>rr_id = b_id (j_booking j), rr_status = b_status (j_booking j),
      rr_client = (case j_client j of None \<Rightarrow> ''Unknown''
        | Some c \<Rightarrow> or_else (Some (c_name c)) (or_else (Some (c_email c)) ''Unknown'')),
      rr_event = em_dash, rr_date = day_text (s_start (j_slot j)), rr_revenue = price_of j\<rparr>"

record report =
  rp_success :: bool
  rp_message :: "string option"
  rp_revenue :: int
  rp_completed :: nat
  rp_reschedule :: string
  rp_cancellation :: string
  rp_breakdown :: "report_row list"
  rp_count :: nat
  rp_range :: "string option \<times> string option"

definition with_status_in :: "booking_status set \<Rightarrow> booking_join list \<Rightarrow> booking_join list" where
  "with_status_in S js = filter (\<lambda>j. b_status (j_booking j) \<in> S) js"

definition day_bound :: "string \<Rightarrow> string option \<Rightarrow> string option" where
  "day_bound clock s = map_option (\<lambda>x. x @ (if length x = 10 then clock else [])) (truthy s)"

definition make_report :: "string option \<times> string option \<Rightarrow> booking_join list \<Rightarrow> report" where
  "make_report dates js =
     (let completed = with_status_in {Completed, Booked} js; dropped = length (with_status_in {Cancelled} js) in
      \<lparr>rp_success = True, rp_message = None, rp_revenue = sum_list (map price_of completed),
       rp_completed = length completed, rp_reschedule = ''N/A (no reschedule persistence in schema)'',
       rp_cancellation = (if js = [] then ''0%'' else int_text (percent dropped (length js)) @ ''%''),
       rp_breakdown = map report_row_of js, rp_count = length js, rp_range = dates\<rparr>)"

definition failed_report :: "string option \<times> string option \<Rightarrow> string \<Rightarrow> report" where
  "failed_report dates message =
     \<lparr>rp_success = False, rp_message = Some (or_else (Some message) ''Internal error''), rp_revenue = 0,
      rp_completed = 0, rp_reschedule = ''0%'', rp_cancellation = ''0%'', rp_breakdown = [], rp_count = 0, rp_range = dates\<rparr>"

text \<open>A route behind the guard of providers, given the provider's identifier.\<close>

definition as_provider :: "crypto \<Rightarrow> string option \<Rightarrow> (string \<Rightarrow> 'a auth) \<Rightarrow> 'a auth" where
  "as_provider K cookie f = bind (providerGuard K cookie) (\<lambda>p.
     if ac_id p = [] then raise (unauthorized ''Provider session required'') else f (ac_id p))"

definition getReports ::
    "crypto \<Rightarrow> calendar_host \<Rightarrow> string option \<Rightarrow> string option \<Rightarrow> string option \<Rightarrow> report auth" where
  "getReports K H cookie start end = as_provider K cookie (\<lambda>p.
     let dates = (truthy start, truthy end) in
     try_catch
       (bind (rows_in (range_of H (day_bound ''T00:00:00Z'' start) (day_bound ''T23:59:59Z'' end))
          (\<lambda>r t. newest 500 (provider_bookings p r t))) (\<lambda>js. ret (make_report dates js)))
       (\<lambda>x. ret (failed_report dates (exn_text x))))"

subsection \<open>Analytics\<close>

record analytics =
  an_range :: "string option \<times> string option"
  an_total :: int
  an_completed :: int
  an_cancelled :: int
  an_no_show :: int
  an_booked :: int
  an_completionRate :: int
  an_cancellationRate :: int
  an_utilization :: int
  an_bookings :: "booking_join list"
  an_error :: "string option"

definition count_in :: "string \<Rightarrow> booking_status set \<Rightarrow> (int \<Rightarrow> bool) \<Rightarrow> tables \<Rightarrow> nat" where
  "count_in p S r t = length (with_status_in S (provider_bookings p r t))"

definition rate :: "nat \<Rightarrow> nat \<Rightarrow> int" where
  "rate c t = (if 0 < t then percent c t else 0)"

definition make_analytics ::
    "string option \<times> string option \<Rightarrow> nat \<Rightarrow> nat \<Rightarrow> nat \<Rightarrow> nat \<Rightarrow> booking_join list \<Rightarrow> analytics" where
  "make_analytics dates overall completed dropped noShow js =
     (let finished = completed + dropped + noShow;
          openSlots = length (filter (\<lambda>j. s_status (j_slot j) = Open) js);
          bookedSlots = length (filter (\<lambda>j. s_status (j_slot j) = Held) js) in
      \<lparr>an_range = dates, an_total = int overall, an_completed = int completed, an_cancelled = int dropped,
       an_no_show = int noShow, an_booked = int overall - int dropped - int noShow,
       an_completionRate = rate completed finished, an_cancellationRate = rate dropped finished,
       an_utilization = rate bookedSlots (openSlots + bookedSlots), an_bookings = js, an_error = None\<rparr>)"

definition zero_analytics :: "string option \<times> string option \<Rightarrow> analytics" where
  "zero_analytics dates =
     \<lparr>an_range = dates, an_total = 0, an_completed = 0, an_cancelled = 0, an_no_show = 0, an_booked = 0,
      an_completionRate = 0, an_cancellationRate = 0, an_utilization = 0, an_bookings = [],
      an_error = Some ''Analytics unavailable (zero-state)''\<rparr>"

definition getAnalytics ::
    "crypto \<Rightarrow> calendar_host \<Rightarrow> string option \<Rightarrow> string option \<Rightarrow> string option \<Rightarrow> analytics auth" where
  "getAnalytics K H cookie start end = as_provider K cookie (\<lambda>p.
     let dates = (truthy start, truthy end); r = range_of H start end in
     try_catch
       (bind (rows_in r (count_in p UNIV)) (\<lambda>overall.
        bind (rows_in r (count_in p {Completed})) (\<lambda>completed.
        bind (rows_in r (count_in p {Cancelled})) (\<lambda>dropped.
        bind (rows_in r (count_in p {No_Show})) (\<lambda>noShow.
        bind (rows_in r (\<lambda>r t. newest 200 (provider_bookings p r t))) (\<lambda>js.
          ret (make_analytics dates overall completed dropped noShow js)))))))
       (\<lambda>_. ret (zero_analytics dates)))"

subsection \<open>Billing\<close>

record billing =
  bl_bookingsThisMonth :: nat
  bl_eventTypes :: nat
  bl_clients :: nat
  bl_revenue :: int
  bl_completed :: nat

definition billing_price :: "event_type_row list \<Rightarrow> string option \<Rightarrow> int" where
  "billing_price es i = (case truthy i of None \<Rightarrow> 0
     | Some k \<Rightarrow> (case map_of (map (\<lambda>e. (e_id e, e)) (rev es)) k of None \<Rightarrow> 0
         | Some e \<Rightarrow> (case e_price e of None \<Rightarrow> 0 | Some x \<Rightarrow> x)))"

definition getBilling :: "crypto \<Rightarrow> calendar_host \<Rightarrow> string option \<Rightarrow> billing auth" where
  "getBilling K H cookie = as_provider K cookie (\<lambda>p.
     bind now (\<lambda>n.
     bind (query Pool (sel (count_in p UNIV (\<lambda>x. month_start H n \<le> x)))) (\<lambda>bookingsThisMonth.
     bind (query Pool (sel (\<lambda>t. length (filter (\<lambda>e. e_provider e = p) (event_types t))))) (\<lambda>eventTypes.
     bind (unless_fails [] (query Pool (sel (\<lambda>t. take 50 (map (\<lambda>j. b_event_type (j_booking j))
         (with_status_in {Completed} (provider_bookings p (\<lambda>_. True) t))))))) (\<lambda>completed.
     bind (query Pool (sel (\<lambda>t. filter (\<lambda>c. \<exists>j \<in> set (provider_bookings p (\<lambda>_. True) t).
         b_client (j_booking j) = c_id c) (clients t)))) (\<lambda>cs.
     let ids = List.map_filter truthy completed in
     bind (if ids = [] then ret [] else query Pool (sel (\<lambda>t. filter (\<lambda>e. e_id e \<in> set ids) (event_types t)))) (\<lambda>es.
       ret \<lparr>bl_bookingsThisMonth = bookingsThisMonth, bl_eventTypes = eventTypes, bl_clients = length cs,
         bl_revenue = sum_list (map (billing_price es) completed), bl_completed = length completed\<rparr>)))))))"

subsection \<open>The dashboard\<close>

record summary =
  sm_total :: nat
  sm_today :: nat
  sm_estimatedValue :: int
  sm_occupancy :: int
  sm_tz :: string
  sm_bookings :: "booking_join list"

definition summary :: "crypto \<Rightarrow> string option \<Rightarrow> string option \<Rightarrow> summary auth" where
  "summary K cookie tz = as_provider K cookie (\<lambda>p.
     bind (query Pool (sel (provider_bookings p (\<lambda>_. True)))) (\<lambda>js.
     bind now (\<lambda>n.
       ret \<lparr>sm_total = length js,
         sm_today = length (filter (\<lambda>j. take 10 (toISOString (s_start (j_slot j))) = take 10 (toISOString n)) js),
         sm_estimatedValue = 0, sm_occupancy = (if js \<noteq> [] then 10 else 0), sm_tz = or_else tz ''UTC'',
         sm_bookings = js\<rparr>)))"

subsection \<open>Percentages\<close>

lemma bits_bounds: "0 < n \<Longrightarrow> 2 ^ (bits n - 1) \<le> n \<and> n < 2 ^ bits n"
proof (induction n rule: bits.induct)
  case (1 n)
  show ?case
  proof (cases "n div 2 = 0")
    case True
    then have n: "n = 1" using 1(2) by auto
    have "bits 1 = 1" by (simp add: bits.simps [of 1] bits.simps [of 0])
    then show ?thesis by (simp add: n)
  next
    case False
    let ?m = "n div 2"
    have pos: "0 < ?m" using 1(2) False by linarith
    have ih: "2 ^ (bits ?m - 1) \<le> ?m" "?m < 2 ^ bits ?m" using 1(1) 1(2) pos by auto
    have "bits n = Suc (bits ?m)" using 1(2) by (simp add: bits.simps [of n])
    moreover obtain k where "bits ?m = Suc k" using pos by (auto simp: bits.simps [of ?m])
    ultimately show ?thesis using ih by auto
  qed
qed

lemma bits_pos: "0 < n \<Longrightarrow> 0 < bits n"
  by (simp add: bits.simps [of n])

text \<open>The leading bit is not above the number.\<close>

lemma leading_bit_le:
  assumes "0 < x"
  shows "2 powi (leading_bit x) \<le> x"
proof -
  obtain p q where pq: "quotient_of x = (p, q)" by (cases "quotient_of x")
  have q: "0 < q" and x: "x = of_int p / of_int q"
    using pq quotient_of_denom_pos quotient_of_div by blast+
  have p: "0 < p" using assms q by (simp add: x zero_less_divide_iff)
  let ?a = "bits p" and ?b = "bits q"
  have a: "(2::rat) ^ (?a - 1) \<le> of_int p" and b: "of_int q \<le> (2::rat) ^ ?b"
  proof -
    have "2 ^ (?a - 1) \<le> p" "q \<le> 2 ^ ?b" using p q bits_bounds less_imp_le by blast+
    then have "(of_int (2 ^ (?a - 1)) :: rat) \<le> of_int p" "(of_int q :: rat) \<le> of_int (2 ^ ?b)"
      unfolding of_int_le_iff .
    then show "(2::rat) ^ (?a - 1) \<le> of_int p" "of_int q \<le> (2::rat) ^ ?b" by simp_all
  qed
  have "0 < ?a" using p by (simp add: bits_pos)
  then have "(2::rat) powi (int ?a - int ?b - 1) = 2 ^ (?a - 1) / 2 ^ ?b"
    by (simp add: power_int_diff of_nat_diff flip: power_int_of_nat)
  also have "\<dots> \<le> of_int p / of_int q" using a b p q by (intro frac_le) simp_all
  finally have "2 powi (int ?a - int ?b - 1) \<le> x" unfolding x .
  then show ?thesis by (simp add: leading_bit_def pq Let_def)
qed

lemma round_half_even_le: "y \<le> of_int z \<Longrightarrow> round_half_even y \<le> z"
proof -
  assume y: "y \<le> of_int z"
  then have f: "\<lfloor>y\<rfloor> \<le> z" by (simp add: floor_le_iff)
  show ?thesis
  proof (cases "\<lfloor>y\<rfloor> = z")
    case True
    then have "y = of_int z" using y of_int_floor_le [of y] by simp
    then show ?thesis by (simp add: round_half_even_def Let_def)
  next
    case False
    then show ?thesis using f by (simp add: round_half_even_def Let_def)
  qed
qed

lemma round_half_even_nonneg: "0 \<le> y \<Longrightarrow> 0 \<le> round_half_even y"
  by (simp add: round_half_even_def Let_def)

text \<open>Rounding does not go past a whole number of at most 53 bits.\<close>

lemma double_of_le:
  assumes "x \<le> of_nat n" "n < 2 ^ 52"
  shows "double_of x \<le> of_nat n"
proof (cases "0 < x")
  case True
  let ?e = "leading_bit x"
  have "2 powi ?e < (2::rat) powi 52"
  proof -
    have "2 powi ?e \<le> (of_nat n :: rat)" using leading_bit_le [OF True] assms(1) by (rule order_trans)
    also have "\<dots> < of_nat (2 ^ 52)" using assms(2) unfolding of_nat_less_iff .
    finally show ?thesis by simp
  qed
  then have e: "?e < 52" by (meson not_less one_le_numeral power_int_increasing)
  define k where "k = nat (52 - ?e)"
  have k: "52 - ?e = int k" using e by (simp add: k_def)
  have "x * 2 powi (52 - ?e) \<le> of_int (int n * 2 ^ k)"
    unfolding k using assms(1) by (simp add: mult_right_mono)
  then have "round_half_even (x * 2 powi (52 - ?e)) \<le> int n * 2 ^ k" by (rule round_half_even_le)
  then have "of_int (round_half_even (x * 2 powi (52 - ?e))) \<le> (of_int (int n * 2 ^ k) :: rat)"
    unfolding of_int_le_iff .
  then have "of_int (round_half_even (x * 2 powi (52 - ?e))) * 2 powi (?e - 52) \<le> (of_nat n * 2 ^ k :: rat) * 2 powi (?e - 52)"
    by (intro mult_right_mono) simp_all
  also have "\<dots> = of_nat n * (2 powi int k * 2 powi (- int k))"
  proof -
    have "?e - 52 = - int k" using k by simp
    then show ?thesis by simp
  qed
  also have "\<dots> = of_nat n" by (simp add: power_int_minus)
  finally show ?thesis using True by (simp add: double_of_def Let_def)
qed (simp add: double_of_def)

lemma double_of_nonneg: "0 \<le> double_of x"
  by (auto simp: double_of_def Let_def intro!: mult_nonneg_nonneg round_half_even_nonneg)

lemma percent_bounds:
  assumes "c \<le> t" "0 < t"
  shows "0 \<le> percent c t" "percent c t \<le> 100"
proof -
  let ?x = "double_of (double_of (of_nat c / of_nat t) * 100)"
  have "double_of (of_nat c / of_nat t) \<le> of_nat 1"
    using assms by (intro double_of_le) (simp_all add: divide_le_eq)
  then have "?x \<le> of_nat 100" by (intro double_of_le) simp_all
  then show "percent c t \<le> 100" "0 \<le> percent c t"
    using double_of_nonneg [of "double_of (of_nat c / of_nat t) * 100"]
    by (simp_all add: percent_def math_round_def floor_le_iff)
qed

text \<open>The double nearest to \<open>23/40\<close> times 100 is just under \<open>57.5\<close>.\<close>

lemma percent_sample: "percent 23 40 = 57"
  by code_simp

subsection \<open>What the routes return\<close>

text \<open>The guard's promise about the provider it lets in, and that it leaves the tables alone.\<close>

definition admitted :: "crypto \<Rightarrow> string option \<Rightarrow> auth_store \<Rightarrow> string \<Rightarrow> bool" where
  "admitted K cookie s p \<longleftrightarrow> (\<exists>v token. cookie_of ''chronos_provider_session'' cookie = Some v
     \<and> decodeURIComponent v = Some token
     \<and> (\<exists>r \<in> set (provider_sessions s). se_hash r = base64 (kdf K token provider_salt 32) \<and> se_owner r = p))"

lemma wp_scrypt_idle:
  "idle T w \<Longrightarrow> (\<And>w'. idle T w' \<Longrightarrow> queue w' = queue w \<Longrightarrow> Q (kdf K p s n) w') \<Longrightarrow>
     (\<And>x w'. idle T w' \<Longrightarrow> E x w') \<Longrightarrow> wp (scrypt K p s n) Q E e w"
  by (auto simp: wp_def scrypt_def queue_ask_def idle_def split: option.splits)

lemma wp_find_idle:
  "idle T w \<Longrightarrow> (\<And>w'. idle T w' \<Longrightarrow> queue w' = queue w \<Longrightarrow> Q (f (queue w)) w') \<Longrightarrow>
     (\<And>x w'. idle T w' \<Longrightarrow> E x w') \<Longrightarrow> wp (find f) Q E e w"
  by (auto simp: wp_def find_def queue_ask_def idle_def split: option.splits)

lemma live_session_owner:
  "live_session h n s = Some (p, a) \<Longrightarrow> (\<exists>r \<in> set (provider_sessions s). se_hash r = h \<and> se_owner r = ac_id a)"
  by (auto simp: live_session_def split: option.splits dest!: first_where_Some)

lemma wp_as_provider:
  assumes w: "idle T w"
    and step: "\<And>p w'. idle T w' \<Longrightarrow> queue w' = queue w \<Longrightarrow> admitted K cookie (queue w) p \<Longrightarrow> wp (f p) Q E e w'"
    and fails: "\<And>x w'. idle T w' \<Longrightarrow> E x w'"
  shows "wp (as_provider K cookie f) Q E e w"
proof -
  have "wp (providerGuard K cookie) (\<lambda>a w'. idle T w' \<and> queue w' = queue w \<and> admitted K cookie (queue w) (ac_id a))
      (\<lambda>_. idle T) e w"
    unfolding providerGuard_def hashToken_def findProviderByTokenHash_def
    by (auto split: option.split intro!: wp_decoded wp_scrypt_idle [OF w] wp_find_idle simp: w admitted_def
        dest!: live_session_owner)
  then show ?thesis
    unfolding as_provider_def wp_bind by (rule wp_mono) (auto intro!: step fails)
qed

lemma wp_rows_in:
  "idle T w \<Longrightarrow> (\<And>r w'. dates = Some r \<Longrightarrow> idle T w' \<Longrightarrow> Q (f r T) w') \<Longrightarrow> (\<And>x w'. idle T w' \<Longrightarrow> E x w') \<Longrightarrow>
     wp (rows_in dates f) Q E e w"
  unfolding rows_in_def by (auto split: option.split intro!: wp_sel_idle)

text \<open>A booking of the provider's slots.\<close>

definition own_join :: "tables \<Rightarrow> string \<Rightarrow> booking_join \<Rightarrow> bool" where
  "own_join T p j \<longleftrightarrow> j_booking j \<in> set (bookings T) \<and> j_slot j \<in> set (slots T)
     \<and> s_id (j_slot j) = b_slot (j_booking j) \<and> s_provider (j_slot j) = p"

lemma provider_bookings_own: "j \<in> set (provider_bookings p r T) \<Longrightarrow> own_join T p j"
  by (auto simp: provider_bookings_def own_join_def joined_def slots_by_id_def)

lemma newest_own: "j \<in> set (newest n (provider_bookings p r T)) \<Longrightarrow> own_join T p j"
  unfolding newest_def by (drule in_set_takeD) (simp add: provider_bookings_own)

definition report_scoped :: "tables \<Rightarrow> string \<Rightarrow> report \<Rightarrow> bool" where
  "report_scoped T p rep \<longleftrightarrow> (\<forall>row \<in> set (rp_breakdown rep). \<exists>j. own_join T p j \<and> row = report_row_of j)"

lemma wp_getReports:
  assumes "idle T w"
  shows "wp (getReports K H cookie start end)
    (\<lambda>rep w'. idle T w' \<and> (\<exists>p. admitted K cookie (queue w) p \<and> report_scoped T p rep)) (\<lambda>_. idle T) e w"
  unfolding getReports_def Let_def
  by (rule wp_as_provider [OF assms])
    (auto intro!: wp_rows_in dest!: newest_own simp: make_report_def failed_report_def report_scoped_def Let_def)

definition analytics_scoped :: "tables \<Rightarrow> string \<Rightarrow> analytics \<Rightarrow> bool" where
  "analytics_scoped T p a \<longleftrightarrow> (\<forall>j \<in> set (an_bookings a). own_join T p j)"

definition between :: "int \<Rightarrow> bool" where
  "between x \<longleftrightarrow> 0 \<le> x \<and> x \<le> 100"

lemma rate_between: "c \<le> t \<Longrightarrow> between (rate c t)"
  using percent_bounds by (auto simp: rate_def between_def)

definition analytics_sound :: "tables \<Rightarrow> string \<Rightarrow> (int \<Rightarrow> bool) \<Rightarrow> analytics \<Rightarrow> bool" where
  "analytics_sound T p r a \<longleftrightarrow> an_total a = int (count_in p UNIV r T)
     \<and> an_booked a = int (count_in p {Booked} r T) + an_completed a"

lemma count_split:
  "length (with_status_in UNIV js) = length (with_status_in {Booked} js) + length (with_status_in {Completed} js)
     + length (with_status_in {Cancelled} js) + length (with_status_in {No_Show} js)"
proof (induction js)
  case (Cons j js)
  then show ?case by (cases "b_status (j_booking j)") (simp_all add: with_status_in_def)
qed (simp add: with_status_in_def)

lemma wp_getAnalytics:
  assumes "idle T w"
  shows "wp (getAnalytics K H cookie start end)
    (\<lambda>a w'. idle T w' \<and> between (an_completionRate a) \<and> between (an_cancellationRate a) \<and> between (an_utilization a)
       \<and> (\<exists>p. admitted K cookie (queue w) p \<and> analytics_scoped T p a
            \<and> (an_error a = None \<longrightarrow> (\<exists>r. range_of H start end = Some r \<and> analytics_sound T p r a)))) (\<lambda>_. idle T) e w"
  unfolding getAnalytics_def Let_def
  apply (rule wp_as_provider [OF assms])
   apply (unfold wp_try_catch wp_bind)
   apply (intro wp_rows_in, assumption)
     apply (auto intro!: wp_rows_in rate_between dest!: newest_own
      simp: make_analytics_def zero_analytics_def analytics_scoped_def analytics_sound_def count_in_def count_split Let_def
        between_def [of 0])
  done

lemma wp_summary:
  assumes "idle T w"
  shows "wp (summary K cookie tz)
    (\<lambda>s w'. idle T w' \<and> (\<exists>p. admitted K cookie (queue w) p \<and> (\<forall>j \<in> set (sm_bookings s). own_join T p j)
       \<and> sm_today s \<le> sm_total s)) (\<lambda>_. idle T) e w"
  unfolding summary_def
  by (rule wp_as_provider [OF assms]) (auto intro!: wp_sel_idle dest!: provider_bookings_own)

lemma wp_result: "wp m Q E e w \<Longrightarrow> m e w = (Inr a, w') \<Longrightarrow> Q a w'"
  by (simp add: wp_def)

text \<open>C28. A provider reads only its own bookings: every row of a report, every booking of the analytics and of
  the dashboard belongs to a slot of the provider whose session the request carries, and reading changes
  no table. A failing call never shows more.\<close>

theorem provider_reads_scoped:
  assumes "idle T w"
  shows "(getReports K H cookie start end e w = (Inr rep, w1) \<longrightarrow>
        committed w1 = T \<and> (\<exists>p. admitted K cookie (queue w) p \<and> report_scoped T p rep))
    \<and> (getAnalytics K H cookie start end e w = (Inr an, w2) \<longrightarrow>
        committed w2 = T \<and> (\<exists>p. admitted K cookie (queue w) p \<and> analytics_scoped T p an))
    \<and> (summary K cookie tz e w = (Inr sm, w3) \<longrightarrow>
        committed w3 = T \<and> (\<exists>p. admitted K cookie (queue w) p \<and> (\<forall>j \<in> set (sm_bookings sm). own_join T p j)))"
proof (intro conjI impI)
  assume "getReports K H cookie start end e w = (Inr rep, w1)"
  note r = wp_result [OF wp_getReports [OF assms] this]
  show "committed w1 = T" using r by (simp add: idle_committed)
  show "\<exists>p. admitted K cookie (queue w) p \<and> report_scoped T p rep" using r by blast
next
  assume "getAnalytics K H cookie start end e w = (Inr an, w2)"
  note r = wp_result [OF wp_getAnalytics [OF assms] this]
  show "committed w2 = T" using r by (simp add: idle_committed)
  show "\<exists>p. admitted K cookie (queue w) p \<and> analytics_scoped T p an" using r by blast
next
  assume "summary K cookie tz e w = (Inr sm, w3)"
  note r = wp_result [OF wp_summary [OF assms] this]
  show "committed w3 = T" using r by (simp add: idle_committed)
  show "\<exists>p. admitted K cookie (queue w) p \<and> (\<forall>j \<in> set (sm_bookings sm). own_join T p j)" using r by blast
qed


subsection \<open>A concrete session\<close>

definition demo_calendar :: calendar_host where
  "demo_calendar = \<lparr>parse_date = (\<lambda>_. None), month_start = (\<lambda>_. 0)\<rparr>"

lemma after_login_idle: "idle demo_tables after_login"
proof -
  have bumped: "idle T (bump w)" if "idle T w" for T and w :: "auth_store world" using that by (simp add: idle_def)
  have w: "idle demo_tables demo_auth_world" by (simp add: idle_def demo_auth_world_def)
  have rnd: "wp (randomBytes K n) Q E e w" if "\<And>b w'. idle T w' \<Longrightarrow> Q b w'" "idle T w"
    for K n Q E and e :: "auth_store env" and w T
    using that bumped by (simp add: wp_def randomBytes_def)
  have "wp (provider_login demo_crypto m pw) (\<lambda>_. idle demo_tables) (\<lambda>_. idle demo_tables) e demo_auth_world" for m pw e
    unfolding provider_login_def verifyPassword_def createSession_def hashToken_def scrypt_def find_def store_def Let_def
    by (auto split: list.split option.split intro!: w wp_queue_ask [where T = demo_tables]
        wp_queue_call [where T = demo_tables] rnd [where T = demo_tables])
  then show ?thesis unfolding after_login_def by (simp add: wp_snd)
qed

lemma demo_guard:
  "\<exists>a w'. providerGuard demo_crypto (Some (header_of demo_cookie)) (auth_env_at 2000) after_login = (Inr a, w')
     \<and> ac_id a = ''p1''"
proof -
  have "fst (provider_me demo_crypto (Some (header_of demo_cookie)) (auth_env_at 2000) after_login)
      = Inr (view_account demo_account)"
    using session_lasts_a_day [OF demo_provider_login demo_auth_reliable(2) _ _ demo_draws demo_auth_reliable refl,
      of 2000]
    by (simp add: demo_auth_world_def demo_auth_store_def)
  then show ?thesis
    by (auto simp: provider_me_def prog_simps view_account_def demo_account_def split: prod.splits sum.splits)
qed

theorem provider_reads_scoped_witness:
  "\<exists>rep w1. getReports demo_crypto demo_calendar (Some (header_of demo_cookie)) None None (auth_env_at 2000) after_login
      = (Inr rep, w1)
    \<and> (\<exists>p. admitted demo_crypto (Some (header_of demo_cookie)) (queue after_login) p \<and> report_scoped demo_tables p rep)"
proof -
  obtain rep w1 where "getReports demo_crypto demo_calendar (Some (header_of demo_cookie)) None None (auth_env_at 2000)
      after_login = (Inr rep, w1)"
    using demo_guard by (force simp: getReports_def as_provider_def prog_simps Let_def split: prod.splits sum.splits)
  then show ?thesis using provider_reads_scoped [OF after_login_idle] by blast
qed


end
