(* ===== verification/Inbox.thy ===== *)
theory Inbox
  imports Booking_Controller
begin

text \<open>
  \<^verbatim>\<open>apps/api/src/notifications\<close> and \<^verbatim>\<open>activity\<close>: the services over the two tables and the routes that
  read and mark a client's notifications.
\<close>

text \<open>\<open>cookie?.match(/chronos_session=([^;]+)/)?.[1]\<close>, tested for truth.\<close>

definition inbox_client :: "string option \<Rightarrow> string option" where
  "inbox_client cookie = (case cookie of None \<Rightarrow> None | Some c \<Rightarrow> session_match ''chronos_session='' c)"

definition latest :: "('r \<Rightarrow> int) \<Rightarrow> 'r list \<Rightarrow> 'r list" where
  "latest at rs = take 50 (sort_key (\<lambda>r. - at r) rs)"

subsection \<open>The services\<close>

definition notes_create ::
    "string \<Rightarrow> string option \<Rightarrow> string option \<Rightarrow> string option \<Rightarrow> string \<Rightarrow> string \<Rightarrow> ('q, unit) prog" where
  "notes_create ty p c bk title msg = query Pool (insert_note ty p c bk title msg)"

definition listForProvider :: "string \<Rightarrow> ('q, note_row list) prog" where
  "listForProvider p = query Pool (sel (\<lambda>t. latest n_created (filter (\<lambda>n. n_provider n = Some p) (notifs t))))"

definition listForClient :: "string \<Rightarrow> ('q, note_row list) prog" where
  "listForClient c = query Pool (sel (\<lambda>t. latest n_created (filter (\<lambda>n. n_client n = Some c) (notifs t))))"

text \<open>\<open>updateMany\<close>: the rows that satisfy the condition are marked and counted.\<close>

definition mark_where :: "(note_row \<Rightarrow> bool) \<Rightarrow> nat stmt" where
  "mark_where P n u t =
     Inr (length (filter P (notifs t)), t\<lparr>notifs := upd_where P (\<lambda>x. x\<lparr>n_read := True\<rparr>) (notifs t)\<rparr>)"

definition markAllReadForProvider :: "string \<Rightarrow> ('q, nat) prog" where
  "markAllReadForProvider p = query Pool (mark_where (\<lambda>n. n_provider n = Some p \<and> \<not> n_read n))"

definition markRead :: "string \<Rightarrow> string \<Rightarrow> ('q, nat) prog" where
  "markRead i c = query Pool (mark_where (\<lambda>n. n_id n = i \<and> n_client n = Some c))"

definition markAllReadForClient :: "string \<Rightarrow> ('q, nat) prog" where
  "markAllReadForClient c = query Pool (mark_where (\<lambda>n. n_client n = Some c \<and> \<not> n_read n))"

definition activity_create :: "string \<Rightarrow> string option \<Rightarrow> string option \<Rightarrow> string option \<Rightarrow> ('q, unit) prog" where
  "activity_create action p c bk = query Pool (insert_activity action p c bk)"

definition listByProvider :: "string \<Rightarrow> ('q, activity_row list) prog" where
  "listByProvider p = query Pool (sel (\<lambda>t. latest a_created (filter (\<lambda>a. a_provider a = Some p) (activities t))))"

definition listByClient :: "string \<Rightarrow> ('q, activity_row list) prog" where
  "listByClient c =
     (if c = [] then ret []
      else unless_fails []
        (query Pool (sel (\<lambda>t. latest a_created (filter (\<lambda>a. a_client a = Some c) (activities t))))))"

subsection \<open>The routes\<close>

definition notes_list :: "string option \<Rightarrow> ('q, note_row list \<times> nat) prog" where
  "notes_list cookie = (case inbox_client cookie of None \<Rightarrow> ret ([], 0)
     | Some c \<Rightarrow> bind (listForClient c) (\<lambda>ns. ret (ns, length (filter (\<lambda>n. \<not> n_read n) ns))))"

text \<open>The answer and its error.\<close>

definition notes_readOne :: "string \<Rightarrow> string option \<Rightarrow> ('q, bool \<times> string option) prog" where
  "notes_readOne i cookie = (case inbox_client cookie of None \<Rightarrow> ret (False, Some ''unauthorized'')
     | Some c \<Rightarrow> bind (markRead i c) (\<lambda>_. ret (True, None)))"

definition notes_readAll :: "string option \<Rightarrow> ('q, nat) prog" where
  "notes_readAll cookie = (case inbox_client cookie of None \<Rightarrow> ret 0 | Some c \<Rightarrow> markAllReadForClient c)"

definition activity_list :: "string option \<Rightarrow> ('q, activity_row list \<times> nat) prog" where
  "activity_list cookie = (case inbox_client cookie of None \<Rightarrow> ret ([], 0)
     | Some c \<Rightarrow> bind (listByClient c) (\<lambda>as. ret (as, length as)))"

subsection \<open>A client's inbox is its own\<close>

text \<open>What marking may do: set the mark of some notifications of the client.\<close>

definition marked_for :: "string option \<Rightarrow> tables \<Rightarrow> tables \<Rightarrow> bool" where
  "marked_for c T T' \<longleftrightarrow> (\<exists>P. (\<forall>n. P n \<longrightarrow> c \<noteq> None \<and> n_client n = c)
     \<and> T' = T\<lparr>notifs := upd_where P (\<lambda>x. x\<lparr>n_read := True\<rparr>) (notifs T)\<rparr>)"

lemma marked_for_refl: "marked_for c T T"
  unfolding marked_for_def by (rule exI [of _ "\<lambda>_. False"]) (simp add: upd_where_none)

lemma wp_mark:
  assumes "idle T w" "\<And>n. P n \<Longrightarrow> n_client n = Some c"
    and "\<And>k T' w'. idle T' w' \<Longrightarrow> marked_for (Some c) T T' \<Longrightarrow> Q k w'"
    and "\<And>x w'. idle T w' \<Longrightarrow> E x w'"
  shows "wp (query Pool (mark_where P)) Q E e w"
  by (rule wp_query_idle [OF assms(1)]) (auto simp: mark_where_def marked_for_def intro!: assms(2-4))

definition marks_own :: "string option \<Rightarrow> tables \<Rightarrow> 'q world \<Rightarrow> bool" where
  "marks_own c T w \<longleftrightarrow> (\<exists>T'. idle T' w \<and> marked_for c T T')"

lemma marks_own_idle: "idle T w \<Longrightarrow> marks_own c T w"
  unfolding marks_own_def using marked_for_refl by blast

lemma wp_readOne:
  "idle T w \<Longrightarrow> wp (notes_readOne i cookie) (\<lambda>_. marks_own (inbox_client cookie) T)
    (\<lambda>_. marks_own (inbox_client cookie) T) e w"
  unfolding notes_readOne_def markRead_def
  by (auto split: option.split intro: marks_own_idle intro!: wp_mark) (auto simp: marks_own_def)

lemma wp_readAll:
  "idle T w \<Longrightarrow> wp (notes_readAll cookie) (\<lambda>_. marks_own (inbox_client cookie) T)
    (\<lambda>_. marks_own (inbox_client cookie) T) e w"
  unfolding notes_readAll_def markAllReadForClient_def
  by (auto split: option.split intro: marks_own_idle intro!: wp_mark) (auto simp: marks_own_def)

lemma in_latest: "r \<in> set (latest at rs) \<Longrightarrow> r \<in> set rs"
  unfolding latest_def by (drule in_set_takeD) simp

lemma wp_notes_list:
  "idle T w \<Longrightarrow> wp (notes_list cookie) (\<lambda>(ns, k) w'. idle T w' \<and> length ns \<le> 50 \<and> k \<le> length ns
     \<and> (\<forall>n \<in> set ns. n \<in> set (notifs T) \<and> inbox_client cookie \<noteq> None \<and> n_client n = inbox_client cookie))
     (\<lambda>_. idle T) e w"
  unfolding notes_list_def listForClient_def
  by (auto split: option.split intro!: wp_sel_idle dest!: in_latest) (simp add: latest_def)

text \<open>C30. A client sees and marks only its own notifications: the list holds at most fifty, all addressed to the
  client the cookie names; marking one or all changes nothing but the marks of notifications of that
  client, whatever identifier the request gives; without a session nothing is shown or changed.\<close>

theorem inbox_scoped:
  assumes "idle T w"
  shows "(notes_list cookie e w = (Inr (ns, k), w1) \<longrightarrow> length ns \<le> 50 \<and> k \<le> length ns
      \<and> (\<forall>n \<in> set ns. n \<in> set (notifs T) \<and> inbox_client cookie \<noteq> None \<and> n_client n = inbox_client cookie))
    \<and> marked_for (inbox_client cookie) T (committed (snd (notes_readOne i cookie e w)))
    \<and> marked_for (inbox_client cookie) T (committed (snd (notes_readAll cookie e w)))"
proof (intro conjI impI)
  have own: "marked_for c T (committed v)" if "marks_own c T v" for c and v :: "'a world"
    using that by (auto simp: marks_own_def idle_committed)
  show "marked_for (inbox_client cookie) T (committed (snd (notes_readOne i cookie e w)))"
    "marked_for (inbox_client cookie) T (committed (snd (notes_readAll cookie e w)))"
    using wp_readOne [OF assms, of i cookie e] wp_readAll [OF assms, of cookie e] own by (auto simp: wp_snd)
qed (use wp_notes_list [OF assms, of cookie e] in \<open>auto simp: wp_def\<close>)

definition inbox_tables :: tables where
  "inbox_tables = demo_tables\<lparr>notifs :=
     [\<lparr>n_id = ''n1'', n_type = ''t'', n_provider = None, n_client = Some ''c1'', n_booking = None, n_title = [],
       n_message = [], n_read = False, n_created = 5\<rparr>,
      \<lparr>n_id = ''n2'', n_type = ''t'', n_provider = None, n_client = Some ''c2'', n_booking = None, n_title = [],
       n_message = [], n_read = False, n_created = 6\<rparr>]\<rparr>"

definition inbox_world :: "unit world" where
  "inbox_world = demo_world\<lparr>tabs := inbox_tables\<rparr>"

lemma inbox_demo_client: "inbox_client (Some ''chronos_session=c1'') = Some ''c1''"
  by code_simp

theorem inbox_scoped_witness:
  "fst (notes_readOne ''n2'' (Some ''chronos_session=c1'') demo_env inbox_world) = Inr (True, None)
    \<and> marked_for (Some ''c1'') inbox_tables
        (committed (snd (notes_readOne ''n2'' (Some ''chronos_session=c1'') demo_env inbox_world)))"
proof
  have idle: "idle inbox_tables inbox_world" by (simp add: idle_def inbox_world_def demo_world_def)
  show "marked_for (Some ''c1'') inbox_tables
      (committed (snd (notes_readOne ''n2'' (Some ''chronos_session=c1'') demo_env inbox_world)))"
    using inbox_scoped [OF idle, of "Some ''chronos_session=c1''" demo_env _ _ _ "''n2''"]
    by (simp add: inbox_demo_client)
  show "fst (notes_readOne ''n2'' (Some ''chronos_session=c1'') demo_env inbox_world) = Inr (True, None)"
    by (simp add: notes_readOne_def inbox_demo_client markRead_def prog_simps query_def mark_where_def demo_env_def
        inbox_world_def demo_world_def)
qed

end
