(* ===== verification/Contracts.thy ===== *)
theory Contracts
  imports Complex_Main Materializer
begin

text \<open>
  \<^verbatim>\<open>packages/contracts/src\<close>: the codes, statuses and constants the packages share, the validation schemas
  and the calendar export. A schema is data; the validation library that runs it is an interface with
  the laws its documentation gives for the combinators used.
\<close>

subsection \<open>Codes, statuses and constants\<close>

definition ErrorCodes :: "(string \<times> string) list" where
  "ErrorCodes =
     [(''SLOT_UNAVAILABLE'', ''slot_unavailable''), (''IDEMPOTENCY_KEY_REUSE'', ''idempotency_key_reuse''),
      (''VERSION_MISMATCH'', ''version_mismatch''), (''WINDOW_EXPIRED'', ''window_expired''),
      (''INVALID_TRANSITION'', ''invalid_transition''), (''NOT_OWNER'', ''not_owner''),
      (''INVALID_TIMEZONE'', ''invalid_timezone''), (''INVALID_DATE_TIME'', ''invalid_date_time''),
      (''INVALID_RULES'', ''invalid_rules''), (''INVALID_SLOT'', ''invalid_slot''), (''CONFLICT'', ''conflict''),
      (''NOT_FOUND'', ''not_found''), (''FORBIDDEN'', ''forbidden''), (''BAD_REQUEST'', ''bad_request''),
      (''UNPROCESSABLE_ENTITY'', ''unprocessable_entity'')]"

definition BookingStatus :: "string list" where
  "BookingStatus = [''booked'', ''completed'', ''cancelled'', ''no_show'']"

definition SlotStatus :: "string list" where
  "SlotStatus = [''open'', ''booked'', ''blocked'']"

definition ReminderJobStatus :: "string list" where
  "ReminderJobStatus = [''scheduled'', ''sending'', ''sent'', ''cancelled'', ''skipped'', ''failed'']"

definition DEFAULT_SLOT_MINUTES :: int where "DEFAULT_SLOT_MINUTES = 30"
definition DEFAULT_CANCELLATION_WINDOW_HOURS :: int where "DEFAULT_CANCELLATION_WINDOW_HOURS = 24"
definition DEFAULT_REMINDER_OFFSETS :: "int list" where "DEFAULT_REMINDER_OFFSETS = [1440, 60]"
definition MAX_CANCELLATION_WINDOW_HOURS :: int where "MAX_CANCELLATION_WINDOW_HOURS = 168"
definition MAX_SLOT_MINUTES :: int where "MAX_SLOT_MINUTES = 240"

definition DEFAULT_PROVIDER_RULES :: rules where
  "DEFAULT_PROVIDER_RULES =
     \<lparr>daysOfWeek = Some [1, 2, 3, 4, 5], startTime = Some ''09:00'', endTime = Some ''17:00''\<rparr>"

subsection \<open>Texts the schemas accept\<close>

text \<open>\<open>/^([01]\d|2[0-3]):([0-5]\d)$/\<close>, \<open>/^\d{4}-\d{2}-\d{2}$/\<close> and the pattern of a random UUID.\<close>

fun time_text :: "string \<Rightarrow> bool" where
  "time_text [a, b, c, d, e] =
     (((a \<in> set ''01'' \<and> is_digit b) \<or> (a = CHR ''2'' \<and> b \<in> set ''0123'')) \<and> c = CHR '':''
      \<and> d \<in> set ''012345'' \<and> is_digit e)"
| "time_text _ = False"

definition plain_date_text :: "string \<Rightarrow> bool" where
  "plain_date_text s \<longleftrightarrow> map length (split_on (CHR ''-'') s) = [4, 2, 2]
     \<and> (\<forall>g \<in> set (split_on (CHR ''-'') s). list_all is_digit g)"

definition hex_digit :: "char \<Rightarrow> bool" where
  "hex_digit c \<longleftrightarrow> c \<in> set ''0123456789abcdefABCDEF''"

definition random_uuid_text :: "string \<Rightarrow> bool" where
  "random_uuid_text s \<longleftrightarrow> (case split_on (CHR ''-'') s of
     [a, b, c, d, e] \<Rightarrow> map length [a, b, c, d, e] = [8, 4, 4, 4, 12]
       \<and> (\<forall>g \<in> set [a, b, c, d, e]. list_all hex_digit g) \<and> hd c = CHR ''4'' \<and> hd d \<in> set ''89abAB''
   | _ \<Rightarrow> False)"

text \<open>\<open>new Date(s)\<close> does not throw, so only the suffix is tested.\<close>

definition iso_utc_text :: "string \<Rightarrow> bool" where
  "iso_utc_text s \<longleftrightarrow> (s \<noteq> [] \<and> last s = CHR ''Z'') \<or> str_includes ''+00:00'' s \<or> str_includes ''-00:00'' s"

subsection \<open>Schemas\<close>

datatype jv = JNull | JBool bool | JNum rat | JStr string | JArr "jv list" | JObj "(string \<times> jv) list"

datatype schema =
    Z_String "string \<Rightarrow> bool"
  | Z_Int "int \<Rightarrow> bool"
  | Z_Array nat schema
  | Z_Enum "string list"
  | Z_Nullable schema
  | Z_Optional schema
  | Z_Default schema
  | Z_Object "(string \<times> schema) list"

text \<open>The formats of the validation library and of \<open>Intl\<close>.\<close>

record formats =
  fmt_uuid :: "string \<Rightarrow> bool"
  fmt_email :: "string \<Rightarrow> bool"
  fmt_zone :: "string \<Rightarrow> bool"

definition timezoneSchema :: "formats \<Rightarrow> schema" where
  "timezoneSchema F = Z_String (fmt_zone F)"

definition isoUTCStringSchema :: schema where
  "isoUTCStringSchema = Z_String iso_utc_text"

definition uuidSchema :: "formats \<Rightarrow> schema" where
  "uuidSchema F = Z_String (fmt_uuid F)"

definition named :: schema where "named = Z_String (\<lambda>s. s \<noteq> [])"
definition slot_length :: schema where "slot_length = Z_Int (\<lambda>n. 5 \<le> n \<and> n \<le> 240)"
definition natural :: schema where "natural = Z_Int (\<lambda>n. 0 \<le> n)"
definition positive :: schema where "positive = Z_Int (\<lambda>n. 0 < n)"
definition any_int :: schema where "any_int = Z_Int (\<lambda>_. True)"
definition any_text :: schema where "any_text = Z_String (\<lambda>_. True)"
definition time_of_day :: schema where "time_of_day = Z_String time_text"
definition weekday :: schema where "weekday = Z_Int (\<lambda>n. 1 \<le> n \<and> n \<le> 7)"
definition key_text :: schema where "key_text = Z_Optional (Z_String random_uuid_text)"

definition providerSchema :: "formats \<Rightarrow> schema" where
  "providerSchema F = Z_Object
     [(''id'', uuidSchema F), (''name'', named), (''timezone'', timezoneSchema F), (''slotMinutes'', slot_length),
      (''cancellationWindowHours'', natural), (''reminderOffsetsMinutes'', Z_Array 1 any_int)]"

definition clientSchema :: "formats \<Rightarrow> schema" where
  "clientSchema F = Z_Object [(''id'', uuidSchema F), (''email'', Z_String (fmt_email F)), (''name'', named)]"

definition bookingSchema :: "formats \<Rightarrow> schema" where
  "bookingSchema F = Z_Object
     [(''id'', uuidSchema F), (''slotId'', uuidSchema F), (''clientId'', uuidSchema F),
      (''clientTimezone'', timezoneSchema F), (''status'', Z_Enum BookingStatus), (''version'', positive),
      (''createdAt'', isoUTCStringSchema), (''cancelledAt'', Z_Nullable isoUTCStringSchema)]"

definition serviceSchema :: "formats \<Rightarrow> schema" where
  "serviceSchema F = Z_Object
     [(''id'', uuidSchema F), (''providerId'', uuidSchema F), (''name'', named), (''durationMinutes'', slot_length),
      (''bufferMinutes'', Z_Default natural), (''priceCents'', Z_Optional (Z_Nullable any_int))]"

definition slotSchema :: "formats \<Rightarrow> schema" where
  "slotSchema F = Z_Object
     [(''id'', uuidSchema F), (''providerId'', uuidSchema F), (''slotStartUtc'', isoUTCStringSchema),
      (''slotEndUtc'', isoUTCStringSchema), (''displayTz'', timezoneSchema F), (''status'', Z_Enum SlotStatus)]"

definition reminderJobSchema :: "formats \<Rightarrow> schema" where
  "reminderJobSchema F = Z_Object
     [(''id'', uuidSchema F), (''bookingId'', uuidSchema F), (''offsetMinutes'', any_int),
      (''fireAtUtc'', isoUTCStringSchema), (''status'', Z_Enum ReminderJobStatus), (''attempts'', natural),
      (''lockedUntil'', Z_Nullable isoUTCStringSchema), (''sentAt'', Z_Nullable isoUTCStringSchema),
      (''providerMessageId'', Z_Optional any_text), (''lastError'', Z_Optional any_text)]"

definition availabilityRuleSchema :: "formats \<Rightarrow> schema" where
  "availabilityRuleSchema F = Z_Object
     [(''id'', uuidSchema F), (''providerId'', uuidSchema F), (''dayOfWeek'', weekday), (''startTime'', time_of_day),
      (''endTime'', time_of_day)]"

definition bookingRequestSchema :: "formats \<Rightarrow> schema" where
  "bookingRequestSchema F = Z_Object
     [(''slotId'', uuidSchema F), (''clientId'', uuidSchema F), (''clientTimezone'', timezoneSchema F),
      (''idempotencyKey'', key_text)]"

definition cancelRequestSchema :: "formats \<Rightarrow> schema" where
  "cancelRequestSchema F = Z_Object
     [(''bookingId'', uuidSchema F), (''version'', positive), (''ifMatch'', positive), (''nowUtc'', isoUTCStringSchema),
      (''cancellationWindowHours'', natural), (''slotStartUtc'', isoUTCStringSchema)]"

definition rescheduleRequestSchema :: "formats \<Rightarrow> schema" where
  "rescheduleRequestSchema F = Z_Object
     [(''bookingId'', uuidSchema F), (''newSlotId'', uuidSchema F), (''idempotencyKey'', key_text),
      (''version'', positive), (''ifMatch'', positive), (''cancellationWindowHours'', Z_Optional natural)]"

definition waitlistEntrySchema :: "formats \<Rightarrow> schema" where
  "waitlistEntrySchema F = Z_Object
     [(''id'', uuidSchema F), (''providerId'', uuidSchema F), (''clientId'', uuidSchema F),
      (''desiredDate'', Z_String plain_date_text), (''desiredServiceId'', Z_Optional (uuidSchema F)),
      (''notifiedAt'', Z_Optional (Z_Nullable isoUTCStringSchema))]"

definition blockedPeriodSchema :: "formats \<Rightarrow> schema" where
  "blockedPeriodSchema F = Z_Object
     [(''id'', uuidSchema F), (''providerId'', uuidSchema F), (''rangeStartUtc'', isoUTCStringSchema),
      (''rangeEndUtc'', isoUTCStringSchema), (''reason'', Z_Optional any_text)]"

definition providerUpdateSchema :: "formats \<Rightarrow> schema" where
  "providerUpdateSchema F = Z_Object
     [(''name'', Z_Optional named), (''timezone'', Z_Optional (timezoneSchema F)),
      (''slotMinutes'', Z_Optional slot_length), (''cancellationWindowHours'', Z_Optional natural),
      (''reminderOffsetsMinutes'', Z_Optional (Z_Array 1 any_int))]"

definition clientUpdateSchema :: "formats \<Rightarrow> schema" where
  "clientUpdateSchema F = Z_Object [(''email'', Z_Optional (Z_String (fmt_email F))), (''name'', Z_Optional named)]"

text \<open>The method \<open>check\<close> of \<open>availabilityRuleCreateSchema\<close>, on the two texts.\<close>

definition check_times :: "string \<Rightarrow> string \<Rightarrow> js_error + unit" where
  "check_times st en =
     (if en \<le> st then Inl (Error ''endTime must be after startTime'') else Inr ())"

definition validateUuid :: "(schema \<Rightarrow> jv option \<Rightarrow> bool) \<Rightarrow> formats \<Rightarrow> string \<Rightarrow> js_error + unit" where
  "validateUuid accepts F i =
     (if \<not> accepts (uuidSchema F) (Some (JStr i)) then Inl (Error (''Invalid UUID: '' @ i)) else Inr ())"

definition validateTimezone :: "(schema \<Rightarrow> jv option \<Rightarrow> bool) \<Rightarrow> formats \<Rightarrow> string \<Rightarrow> js_error + unit" where
  "validateTimezone accepts F tz =
     (if \<not> accepts (timezoneSchema F) (Some (JStr tz)) then Inl (Error (''Invalid timezone: '' @ tz)) else Inr ())"

subsection \<open>The calendar export\<close>

record ics_booking =
  ics_id :: string
  ics_start :: string
  ics_end :: string
  ics_status :: string

text \<open>\<open>replace(/\.\d{3}Z/, 'Z')\<close>: the first match only.\<close>

fun drop_millis :: "string \<Rightarrow> string" where
  "drop_millis (p # a # b # c # z # r) =
     (if p = CHR ''.'' \<and> is_digit a \<and> is_digit b \<and> is_digit c \<and> z = CHR ''Z'' then CHR ''Z'' # r
      else p # drop_millis (a # b # c # z # r))"
| "drop_millis s = s"

definition ics_stamp :: "string \<Rightarrow> string" where
  "ics_stamp s = drop_millis (filter (\<lambda>c. c \<noteq> CHR ''-'' \<and> c \<noteq> CHR '':'') s)"

definition crlf :: string where "crlf = [char_of (13 :: nat), char_of (10 :: nat)]"

fun join_lines :: "string list \<Rightarrow> string" where
  "join_lines [] = []"
| "join_lines [s] = s"
| "join_lines (s # t # ss) = s @ crlf @ join_lines (t # ss)"

definition upper_char :: "char \<Rightarrow> char" where
  "upper_char c = (let n = (of_char c :: nat) in if 97 \<le> n \<and> n \<le> 122 then char_of (n - 32) else c)"

definition generateICS :: "ics_booking \<Rightarrow> string" where
  "generateICS b = join_lines
     [''BEGIN:VCALENDAR'', ''VERSION:2.0'', ''PRODID:-//Chronos//Appointment//EN'', ''BEGIN:VEVENT'',
      ''UID:'' @ ics_id b @ ''@chronos'', ''DTSTART:'' @ ics_stamp (ics_start b), ''DTEND:'' @ ics_stamp (ics_end b),
      ''SUMMARY:Chronos Appointment'', ''STATUS:'' @ map upper_char (ics_status b), ''END:VEVENT'', ''END:VCALENDAR'']"

subsection \<open>The validation library\<close>

text \<open>What its documentation says of the combinators: a number is whole when it is an integer that doubles
  hold exactly; an object may have further keys.\<close>

definition safe_int :: "int \<Rightarrow> bool" where
  "safe_int n \<longleftrightarrow> \<bar>n\<bar> < 2 ^ 53"

locale zod =
  fixes accepts :: "schema \<Rightarrow> jv option \<Rightarrow> bool"
  assumes string: "accepts (Z_String p) v \<longleftrightarrow> (\<exists>s. v = Some (JStr s) \<and> p s)"
    and int: "accepts (Z_Int q) v \<longleftrightarrow> (\<exists>n. v = Some (JNum (of_int n)) \<and> safe_int n \<and> q n)"
    and array: "accepts (Z_Array k z) v \<longleftrightarrow> (\<exists>xs. v = Some (JArr xs) \<and> k \<le> length xs \<and> (\<forall>x \<in> set xs. accepts z (Some x)))"
    and enum: "accepts (Z_Enum ts) v \<longleftrightarrow> (\<exists>s. v = Some (JStr s) \<and> s \<in> set ts)"
    and nullable: "accepts (Z_Nullable z) v \<longleftrightarrow> v = Some JNull \<or> accepts z v"
    and optional: "accepts (Z_Optional z) v \<longleftrightarrow> v = None \<or> accepts z v"
    and defaulted: "accepts (Z_Default z) v \<longleftrightarrow> v = None \<or> accepts z v"
    and object: "accepts (Z_Object sh) v \<longleftrightarrow>
      (\<exists>fs. v = Some (JObj fs) \<and> (\<forall>(k, z) \<in> set sh. accepts z (map_of fs k)))"
begin

lemmas laws = string int array enum nullable optional defaulted object

text \<open>The fields of an availability rule.\<close>

lemma rule_fields:
  assumes "accepts (availabilityRuleSchema F) (Some (JObj fs))"
  obtains st en d where "map_of fs ''startTime'' = Some (JStr st)" "time_text st"
    "map_of fs ''endTime'' = Some (JStr en)" "time_text en"
    "map_of fs ''dayOfWeek'' = Some (JNum (of_int d))" "1 \<le> d" "d \<le> 7"
  using assms by (auto simp: availabilityRuleSchema_def laws time_of_day_def weekday_def)

lemma booking_status_field:
  "accepts (bookingSchema F) (Some (JObj fs)) \<Longrightarrow>
     \<exists>s. map_of fs ''status'' = Some (JStr s) \<and> s \<in> set BookingStatus"
  by (auto simp: bookingSchema_def laws)

end

fun documented :: "schema \<Rightarrow> jv option \<Rightarrow> bool" where
  "documented (Z_String p) v = (case v of Some (JStr s) \<Rightarrow> p s | _ \<Rightarrow> False)"
| "documented (Z_Int q) v = (case v of Some (JNum x) \<Rightarrow> of_int \<lfloor>x\<rfloor> = x \<and> safe_int \<lfloor>x\<rfloor> \<and> q \<lfloor>x\<rfloor> | _ \<Rightarrow> False)"
| "documented (Z_Array k z) v = (case v of Some (JArr xs) \<Rightarrow> k \<le> length xs \<and> list_all (\<lambda>x. documented z (Some x)) xs
     | _ \<Rightarrow> False)"
| "documented (Z_Enum ts) v = (case v of Some (JStr s) \<Rightarrow> s \<in> set ts | _ \<Rightarrow> False)"
| "documented (Z_Nullable z) v = (v = Some JNull \<or> documented z v)"
| "documented (Z_Optional z) v = (v = None \<or> documented z v)"
| "documented (Z_Default z) v = (v = None \<or> documented z v)"
| "documented (Z_Object sh) v = (case v of
     Some (JObj fs) \<Rightarrow> list_all (\<lambda>(k, z). documented z (map_of fs k)) sh | _ \<Rightarrow> False)"

interpretation documented: zod documented
proof
  show "documented (Z_Int q) v \<longleftrightarrow> (\<exists>n. v = Some (JNum (of_int n)) \<and> safe_int n \<and> q n)" for q v
    by (auto split: option.split jv.split)
qed (auto split: option.splits jv.splits simp: list_all_iff)

subsection \<open>Times of day\<close>

lemma digit_charI: "is_digit c \<Longrightarrow> c = digit_char (digit_val c) \<and> 0 \<le> digit_val c \<and> digit_val c \<le> 9"
  by (auto simp: is_digit_def digit_char_def digit_val_def nat_diff_distrib)

lemma digit_chars:
  "CHR ''0'' = digit_char 0" "CHR ''1'' = digit_char 1" "CHR ''2'' = digit_char 2" "CHR ''3'' = digit_char 3"
  "CHR ''4'' = digit_char 4" "CHR ''5'' = digit_char 5"
  by code_simp+

lemma two_digits: "0 \<le> i \<Longrightarrow> i \<le> 9 \<Longrightarrow> 0 \<le> j \<Longrightarrow> j \<le> 9 \<Longrightarrow> pad_digits 2 (10 * i + j) = [digit_char i, digit_char j]"
  by (simp add: numeral_2_eq_2)

lemma time_digits:
  assumes "0 \<le> i" "i \<le> 9" "0 \<le> j" "j \<le> 9" "0 \<le> k" "k \<le> 9" "0 \<le> l" "l \<le> 9"
  shows "time_text [digit_char i, digit_char j, CHR '':'', digit_char k, digit_char l] \<longleftrightarrow> 10 * i + j \<le> 23 \<and> k \<le> 5"
  using assms by (auto simp: digit_chars digit_char_eq_iff)

lemma time_text_hhmm: "0 \<le> m \<Longrightarrow> m < 1440 \<Longrightarrow> time_text (hhmm m)"
proof -
  assume m: "0 \<le> m" "m < 1440"
  define h n where "h = m div 60" and "n = m mod 60"
  have h: "0 \<le> h" "h \<le> 23" and n: "0 \<le> n" "n \<le> 59" using minute_ranges [OF m] by (auto simp: h_def n_def)
  define i j k l where "i = h div 10" and "j = h mod 10" and "k = n div 10" and "l = n mod 10"
  have r: "0 \<le> i" "i \<le> 9" "0 \<le> j" "j \<le> 9" "0 \<le> k" "k \<le> 9" "0 \<le> l" "l \<le> 9" "k \<le> 5"
    and eqs: "h = 10 * i + j" "n = 10 * k + l"
    using h n unfolding i_def j_def k_def l_def by simp_all
  have "hhmm m = [digit_char i, digit_char j, CHR '':'', digit_char k, digit_char l]"
    unfolding hhmm_def h_def [symmetric] n_def [symmetric] eqs using r by (simp add: two_digits)
  then show ?thesis using time_digits [OF r(1-8)] r(9) h(2) unfolding eqs by simp
qed

lemma time_text_minutes: "time_text s \<Longrightarrow> \<exists>m. 0 \<le> m \<and> m < 1440 \<and> s = hhmm m"
proof (induction s rule: time_text.induct)
  case (1 a b c d e)
  then have digits: "is_digit a" "is_digit b" "c = CHR '':''" "is_digit d" "is_digit e"
    by (auto simp: is_digit_def)
  define i j k l where v: "i = digit_val a" "j = digit_val b" "k = digit_val d" "l = digit_val e"
  have r: "0 \<le> i" "i \<le> 9" "0 \<le> j" "j \<le> 9" "0 \<le> k" "k \<le> 9" "0 \<le> l" "l \<le> 9"
    and eqs: "a = digit_char i" "b = digit_char j" "d = digit_char k" "e = digit_char l"
    using digits digit_charI unfolding v by blast+
  have "10 * i + j \<le> 23" "k \<le> 5" using 1 time_digits [OF r] unfolding eqs digits(3) by blast+
  then have b: "0 \<le> (10 * i + j) * 60 + (10 * k + l)" "(10 * i + j) * 60 + (10 * k + l) < 1440"
    "((10 * i + j) * 60 + (10 * k + l)) div 60 = 10 * i + j" "((10 * i + j) * 60 + (10 * k + l)) mod 60 = 10 * k + l"
  proof -
    have "(x * 60 + y) div 60 = x \<and> (x * 60 + y) mod 60 = y" if "0 \<le> y" "y < 60" for x y :: int
      using that by simp
    moreover have "0 \<le> 10 * k + l" "10 * k + l < 60" using r \<open>k \<le> 5\<close> by linarith+
    ultimately show "((10 * i + j) * 60 + (10 * k + l)) div 60 = 10 * i + j"
      "((10 * i + j) * 60 + (10 * k + l)) mod 60 = 10 * k + l" by blast+
    show "0 \<le> (10 * i + j) * 60 + (10 * k + l)" "(10 * i + j) * 60 + (10 * k + l) < 1440"
      unfolding distrib_right using r \<open>k \<le> 5\<close> \<open>10 * i + j \<le> 23\<close> by linarith+
  qed
  have "[a, b, c, d, e] = hhmm ((10 * i + j) * 60 + (10 * k + l))"
    unfolding hhmm_def b(3,4) using r by (simp add: two_digits eqs digits(3))
  then show ?case using b(1,2) by blast
qed auto

lemma hhmm_less_iff:
  assumes "0 \<le> a" "a < 1440" "0 \<le> b" "b < 1440"
  shows "hhmm a < hhmm b \<longleftrightarrow> a < b"
proof -
  define h n h' n' where v: "h = a div 60" "n = a mod 60" "h' = b div 60" "n' = b mod 60"
  have dec: "a = 60 * h + n" "b = 60 * h' + n'" by (simp_all add: v)
  have r: "0 \<le> h" "h < 10 ^ 2" "0 \<le> n" "n < 10 ^ 2" "0 \<le> h'" "h' < 10 ^ 2" "0 \<le> n'" "n' < 10 ^ 2"
    and small: "n < 60" "n' < 60"
    using minute_ranges [OF assms(1,2)] minute_ranges [OF assms(3,4)] by (auto simp: v)
  have "hhmm a = pad_digits 2 h @ CHR '':'' # pad_digits 2 n" "hhmm b = pad_digits 2 h' @ CHR '':'' # pad_digits 2 n'"
    by (simp_all add: hhmm_def v)
  then have "hhmm a < hhmm b \<longleftrightarrow> h < h' \<or> h = h' \<and> n < n'"
    using r by (simp only: append_less_iff_same_length length_pad_digits pad_digits_less_iff pad_digits_inj
        Cons_less_Cons) auto
  also have "\<dots> \<longleftrightarrow> a < b" using r small unfolding dec by linarith
  finally show ?thesis .
qed

text \<open>The times the schemas accept are exactly the 1440 texts \<open>HH:MM\<close> of the minutes of a day, and comparing
  two of them as texts, as \<open>check\<close> and the materializer do, compares the minutes.\<close>

theorem time_text_minutes_iff:
  "(time_text s \<longleftrightarrow> (\<exists>m. 0 \<le> m \<and> m < 1440 \<and> s = hhmm m))
    \<and> (\<forall>a \<in> {0..<1440}. \<forall>b \<in> {0..<1440}. check_times (hhmm a) (hhmm b) = Inr () \<longleftrightarrow> a < b)"
proof (intro conjI ballI)
  show "time_text s \<longleftrightarrow> (\<exists>m. 0 \<le> m \<and> m < 1440 \<and> s = hhmm m)"
    using time_text_hhmm time_text_minutes by blast
next
  fix a b :: int
  assume "a \<in> {0..<1440}" "b \<in> {0..<1440}"
  then have "hhmm b \<le> hhmm a \<longleftrightarrow> \<not> a < b" using hhmm_less_iff [of a b] by (simp add: not_less [symmetric])
  then show "check_times (hhmm a) (hhmm b) = Inr () \<longleftrightarrow> a < b" by (simp add: check_times_def)
qed

theorem time_text_minutes_iff_witness:
  "time_text ''23:59'' \<and> \<not> time_text ''24:00'' \<and> check_times ''09:05'' ''10:00'' = Inr ()"
proof -
  have "hhmm 545 = ''09:05''" "hhmm 600 = ''10:00''" by code_simp+
  then have "check_times ''09:05'' ''10:00'' = Inr ()"
    using time_text_minutes_iff [of "''09:05''"] by (metis atLeastLessThan_iff numeral_less_iff rel_simps zero_le_numeral)
  moreover have "time_text ''23:59''" "\<not> time_text ''24:00''" by (simp_all add: is_digit_def)
  ultimately show ?thesis by blast
qed


definition demo_formats :: formats where
  "demo_formats = \<lparr>fmt_uuid = (\<lambda>s. s \<noteq> []), fmt_email = (\<lambda>s. s \<noteq> []), fmt_zone = (\<lambda>s. ny_zone s \<noteq> None)\<rparr>"

definition rule_json :: "rule_row \<Rightarrow> (string \<times> jv) list" where
  "rule_json r = [(''id'', JStr ''r''), (''providerId'', JStr (ru_provider r)), (''dayOfWeek'', JNum (of_int (ru_dow r))),
     (''startTime'', JStr (ru_start r)), (''endTime'', JStr (ru_end r))]"


subsection \<open>Statuses\<close>

text \<open>C32. The statuses of the contracts are those of the database: a booking the schema accepts has a status
  the CHECK constraint of \<open>bookings.status\<close> stores, every status stored is one of the contracts', and reading
  a stored status back gives the status written.\<close>

theorem booking_status_contract:
  assumes "zod accepts" "accepts (bookingSchema F) (Some (JObj fs))"
  shows "\<exists>s st. map_of fs ''status'' = Some (JStr s) \<and> booking_status_of s = Some st \<and> booking_status_text st = s
    \<and> booking_status_text ` UNIV = set BookingStatus"
proof -
  obtain s where s: "map_of fs ''status'' = Some (JStr s)" "s \<in> set BookingStatus"
    using zod.booking_status_field [OF assms] by blast
  moreover have all: "booking_status_text ` UNIV = set BookingStatus"
  proof (intro equalityI subsetI)
    show "x \<in> set BookingStatus" if "x \<in> booking_status_text ` UNIV" for x
      using that by (auto simp: BookingStatus_def) (metis booking_status_text.simps booking_status.exhaust)
    show "x \<in> booking_status_text ` UNIV" if "x \<in> set BookingStatus" for x
      using that by (auto simp: BookingStatus_def intro: rev_image_eqI [of Booked] rev_image_eqI [of Completed]
          rev_image_eqI [of Cancelled] rev_image_eqI [of No_Show])
  qed
  ultimately obtain st where "s = booking_status_text st" by blast
  then have "booking_status_of s = Some st" "booking_status_text st = s" by (simp_all only: booking_status_of_text)
  then show ?thesis using s(1) all by blast
qed

definition booking_json :: "(string \<times> jv) list" where
  "booking_json = [(''id'', JStr ''b''), (''slotId'', JStr ''s''), (''clientId'', JStr ''c''),
     (''clientTimezone'', JStr ''UTC''), (''status'', JStr ''no_show''), (''version'', JNum 2), (''createdAt'', JStr ''Z''),
     (''cancelledAt'', JNull)]"

theorem booking_status_contract_witness:
  "\<exists>s st. map_of booking_json ''status'' = Some (JStr s) \<and> booking_status_of s = Some st \<and> booking_status_text st = s
    \<and> booking_status_text ` UNIV = set BookingStatus"
proof (rule booking_status_contract [OF documented.zod_axioms])
  show "documented (bookingSchema demo_formats) (Some (JObj booking_json))"
    by (simp add: bookingSchema_def booking_json_def uuidSchema_def timezoneSchema_def demo_formats_def ny_zone_def
        BookingStatus_def positive_def safe_int_def isoUTCStringSchema_def iso_utc_text_def)
qed

text \<open>The schema of instants takes any text with the right ending.\<close>

lemma iso_schema_accepts_non_dates: "iso_utc_text ''Z'' \<and> iso_utc_text ''tomorrow+00:00''"
  by code_simp

end
