(* ===== verification/Booking_Race.thy ===== *)
theory Booking_Race
  imports Booking_Service Quiet
begin

text \<open>
  \<^verbatim>\<open>apps/api/src/bookings/bookings.service.ts\<close>, several requests at once. The transaction of
  \<open>createBooking\<close> is cut at its calls of the database into phases, one phase a step, and the steps of any
  number of requests are interleaved: between two \<open>await\<close>s of one request the server runs others on
  the same pool. Run alone, the phases are the transaction of \<open>Booking_Service\<close> (\<open>phases_are_transaction\<close>).
\<close>

subsection \<open>Phases of a request\<close>

datatype phase =
    At_Begin
  | At_Claim
  | At_Refuse
  | At_Insert slot_row
  | At_Reminders string int "int list"
  | At_Key string
  | At_Commit string
  | At_Queue string
  | At_Failure exn
  | Answered booking_result

record call =
  ca_req :: booking_request
  ca_now :: int
  ca_min :: int
  ca_queue :: bool

definition idem_insert :: "booking_request \<Rightarrow> string \<Rightarrow> ('q, unit) prog" where
  "idem_insert req bk = (case truthy (rq_key req) of None \<Rightarrow> ret ()
     | Some k \<Rightarrow> query Pool (insert_idem (rq_client req) k (request_text req) bk))"

fun phase_body :: "call \<Rightarrow> phase \<Rightarrow> ('q, phase) prog" where
  "phase_body c At_Begin = andthen (begin_tx Pool) (ret At_Claim)"
| "phase_body c At_Claim = bind (query Pool (claim_slot (rq_slot (ca_req c)) (\<lambda>st. ca_now c \<le> st \<and> ca_min c \<le> st)))
     (\<lambda>rows. ret (case rows of [] \<Rightarrow> At_Refuse | s # _ \<Rightarrow> At_Insert s))"
| "phase_body c At_Refuse = andthen (rollback_tx Pool) (ret (Answered (failed 409 ''slot_unavailable'')))"
| "phase_body c (At_Insert s) = bind (query Pool (insert_booking (rq_slot (ca_req c)) (rq_client (ca_req c)) (rq_tz (ca_req c))
      (truthy (rq_provider (ca_req c))) (truthy (rq_event_type (ca_req c))) 1))
     (\<lambda>b. ret (At_Reminders (b_id b) (s_start s) [1440, 60]))"
| "phase_body c (At_Reminders bk st []) = ret (At_Key bk)"
| "phase_body c (At_Reminders bk st (off # offs)) =
     andthen (insert_future_reminder bk st off) (ret (At_Reminders bk st offs))"
| "phase_body c (At_Key bk) = andthen (idem_insert (ca_req c) bk) (ret (At_Commit bk))"
| "phase_body c (At_Commit bk) = andthen (commit_tx Pool) (ret (At_Queue bk))"
| "phase_body c (At_Queue bk) =
     andthen (if ca_queue c then enqueue_after_commit (rq_slot (ca_req c)) bk (ca_now c) else ret ())
       (ret (Answered (created bk False)))"
| "phase_body c (At_Failure x) = bind (booking_failure x) (\<lambda>r. ret (Answered r))"
| "phase_body c (Answered r) = ret (Answered r)"

text \<open>What is thrown is caught by the handler of the transaction.\<close>

definition phase_step :: "call \<Rightarrow> phase \<Rightarrow> ('q, phase) prog" where
  "phase_step c p = try_catch (phase_body c p) (\<lambda>x. ret (At_Failure x))"

subsection \<open>One request alone\<close>

fun run_phases :: "nat \<Rightarrow> call \<Rightarrow> phase \<Rightarrow> ('q, booking_result option) prog" where
  "run_phases n c (Answered r) = ret (Some r)"
| "run_phases 0 c p = ret None"
| "run_phases (Suc n) c p = bind (phase_step c p) (run_phases n c)"

definition whole :: "call \<Rightarrow> ('q, booking_result) prog" where
  "whole c = try_catch (booking_transaction (ca_req c) (ca_now c) (ca_min c) (ca_queue c)) booking_failure"

text \<open>What is left to do from a phase, in the words of the service.\<close>

fun rest :: "call \<Rightarrow> phase \<Rightarrow> ('q, booking_result) prog" where
  "rest c (At_Failure x) = booking_failure x"
| "rest c (Answered r) = ret r"
| "rest c (At_Queue bk) = try_catch
     (andthen (if ca_queue c then enqueue_after_commit (rq_slot (ca_req c)) bk (ca_now c) else ret ())
       (ret (created bk False))) booking_failure"
| "rest c (At_Commit bk) = try_catch (andthen (commit_tx Pool)
     (andthen (if ca_queue c then enqueue_after_commit (rq_slot (ca_req c)) bk (ca_now c) else ret ())
       (ret (created bk False)))) booking_failure"
| "rest c (At_Key bk) = try_catch (andthen (idem_insert (ca_req c) bk) (andthen (commit_tx Pool)
     (andthen (if ca_queue c then enqueue_after_commit (rq_slot (ca_req c)) bk (ca_now c) else ret ())
       (ret (created bk False))))) booking_failure"
| "rest c (At_Reminders bk st offs) = try_catch (andthen (for_each offs (insert_future_reminder bk st))
     (andthen (idem_insert (ca_req c) bk) (andthen (commit_tx Pool)
     (andthen (if ca_queue c then enqueue_after_commit (rq_slot (ca_req c)) bk (ca_now c) else ret ())
       (ret (created bk False)))))) booking_failure"
| "rest c (At_Insert s) = try_catch
     (bind (query Pool (insert_booking (rq_slot (ca_req c)) (rq_client (ca_req c)) (rq_tz (ca_req c))
        (truthy (rq_provider (ca_req c))) (truthy (rq_event_type (ca_req c))) 1)) (\<lambda>b.
      andthen (for_each [1440, 60] (insert_future_reminder (b_id b) (s_start s)))
     (andthen (idem_insert (ca_req c) (b_id b)) (andthen (commit_tx Pool)
     (andthen (if ca_queue c then enqueue_after_commit (rq_slot (ca_req c)) (b_id b) (ca_now c) else ret ())
       (ret (created (b_id b) False))))))) booking_failure"
| "rest c At_Refuse = try_catch (andthen (rollback_tx Pool) (ret (failed 409 ''slot_unavailable''))) booking_failure"
| "rest c At_Claim = try_catch
     (bind (query Pool (claim_slot (rq_slot (ca_req c)) (\<lambda>st. ca_now c \<le> st \<and> ca_min c \<le> st))) (\<lambda>rows. case rows of
        [] \<Rightarrow> andthen (rollback_tx Pool) (ret (failed 409 ''slot_unavailable''))
      | s # _ \<Rightarrow>
        bind (query Pool (insert_booking (rq_slot (ca_req c)) (rq_client (ca_req c)) (rq_tz (ca_req c))
          (truthy (rq_provider (ca_req c))) (truthy (rq_event_type (ca_req c))) 1)) (\<lambda>b.
        andthen (for_each [1440, 60] (insert_future_reminder (b_id b) (s_start s)))
       (andthen (idem_insert (ca_req c) (b_id b)) (andthen (commit_tx Pool)
       (andthen (if ca_queue c then enqueue_after_commit (rq_slot (ca_req c)) (b_id b) (ca_now c) else ret ())
         (ret (created (b_id b) False)))))))) booking_failure"
| "rest c At_Begin = whole c"

text \<open>Steps a phase is from the answer, an upper bound.\<close>

fun distance :: "phase \<Rightarrow> nat" where
  "distance (Answered r) = 0"
| "distance (At_Failure x) = 1"
| "distance (At_Queue bk) = 2"
| "distance At_Refuse = 2"
| "distance (At_Commit bk) = 3"
| "distance (At_Key bk) = 4"
| "distance (At_Reminders bk st offs) = 5 + length offs"
| "distance (At_Insert s) = 8"
| "distance At_Claim = 9"
| "distance At_Begin = 10"

lemma booking_failure_Inr: "\<exists>r w'. booking_failure x e w = (Inr r, w')"
  by (simp add: booking_failure_def prog_simps split: prod.splits)

lemma phase_step_rest: "bind (phase_step c p) (rest c) = rest c p"
proof (intro ext)
  fix e and w :: "'a world"
  show "bind (phase_step c p) (rest c) e w = rest c p e w"
  proof (cases p)
    case (At_Reminders bk st offs)
    then show ?thesis
      by (cases offs) (simp_all add: phase_step_def prog_simps split: prod.splits sum.splits)
  next
    case (At_Failure x)
    then show ?thesis using booking_failure_Inr [of x e w]
      by (auto simp: phase_step_def prog_simps)
  qed (auto simp: phase_step_def prog_simps whole_def booking_transaction_def idem_insert_def
      split: prod.splits sum.splits list.splits)
qed

lemma phase_step_nearer:
  assumes "phase_step c p e w = (r, w')"
  shows "\<exists>p'. r = Inr p' \<and> (distance p' < distance p \<or> (\<exists>a. p = Answered a \<and> p' = p))"
proof -
  have "\<exists>p'. r = Inr p'" using assms
    by (auto simp: phase_step_def prog_simps split: prod.splits sum.splits)
  then obtain p' where r: "r = Inr p'" by blast
  have "distance p' < distance p" if "\<nexists>a. p = Answered a"
  proof (cases p)
    case (At_Reminders bk st offs)
    then show ?thesis using assms r
      by (cases offs) (auto simp: phase_step_def prog_simps split: prod.splits sum.splits)
  next
    case (At_Failure x)
    then show ?thesis using assms r booking_failure_Inr [of x e w] by (auto simp: phase_step_def prog_simps)
  next
    case (Answered a)
    then show ?thesis using that by blast
  qed (use assms r in \<open>auto simp: phase_step_def prog_simps split: prod.splits sum.splits list.splits\<close>)
  moreover have "p' = p" if "p = Answered a" for a
    using assms r that by (simp add: phase_step_def prog_simps)
  ultimately show ?thesis using r by blast
qed

lemma run_phases_rest:
  "distance p \<le> n \<Longrightarrow> run_phases n c p e w = (case rest c p e w of (Inl x, w') \<Rightarrow> (Inl x, w') | (Inr r, w') \<Rightarrow> (Inr (Some r), w'))"
proof (induction n arbitrary: p w)
  case 0
  then show ?case by (cases p) (simp_all add: prog_simps)
next
  case (Suc n)
  show ?case
  proof (cases "\<exists>a. p = Answered a")
    case True
    then show ?thesis by (auto simp: prog_simps)
  next
    case False
    obtain r w' where run: "phase_step c p e w = (r, w')" by fastforce
    then obtain p' where p': "r = Inr p'" "distance p' < distance p" using phase_step_nearer False by blast
    have "run_phases (Suc n) c p e w = run_phases n c p' e w'"
      using False run p' by (cases p) (simp_all add: prog_simps)
    also have "\<dots> = (case rest c p' e w' of (Inl x, w') \<Rightarrow> (Inl x, w') | (Inr r, w') \<Rightarrow> (Inr (Some r), w'))"
      using p' Suc.prems by (intro Suc.IH) linarith
    also have "rest c p' e w' = rest c p e w"
      using phase_step_rest [of c p, THEN fun_cong, THEN fun_cong, of e w] run p' by (simp add: prog_simps)
    finally show ?thesis .
  qed
qed

subsection \<open>Many requests at once\<close>

text \<open>A state is the world and the requests with the phase each has reached. A step starts a request or
  runs the next phase of one of them; a request that never moves again is one whose process died.\<close>

inductive race :: "'q env \<Rightarrow> 'q world \<times> (call \<times> phase) list \<Rightarrow> 'q world \<times> (call \<times> phase) list \<Rightarrow> bool" for e where
  arrive: "race e (w, cs) (w, cs @ [(c, At_Begin)])"
| advance: "i < length cs \<Longrightarrow> cs ! i = (c, p) \<Longrightarrow> phase_step c p e w = (Inr p', w') \<Longrightarrow>
     race e (w, cs) (w', cs[i := (c, p')])"

inductive_cases raceE: "race e (w, cs) s'"

inductive race_reachable :: "'q env \<Rightarrow> 'q world \<Rightarrow> 'q world \<times> (call \<times> phase) list \<Rightarrow> bool" for e w0 where
  start: "race_reachable e w0 (w0, [])"
| step: "race_reachable e w0 s \<Longrightarrow> race e s s' \<Longrightarrow> race_reachable e w0 s'"

fun run_schedule :: "'q env \<Rightarrow> nat list \<Rightarrow> 'q world \<times> (call \<times> phase) list \<Rightarrow> 'q world \<times> (call \<times> phase) list" where
  "run_schedule e [] s = s"
| "run_schedule e (i # is) (w, cs) =
     (if i < length cs then (case phase_step (fst (cs ! i)) (snd (cs ! i)) e w of
          (Inr p', w') \<Rightarrow> run_schedule e is (w', cs[i := (fst (cs ! i), p')])
        | (Inl _, _) \<Rightarrow> run_schedule e is (w, cs))
      else run_schedule e is (w, cs))"

lemma run_schedule_reachable:
  "race_reachable e w0 s \<Longrightarrow> race_reachable e w0 (run_schedule e is s)"
proof (induction e "is" s rule: run_schedule.induct)
  case (2 e i "is" w cs)
  obtain r w' where run: "phase_step (fst (cs ! i)) (snd (cs ! i)) e w = (r, w')" by fastforce
  then obtain p' where p': "r = Inr p'" using phase_step_nearer by blast
  show ?case
  proof (cases "i < length cs")
    case True
    have "race e (w, cs) (w', cs[i := (fst (cs ! i), p')])"
      by (rule advance [OF True _ run [unfolded p']]) simp
    then show ?thesis using 2 True run p' race_reachable.step by simp blast
  qed (use 2 in simp)
qed simp

lemma started_reachable: "race_reachable e w0 (w0, map (\<lambda>c. (c, At_Begin)) cs)"
proof (induction cs rule: rev_induct)
  case (snoc c cs)
  then show ?case using race_reachable.step [OF snoc arrive] by simp
qed (simp add: race_reachable.start)

text \<open>What every statement keeps, every interleaving keeps.\<close>

context table_invariant begin

lemma keeps_phase_body: "keeps I (phase_body c p)"
proof (cases p)
  case (At_Reminders bk st offs)
  then show ?thesis
    by (cases offs) (auto intro!: pres_intros keeps_insert_future_reminder)
qed (auto simp: idem_insert_def enqueue_after_commit_def booking_failure_def
    intro!: pres_intros stmt_keeps keeps_enqueueForBooking)

lemma keeps_phase_step: "keeps I (phase_step c p)"
  unfolding phase_step_def by (intro pres_intros keeps_phase_body)

lemma race_holds: "race e s s' \<Longrightarrow> holds I (fst s) \<Longrightarrow> holds I (fst s')"
  by (induction rule: race.induct) (auto dest: keepsD [OF keeps_phase_step])

lemma race_reachable_holds: "race_reachable e w0 s \<Longrightarrow> holds I w0 \<Longrightarrow> holds I (fst s)"
  by (induction rule: race_reachable.induct) (auto intro: race_holds)

end

subsection \<open>A pool that spreads the statements\<close>

text \<open>With more than one connection free each statement commits by itself. No request gives a claimed slot
  back then, so the update that claims it decides: \<open>won\<close> are the phases after it.\<close>

fun won :: "phase \<Rightarrow> bool" where
  "won (At_Insert s) = True"
| "won (At_Reminders bk st offs) = True"
| "won (At_Key bk) = True"
| "won (At_Commit bk) = True"
| "won (At_Queue bk) = True"
| "won (Answered r) = (res_status r = 201)"
| "won p = False"

definition open_ids :: "tables \<Rightarrow> string set" where
  "open_ids t = s_id ` {s \<in> set (slots t). s_status s = Open}"

definition winners :: "string \<Rightarrow> (call \<times> phase) list \<Rightarrow> nat" where
  "winners s cs = length (filter (\<lambda>(c, p). rq_slot (ca_req c) = s \<and> won p) cs)"

lemma length_filter_update:
  "i < length xs \<Longrightarrow> length (filter P (xs[i := y])) + (if P (xs ! i) then 1 else 0)
     = length (filter P xs) + (if P y then 1 else 0)"
proof (induction xs arbitrary: i)
  case (Cons x xs)
  show ?case
  proof (cases i)
    case (Suc j)
    then show ?thesis using Cons.IH [of j] Cons.prems by (auto split: if_splits)
  qed simp
qed simp

lemma query_autocommit:
  assumes "query ch st e w = (r, w')" "tx w = No_Tx"
  shows "tx w' = No_Tx \<and> ((\<exists>x. r = Inl x) \<and> tabs w' = tabs w
    \<or> (\<exists>n u a. r = Inr a \<and> st n u (tabs w) = Inr (a, tabs w')))"
  using assms by (auto simp: query_def split: option.splits sum.splits prod.splits)

lemma claim_open_ids:
  assumes "keys_ok T" "claim_slot i ok n u T = Inr (rows, T')"
  shows "rows = [] \<and> slots T' = slots T \<or> rows \<noteq> [] \<and> i \<in> open_ids T \<and> open_ids T' = open_ids T - {i}"
proof (cases rows)
  case Nil
  then have "\<forall>s \<in> set (slots T). \<not> (s_id s = i \<and> s_status s = Open \<and> ok (s_start s))"
    and "T' = T\<lparr>slots := upd_where (\<lambda>s. s_id s = i \<and> s_status s = Open \<and> ok (s_start s)) (\<lambda>s. s\<lparr>s_status := Held\<rparr>) (slots T)\<rparr>"
    using assms(2) by (auto simp: claim_slot_def Let_def filter_empty_conv)
  then show ?thesis using Nil by (simp add: upd_where_none)
next
  case (Cons s ss)
  obtain s0 where s0: "s0 \<in> set (slots T)" "s_id s0 = i" "s_status s0 = Open" "T' = held i T"
    using claim_slot_Cons [OF assms(1) assms(2) [unfolded Cons]] by blast
  then show ?thesis using Cons by (auto simp: open_ids_def held_def upd_where_def split: if_splits)
qed

lemma booking_failure_lost: "booking_failure x e w = (Inr r, w') \<Longrightarrow> res_status r \<noteq> 201"
  by (auto simp: booking_failure_def prog_simps failure_response_def failed_def split: prod.splits if_splits)

lemma stmts_same_slots:
  "insert_booking s c tz p et v n u T = Inr (b, T') \<Longrightarrow> slots T' = slots T"
  "insert_reminder bk off fire n u T = Inr (a, T') \<Longrightarrow> slots T' = slots T"
  "insert_idem cl k h bk n u T = Inr (a, T') \<Longrightarrow> slots T' = slots T"
  by (auto simp: insert_booking_def insert_reminder_def insert_idem_def Let_def split: if_splits)

lemma undisturbing_enqueue: "undisturbing (enqueue_after_commit s bk c)"
  unfolding enqueue_after_commit_def by (intro quiet_intros quiet_stmts)

text \<open>Programs that leave no transaction open and the slots as they are.\<close>

definition calm :: "'q env \<Rightarrow> ('q, 'a) prog \<Rightarrow> bool" where
  "calm e m \<longleftrightarrow> (\<forall>w r w'. tx w = No_Tx \<longrightarrow> m e w = (r, w') \<longrightarrow> tx w' = No_Tx \<and> slots (tabs w') = slots (tabs w))"

lemma calmI: "(\<And>w r w'. tx w = No_Tx \<Longrightarrow> m e w = (r, w') \<Longrightarrow> tx w' = No_Tx \<and> slots (tabs w') = slots (tabs w)) \<Longrightarrow> calm e m"
  unfolding calm_def by blast

lemma calmD: "calm e m \<Longrightarrow> m e w = (r, w') \<Longrightarrow> tx w = No_Tx \<Longrightarrow> tx w' = No_Tx \<and> slots (tabs w') = slots (tabs w)"
  unfolding calm_def by blast

lemma calm_ret: "calm e (ret a)"
  and calm_now: "calm e now"
  by (simp_all add: calm_def prog_simps)

lemma calm_bind:
  assumes "calm e m" "\<And>a. calm e (f a)"
  shows "calm e (bind m f)"
proof (rule calmI)
  fix w r w'
  assume run: "tx w = No_Tx" "bind m f e w = (r, w')"
  obtain r1 w1 where m: "m e w = (r1, w1)" by fastforce
  show "tx w' = No_Tx \<and> slots (tabs w') = slots (tabs w)"
    using run m calmD [OF assms(1) m] calmD [OF assms(2), of _ w1 r w'] by (cases r1) (auto simp: bind_def)
qed

lemma calm_try_catch:
  assumes "calm e m" "\<And>x. calm e (h x)"
  shows "calm e (try_catch m h)"
proof (rule calmI)
  fix w r w'
  assume run: "tx w = No_Tx" "try_catch m h e w = (r, w')"
  obtain r1 w1 where m: "m e w = (r1, w1)" by fastforce
  show "tx w' = No_Tx \<and> slots (tabs w') = slots (tabs w)"
    using run m calmD [OF assms(1) m] calmD [OF assms(2), of _ w1 r w'] by (cases r1) (auto simp: try_catch_def)
qed

lemma calm_andthen: "calm e m \<Longrightarrow> calm e n \<Longrightarrow> calm e (andthen m n)"
  and calm_swallow: "calm e m \<Longrightarrow> calm e (swallow m)"
  unfolding andthen_def swallow_def by (intro calm_bind calm_try_catch calm_ret | assumption)+

lemma calm_cases:
  "calm e m \<Longrightarrow> calm e n \<Longrightarrow> calm e (if b then m else n)"
  "calm e m \<Longrightarrow> (\<And>x. calm e (g x)) \<Longrightarrow> calm e (case z of None \<Rightarrow> m | Some x \<Rightarrow> g x)"
  by (auto split: option.split)

lemma calm_query:
  assumes "\<And>n u T a T'. st n u T = Inr (a, T') \<Longrightarrow> slots T' = slots T"
  shows "calm e (query ch st)"
  by (rule calmI) (use query_autocommit assms in metis)

lemma calm_undisturbing:
  assumes "undisturbing m"
  shows "calm e m"
proof (rule calmI)
  fix w r w'
  assume run: "tx w = No_Tx" "m e w = (r, w')"
  then have "near_idle (tabs w) w" by (auto simp: near_idle_def idle_def)
  then have "near_idle (tabs w) w'" using run assms undisturbing_wp [of m "tabs w" w e]
    by (auto simp: wp_def split: sum.splits)
  then show "tx w' = No_Tx \<and> slots (tabs w') = slots (tabs w)"
    by (auto simp: near_idle_def idle_def same_booking_tables_def)
qed

lemma calm_tx:
  "\<not> pool_pins e \<Longrightarrow> calm e (begin_tx Pool)"
  "\<not> pool_pins e \<Longrightarrow> calm e (commit_tx Pool)"
  "\<not> pool_pins e \<Longrightarrow> calm e (rollback_tx Pool)"
  by (auto simp: calm_def begin_tx_def commit_tx_def rollback_tx_def no_effect_def split: option.splits)

lemma calm_stmts:
  "calm e (query ch (insert_booking s c tz p et v))"
  "calm e (query ch (insert_reminder bk off fire))"
  "calm e (query ch (insert_idem cl k h bk))"
  by (rule calm_query, erule stmts_same_slots)+

lemmas calm_intros = calm_ret calm_now calm_bind calm_try_catch calm_andthen calm_swallow calm_cases calm_tx
  calm_stmts

lemma calm_phase: "\<not> pool_pins e \<Longrightarrow> p \<noteq> At_Claim \<Longrightarrow> calm e (phase_step c p)"
  unfolding phase_step_def
  by (rule calm_try_catch, induction c p rule: phase_body.induct)
    (auto simp: idem_insert_def insert_future_reminder_def booking_failure_def Let_def
      intro!: calm_intros calm_undisturbing [OF undisturbing_enqueue])

lemma won_before:
  assumes "phase_step c p e w = (Inr p', w')" "p \<noteq> At_Claim" "won p'"
  shows "won p"
proof (cases p)
  case (At_Reminders bk st offs)
  then show ?thesis by simp
next
  case (At_Failure x)
  then show ?thesis using assms(1,3) booking_failure_lost
    by (fastforce simp: phase_step_def prog_simps split: prod.splits sum.splits)
qed (use assms in \<open>auto simp: phase_step_def prog_simps failed_def split: prod.splits sum.splits\<close>)

lemma step_unpinned:
  assumes "\<not> pool_pins e" "tx w = No_Tx" "keys_ok (tabs w)" "phase_step c p e w = (Inr p', w')"
  shows "tx w' = No_Tx \<and> (slots (tabs w') = slots (tabs w) \<and> (won p' \<longrightarrow> won p)
    \<or> p = At_Claim \<and> rq_slot (ca_req c) \<in> open_ids (tabs w)
      \<and> open_ids (tabs w') = open_ids (tabs w) - {rq_slot (ca_req c)})"
proof (cases "p = At_Claim")
  case False
  then show ?thesis using calmD [OF calm_phase assms(4,2)] assms(1) won_before [OF assms(4)] by blast
next
  case True
  obtain r w1 where q: "query Pool (claim_slot (rq_slot (ca_req c)) (\<lambda>st. ca_now c \<le> st \<and> ca_min c \<le> st)) e w = (r, w1)"
    by fastforce
  have step: "w' = w1 \<and> p' = (case r of Inl x \<Rightarrow> At_Failure x | Inr [] \<Rightarrow> At_Refuse | Inr (s # _) \<Rightarrow> At_Insert s)"
    using assms(4) True q by (auto simp: phase_step_def prog_simps split: sum.splits list.splits)
  show ?thesis using query_autocommit [OF q assms(2)]
  proof (elim conjE disjE exE)
    fix n u a
    assume a: "tx w1 = No_Tx" "r = Inr a"
      "claim_slot (rq_slot (ca_req c)) (\<lambda>st. ca_now c \<le> st \<and> ca_min c \<le> st) n u (tabs w) = Inr (a, tabs w1)"
    then show ?thesis using claim_open_ids [OF assms(3) a(3)] step True by (auto split: list.splits)
  qed (use step in auto)
qed

text \<open>At most one request of a slot is past its claim, and none while the slot is open.\<close>

definition decided :: "'q world \<times> (call \<times> phase) list \<Rightarrow> bool" where
  "decided s \<longleftrightarrow> tx (fst s) = No_Tx
     \<and> (\<forall>i. winners i (snd s) + (if i \<in> open_ids (tabs (fst s)) then 1 else 0) \<le> 1)"

lemma winners_append: "winners s (cs @ [(c, At_Begin)]) = winners s cs"
  by (simp add: winners_def)

lemma decided_step:
  assumes "\<not> pool_pins e" "decided (w, cs)" "keys_ok (tabs w)" "race e (w, cs) s'"
  shows "decided s'"
  using assms(4)
proof (cases rule: race.cases)
  case (arrive c)
  then show ?thesis using assms(2) by (simp add: decided_def winners_append)
next
  case (advance i c p p' w')
  let ?P = "\<lambda>s (c, p). rq_slot (ca_req c) = s \<and> won p"
  have tx: "tx w = No_Tx"
    and one: "\<And>s. winners s cs + (if s \<in> open_ids (tabs w) then 1 else 0) \<le> 1"
    using assms(2) by (auto simp: decided_def)
  have count: "winners s (cs[i := (c, p')]) + (if rq_slot (ca_req c) = s \<and> won p then 1 else 0)
      = winners s cs + (if rq_slot (ca_req c) = s \<and> won p' then 1 else 0)" for s
    using length_filter_update [OF advance(2), of "?P s" "(c, p')"] advance(3) by (simp add: winners_def)
  note st = step_unpinned [OF assms(1) tx assms(3) advance(4)]
  have "winners s (cs[i := (c, p')]) + (if s \<in> open_ids (tabs w') then 1 else 0) \<le> 1" for s
  proof (cases "slots (tabs w') = slots (tabs w) \<and> (won p' \<longrightarrow> won p)")
    case True
    then have "open_ids (tabs w') = open_ids (tabs w)" by (simp add: open_ids_def)
    then show ?thesis using count [of s] one [of s] True by (auto split: if_splits)
  next
    case False
    then show ?thesis using st count [of s] one [of s] by (auto split: if_splits)
  qed
  then show ?thesis using st advance(1) by (simp add: decided_def)
qed

lemma reachable_decided:
  assumes "\<not> pool_pins e" "idle T w0" "schema_ok T" "race_reachable e w0 s"
  shows "decided s"
  using assms(4)
proof (induction rule: race_reachable.induct)
  case start
  then show ?case using assms(2) by (simp add: decided_def winners_def idle_def)
next
  case (step s s')
  have "holds schema_ok w0" using assms(2,3) by (simp add: holds_def idle_def committed_def)
  then have "keys_ok (tabs (fst s))"
    using schema.race_reachable_holds [OF step(1)] by (auto simp: holds_def schema_ok_def)
  then show ?case using decided_step [OF assms(1)] step by (metis prod.collapse)
qed

subsection \<open>Properties\<close>




definition rival :: "string \<Rightarrow> call" where
  "rival k = \<lparr>ca_req = demo_request\<lparr>rq_key := Some k\<rparr>, ca_now = 1793000000000, ca_min = 1793014400000, ca_queue = False\<rparr>"

definition race_world :: "unit world \<times> (call \<times> phase) list" where
  "race_world = (demo_world, map (\<lambda>c. (c, At_Begin)) [rival ''k1'', rival ''k2'', rival ''k3''])"

definition spread_env :: "unit env" where
  "spread_env = demo_env\<lparr>pool_pins := False\<rparr>"

definition answers :: "unit world \<times> (call \<times> phase) list \<Rightarrow> int list" where
  "answers s = concat (map (\<lambda>(c, p). case p of Answered r \<Rightarrow> [res_status r] | _ \<Rightarrow> []) (snd s))"

lemma race_world_reachable: "race_reachable e demo_world (run_schedule e is race_world)"
  unfolding race_world_def by (intro run_schedule_reachable started_reachable)

lemma demo_spread_run:
  "answers (run_schedule spread_env [0, 1, 0, 1, 1, 0, 0, 0, 0, 0, 0, 0] race_world) = [201, 409]"
  by code_simp

text \<open>With a pool of one connection the requests share their transaction: the rollback of the request that
  comes too late undoes what the first has done, which still answers 201; the slot is free again and a third request
  gets it as well. Two requests are told the slot is theirs, and one of them has no booking.\<close>

theorem shared_connection_loses_booking:
  "case run_schedule demo_env ([0, 0, 0, 0, 0, 0, 0] @ [1, 1, 1] @ [0, 0] @ replicate 9 2) race_world of (w, cs) \<Rightarrow>
     answers (w, cs) = [201, 409, 201] \<and> tx w = No_Tx \<and> length (live_on ''s2'' (committed w)) = 1"
  by code_simp




end
