(* ===== verification/Web_Adapter.thy ===== *)
theory Web_Adapter
  imports Contracts Insights
begin

text \<open>
  What the web application puts between its pages and the API: \<^verbatim>\<open>apps/web/src/middleware.ts\<close>,
  \<^verbatim>\<open>apps/web/src/lib/api.ts\<close> and the route \<^verbatim>\<open>apps/web/src/app/api/appointments/route.ts\<close>. Its JSON is untyped,
  so values are \<open>jv\<close>, a member that is not there is \<open>None\<close>, and reading a member of \<open>null\<close> throws.
  Objects have distinct keys. Full Unicode case conversion, the parsing of dates, local time texts and
  \<open>String\<close> of other values than texts, Booleans and whole numbers come from the platform (\<open>web_host\<close>), as do the
  cookie of a name in a request and the message of the error for a body that is no JSON.
\<close>

subsection \<open>JavaScript values\<close>

record web_host =
  to_lower :: "string \<Rightarrow> string"
  date_value :: "jv \<Rightarrow> int option"
  local_time :: "int \<Rightarrow> string"
  other_text :: "jv \<Rightarrow> string"
  json_text :: "jv \<Rightarrow> string"
  parse_error :: string
  request_cookie :: "string \<Rightarrow> string option \<Rightarrow> string option"

type_synonym js = "jv option"

text \<open>On ASCII texts \<open>toLowerCase\<close> maps the letters A to Z.\<close>

definition lower_char :: "char \<Rightarrow> char" where
  "lower_char c = (let n = (of_char c :: nat) in if 65 \<le> n \<and> n \<le> 90 then char_of (n + 32) else c)"

definition lowers_ascii :: "web_host \<Rightarrow> bool" where
  "lowers_ascii H \<longleftrightarrow> (\<forall>s. (\<forall>c \<in> set s. of_char c < (128 :: nat)) \<longrightarrow> to_lower H s = map lower_char s)"

fun js_true :: "js \<Rightarrow> bool" where
  "js_true None = False"
| "js_true (Some JNull) = False"
| "js_true (Some (JBool b)) = b"
| "js_true (Some (JNum r)) = (r \<noteq> 0)"
| "js_true (Some (JStr s)) = (s \<noteq> [])"
| "js_true (Some (JArr _)) = True"
| "js_true (Some (JObj _)) = True"

text \<open>\<open>v.k\<close>, and \<open>v?.k\<close>.\<close>

fun member :: "string \<Rightarrow> js \<Rightarrow> js_error + js" where
  "member k None = Inl Type_Error"
| "member k (Some JNull) = Inl Type_Error"
| "member k (Some (JObj fs)) = Inr (map_of fs k)"
| "member k (Some _) = Inr None"

definition maybe_member :: "string \<Rightarrow> js \<Rightarrow> js_error + js" where
  "maybe_member k v = (if v \<in> {None, Some JNull} then Inr None else member k v)"

text \<open>\<open>a || b || \<dots>\<close>\<close>

fun first_true :: "(js_error + js) list \<Rightarrow> js_error + js" where
  "first_true [] = Inr None"
| "first_true [x] = x"
| "first_true (x # xs) = sbind x (\<lambda>v. if js_true v then Inr v else first_true xs)"

fun js_lower :: "web_host \<Rightarrow> js \<Rightarrow> js_error + string" where
  "js_lower H (Some (JStr s)) = Inr (to_lower H s)"
| "js_lower H _ = Inl Type_Error"

fun js_string :: "'z web_host_scheme \<Rightarrow> js \<Rightarrow> string" where
  "js_string H None = ''undefined''"
| "js_string H (Some (JStr s)) = s"
| "js_string H (Some (JBool b)) = (if b then ''true'' else ''false'')"
| "js_string H (Some (JNum r)) = (if of_int \<lfloor>r\<rfloor> = r \<and> \<bar>\<lfloor>r\<rfloor>\<bar> < 1000000000000000000000 then int_text \<lfloor>r\<rfloor> else other_text H (JNum r))"
| "js_string H (Some v) = other_text H v"

fun js_filter :: "('a \<Rightarrow> 'e + bool) \<Rightarrow> 'a list \<Rightarrow> 'e + 'a list" where
  "js_filter p [] = Inr []"
| "js_filter p (x # xs) = sbind (p x) (\<lambda>b. sbind (js_filter p xs) (\<lambda>ys. Inr (if b then x # ys else ys)))"

fun js_map :: "('a \<Rightarrow> 'e + 'b) \<Rightarrow> 'a list \<Rightarrow> 'e + 'b list" where
  "js_map f [] = Inr []"
| "js_map f (x # xs) = sbind (f x) (\<lambda>y. sbind (js_map f xs) (\<lambda>ys. Inr (y # ys)))"

lemma js_filter_Inr: "js_filter p xs = Inr ys \<Longrightarrow> ys = filter (\<lambda>x. p x = Inr True) xs"
  by (induction xs arbitrary: ys) (auto simp: sbind_Inr_iff)

lemma js_map_Inr: "js_map f xs = Inr ys \<Longrightarrow> list_all2 (\<lambda>x y. f x = Inr y) xs ys"
  by (induction xs arbitrary: ys) (auto simp: sbind_Inr_iff)

subsection \<open>Requests and replies\<close>

text \<open>A reply with the value of its body when the body is JSON. Reading a body does not fail.\<close>

record http =
  ht_status :: int
  ht_body :: string
  ht_json :: "jv option"

record request =
  rq_method :: string
  rq_path :: string
  rq_headers :: "(string \<times> string) list"
  rq_body :: js

definition http_ok :: "http \<Rightarrow> bool" where
  "http_ok r \<longleftrightarrow> 200 \<le> ht_status r \<and> ht_status r \<le> 299"

text \<open>\<open>fetch\<close>: the message of the error it throws, or a reply; what it reaches changes the state.\<close>

type_synonym 's net = "request \<Rightarrow> 's \<Rightarrow> (string + http) \<times> 's"

subsection \<open>The middleware\<close>

datatype routed = Next | Redirect (rd_path: string) (rd_from: string)

definition publicPaths :: "string list" where
  "publicPaths = [''/login'', ''/auth/'', ''/book'', ''/search'']"

definition isPublic :: "string \<Rightarrow> bool" where
  "isPublic pathname = (\<exists>p \<in> set publicPaths. pathname = p \<or> starts_with p pathname)"

text \<open>The pattern \<open>/((?!_next/static|_next/image|favicon.ico|.*\..*).*)\<close> of the paths it runs on.\<close>

fun favicon :: "string \<Rightarrow> bool" where
  "favicon (a # b # c # d # e # f # g # h # r) = ([a, b, c, d, e, f, g] = ''favicon'' \<and> starts_with ''ico'' r)"
| "favicon s = False"

fun matcher :: "string \<Rightarrow> bool" where
  "matcher (c # rest) = (c = CHR ''/'' \<and> \<not> starts_with ''_next/static'' rest \<and> \<not> starts_with ''_next/image'' rest
     \<and> \<not> favicon rest \<and> CHR ''.'' \<notin> set rest)"
| "matcher [] = False"

definition middleware :: "string \<Rightarrow> string option \<Rightarrow> routed" where
  "middleware pathname session =
     (if isPublic pathname then Next
      else if session = None then Redirect ''/login'' pathname else Next)"

definition web_request :: "string \<Rightarrow> string option \<Rightarrow> routed" where
  "web_request pathname session = (if matcher pathname then middleware pathname session else Next)"

subsection \<open>Calling the API\<close>

record fetch_options =
  fo_method :: string
  fo_body :: js
  fo_headers :: "(string \<times> string) list"
  fo_key :: "string option"

definition build_request :: "string \<Rightarrow> fetch_options \<Rightarrow> request" where
  "build_request path opts =
     \<lparr>rq_method = fo_method opts, rq_path = path,
      rq_headers = fo_headers opts @ (case truthy (fo_key opts) of None \<Rightarrow> [] | Some k \<Rightarrow> [(''idempotency-key'', k)])
        @ [(''Content-Type'', ''application/json'')],
      rq_body = fo_body opts\<rparr>"

definition apiFetch :: "'s net \<Rightarrow> string \<Rightarrow> fetch_options \<Rightarrow> 's \<Rightarrow> (string + http) \<times> 's" where
  "apiFetch F path opts s =
     (case F (build_request path opts) s of
        (Inl m, s') \<Rightarrow> (Inl (if m = [] then ''Failed to fetch'' else m), s')
      | (Inr response, s') \<Rightarrow>
          if ht_status response = 401 \<and> path \<noteq> ''/auth/login'' then (Inl ''Authentication required'', s')
          else if \<not> http_ok response then (Inl (''HTTP '' @ int_text (ht_status response) @ '': '' @ ht_body response), s')
          else (Inr response, s'))"

subsection \<open>The appointments route, reading\<close>

definition mapBookingStatus :: "web_host \<Rightarrow> js \<Rightarrow> js_error + string" where
  "mapBookingStatus H st = sbind (js_lower H (if js_true st then st else Some (JStr []))) (\<lambda>s. Inr (
     if s = ''booked'' then ''confirmed''
     else if s = ''completed'' then ''completed''
     else if s = ''cancelled'' then ''cancelled''
     else if s = ''no_show'' then ''completed''
     else s))"

text \<open>\<open>new Date(s + (s.endsWith('Z') ? '' : 'Z'))\<close>; \<open>toISOString\<close> throws on a date that is none.\<close>

definition with_zone :: "string \<Rightarrow> string" where
  "with_zone s = (if s \<noteq> [] \<and> last s = CHR ''Z'' then s else s @ ''Z'')"

definition formatDisplayTime :: "web_host \<Rightarrow> string \<Rightarrow> string" where
  "formatDisplayTime H s = (case date_value H (JStr (with_zone s)) of None \<Rightarrow> ''Invalid Date'' | Some t \<Rightarrow> local_time H t)"

definition formatDisplayDate :: "web_host \<Rightarrow> string \<Rightarrow> js_error + string" where
  "formatDisplayDate H s = (case date_value H (JStr (with_zone s)) of None \<Rightarrow> Inl Range_Error
     | Some t \<Rightarrow> Inr (hd (split_on (CHR ''T'') (toISOString t))))"

definition nested :: "string \<Rightarrow> string \<Rightarrow> js \<Rightarrow> js_error + js" where
  "nested k k' b = sbind (member k b) (maybe_member k')"

definition empty_text :: "js_error + js" where
  "empty_text = Inr (Some (JStr []))"

definition null :: "js_error + js" where
  "null = Inr (Some JNull)"

definition matches_search :: "web_host \<Rightarrow> string \<Rightarrow> jv \<Rightarrow> js_error + bool" where
  "matches_search H q v = (let b = Some v in
     sbind (sbind (first_true [member ''clientName'' b, nested ''client'' ''name'' b, empty_text]) (js_lower H)) (\<lambda>name.
     sbind (sbind (first_true [member ''clientEmail'' b, nested ''client'' ''email'' b, member ''email'' b, empty_text])
       (js_lower H)) (\<lambda>email.
     sbind (sbind (first_true [member ''eventTypeName'' b, nested ''eventType'' ''title'' b, member ''eventType'' b, empty_text])
       (js_lower H)) (\<lambda>eventName.
     Inr (str_includes q name \<or> str_includes q email \<or> str_includes q eventName)))))"

definition matches_status :: "web_host \<Rightarrow> string \<Rightarrow> jv \<Rightarrow> js_error + bool" where
  "matches_status H statusFilter v =
     sbind (member ''status'' (Some v)) (\<lambda>st. sbind (mapBookingStatus H st) (\<lambda>mapped. Inr (mapped = to_lower H statusFilter)))"

record appointment =
  ap_id :: js
  ap_clientName :: js
  ap_clientEmail :: js
  ap_clientAvatar :: js
  ap_eventTypeName :: js
  ap_date :: "string option"
  ap_time :: "string option"
  ap_duration :: js
  ap_status :: string
  ap_location :: js
  ap_notes :: js
  ap_start :: js
  ap_end :: js
  ap_version :: js

definition signed_double :: "rat \<Rightarrow> rat" where
  "signed_double x = (if x < 0 then - double_of (- x) else double_of x)"

text \<open>\<open>b.durationMinutes || (start && b.slot_end_utc ? Math.round(\<dots>) : null) || null\<close>, where a difference with
  a date that is none is \<open>NaN\<close> and counts as false.\<close>

definition duration_of :: "web_host \<Rightarrow> js \<Rightarrow> js \<Rightarrow> js_error + js" where
  "duration_of H b start = first_true [member ''durationMinutes'' b,
     sbind (member ''slot_end_utc'' b) (\<lambda>end_utc.
       case (start, end_utc) of (Some s, Some x) \<Rightarrow>
         if js_true start \<and> js_true end_utc
         then (case (date_value H x, date_value H s) of
             (Some te, Some ts) \<Rightarrow> Inr (Some (JNum (of_int (math_round (signed_double (of_int (te - ts) / 60000))))))
           | _ \<Rightarrow> Inr None)
         else null
       | _ \<Rightarrow> null),
     null]"

definition display :: "(string \<Rightarrow> js_error + string) \<Rightarrow> js \<Rightarrow> js_error + string option" where
  "display f start = (if \<not> js_true start then Inr None
     else case start of Some (JStr s) \<Rightarrow> sbind (f s) (\<lambda>t. Inr (Some t)) | _ \<Rightarrow> Inl Type_Error)"

definition to_appointment :: "web_host \<Rightarrow> jv \<Rightarrow> js_error + appointment" where
  "to_appointment H v = (let b = Some v in
     sbind (first_true [member ''slot_start_utc'' b, member ''slotStartUtc'' b, member ''slot_start'' b, member ''start'' b, null]) (\<lambda>start.
     sbind (first_true [member ''id'' b, member ''booking_id'' b, member ''bookingId'' b, null]) (\<lambda>i.
     sbind (first_true [member ''clientName'' b, nested ''client'' ''name'' b, member ''client'' b, null]) (\<lambda>name.
     sbind (first_true [member ''clientEmail'' b, nested ''client'' ''email'' b, member ''email'' b, null]) (\<lambda>email.
     sbind (first_true [nested ''client'' ''avatarUrl'' b, member ''clientAvatar'' b, null]) (\<lambda>avatar.
     sbind (first_true [member ''eventTypeName'' b, nested ''eventType'' ''title'' b, member ''eventType'' b, null]) (\<lambda>ev.
     sbind (display (formatDisplayDate H) start) (\<lambda>date.
     sbind (display (\<lambda>s. Inr (formatDisplayTime H s)) start) (\<lambda>time.
     sbind (duration_of H b start) (\<lambda>dur.
     sbind (sbind (member ''status'' b) (mapBookingStatus H)) (\<lambda>st.
     sbind (first_true [nested ''eventType'' ''location'' b, member ''location'' b, null]) (\<lambda>loc.
     sbind (first_true [member ''notes'' b, member ''clientNotes'' b, null]) (\<lambda>notes.
     sbind (first_true [member ''slot_end_utc'' b, member ''slotEndUtc'' b, null]) (\<lambda>en.
     sbind (first_true [member ''version'' b, null]) (\<lambda>version.
     Inr \<lparr>ap_id = i, ap_clientName = name, ap_clientEmail = email, ap_clientAvatar = avatar, ap_eventTypeName = ev,
       ap_date = date, ap_time = time, ap_duration = dur, ap_status = st, ap_location = loc, ap_notes = notes,
       ap_start = start, ap_end = en, ap_version = version\<rparr>)))))))))))))))"

datatype adapter_reply =
    Adapter_Error (ae_status: int) (ae_error: string)
  | Appointments "appointment list"
  | Forwarded (fd_status: int) (fd_body: jv)

definition list_appointments :: "web_host \<Rightarrow> string \<Rightarrow> string \<Rightarrow> jv \<Rightarrow> js_error + appointment list" where
  "list_appointments H search statusFilter v =
     (let bookings = (case v of JArr bs \<Rightarrow> bs | _ \<Rightarrow> []) in
      sbind (if search \<noteq> [] then js_filter (matches_search H (to_lower H search)) bookings else Inr bookings) (\<lambda>bs.
      sbind (if statusFilter \<noteq> ''all'' then js_filter (matches_status H statusFilter) bs else Inr bs) (\<lambda>cs.
      js_map (to_appointment H) cs)))"

definition forward_cookie :: "string option \<Rightarrow> (string \<times> string) list" where
  "forward_cookie cookie = (case truthy cookie of None \<Rightarrow> [] | Some c \<Rightarrow> [(''cookie'', c)])"

definition adapter_GET ::
    "web_host \<Rightarrow> 's net \<Rightarrow> string option \<Rightarrow> string option \<Rightarrow> string option \<Rightarrow> 's \<Rightarrow> adapter_reply \<times> 's" where
  "adapter_GET H F cookie search status s =
     (let failed = Adapter_Error 502 ''Unable to load appointments'' in
      case F \<lparr>rq_method = ''GET'', rq_path = ''/appointments'', rq_headers = forward_cookie cookie, rq_body = None\<rparr> s of
        (Inl _, s') \<Rightarrow> (failed, s')
      | (Inr res, s') \<Rightarrow>
          if ht_status res = 401 then (Adapter_Error 401 ''Authentication required'', s')
          else if \<not> http_ok res then (failed, s')
          else (case ht_json res of None \<Rightarrow> (failed, s')
            | Some v \<Rightarrow> (case list_appointments H (or_else search []) (or_else status ''all'') v of
                Inl _ \<Rightarrow> (failed, s')
              | Inr as \<Rightarrow> (Appointments as, s'))))"

subsection \<open>The appointments route, changing\<close>

text \<open>\<open>NextResponse.json\<close> throws for a status that has no body or is none.\<close>

definition json_reply :: "http \<Rightarrow> js_error + adapter_reply" where
  "json_reply res =
     (if ht_status res < 200 \<or> 599 < ht_status res then Inl Range_Error
      else if ht_status res \<in> {204, 205, 304} then Inl Type_Error
      else Inr (Forwarded (ht_status res) (case ht_json res of Some v \<Rightarrow> v
        | None \<Rightarrow> JObj [(''status'', JNum (of_int (ht_status res)))])))"

text \<open>The keys whose value is not \<open>undefined\<close>: what \<open>JSON.stringify\<close> writes.\<close>

definition written :: "(string \<times> js) list \<Rightarrow> jv" where
  "written fs = JObj (concat (map (\<lambda>(k, v). case v of None \<Rightarrow> [] | Some x \<Rightarrow> [(k, x)]) fs))"

definition json_header :: "(string \<times> string) list" where
  "json_header = [(''Content-Type'', ''application/json'')]"

text \<open>The request an action is turned into; \<open>body.ifMatch ?? body.version\<close>.\<close>

definition forwarded :: "web_host \<Rightarrow> string option \<Rightarrow> string \<Rightarrow> string \<Rightarrow> jv \<Rightarrow> js_error + request option" where
  "forwarded H cookie i action body = (let b = Some body; path = ''/bookings/'' @ i;
     post = (\<lambda>act hs bd. Inr (Some \<lparr>rq_method = ''POST'', rq_path = path @ act,
       rq_headers = forward_cookie cookie @ json_header @ hs, rq_body = bd\<rparr>)) in
     if action = ''confirm'' then post ''/confirm'' [] None
     else if action = ''decline'' then post ''/decline'' [] None
     else if action = ''cancel'' then
       sbind (first_true [member ''ifMatch'' b, member ''version'' b, Inr (Some (JNum 1))]) (\<lambda>m.
         post ''/cancel'' [(''if-match'', js_string H m)] None)
     else if action = ''reschedule'' then
       sbind (member ''newSlotId'' b) (\<lambda>n. sbind (member ''idempotencyKey'' b) (\<lambda>k.
       sbind (member ''version'' b) (\<lambda>v. sbind (member ''ifMatch'' b) (\<lambda>m.
       sbind (member ''cancellationWindowHours'' b) (\<lambda>h.
         post ''/reschedule'' [] (Some (written [(''newSlotId'', n), (''idempotencyKey'', k), (''version'', v),
           (''ifMatch'', if m \<in> {None, Some JNull} then v else m), (''cancellationWindowHours'', h)])))))))
     else Inr None)"

definition last_segment :: "string \<Rightarrow> string option" where
  "last_segment pathname = (case filter (\<lambda>s. s \<noteq> []) (split_on (CHR ''/'') pathname) of [] \<Rightarrow> None | ss \<Rightarrow> Some (last ss))"

definition adapter_PATCH ::
    "web_host \<Rightarrow> 's net \<Rightarrow> string option \<Rightarrow> string \<Rightarrow> jv option \<Rightarrow> 's \<Rightarrow> adapter_reply \<times> 's" where
  "adapter_PATCH H F cookie pathname body s =
     (let broken = Adapter_Error 502 ''Adapter mutation failed'' in
      case body of None \<Rightarrow> (broken, s)
      | Some b \<Rightarrow> (case maybe_member ''action'' (Some b) of Inl _ \<Rightarrow> (broken, s)
        | Inr action \<Rightarrow>
            if last_segment pathname = None \<or> \<not> js_true action then (Adapter_Error 400 ''Missing id or action'', s)
            else (case (case action of Some (JStr a) \<Rightarrow> forwarded H cookie (the (last_segment pathname)) a b | _ \<Rightarrow> Inr None) of
                Inl _ \<Rightarrow> (broken, s)
              | Inr None \<Rightarrow> (Adapter_Error 400 ''Unknown action'', s)
              | Inr (Some req) \<Rightarrow> (case F req s of (Inl _, s') \<Rightarrow> (broken, s')
                  | (Inr res, s') \<Rightarrow> (case json_reply res of Inl _ \<Rightarrow> (broken, s') | Inr r \<Rightarrow> (r, s'))))))"


subsection \<open>A concrete platform\<close>

text \<open>It reads the texts \<open>toISOString\<close> writes for the slots of the sample tables, and nothing else.\<close>

definition demo_web :: web_host where
  "demo_web = \<lparr>to_lower = map lower_char,
     date_value = (\<lambda>v. map_of [(JStr ''2026-11-01T16:00:00.000Z'', 1793548800000), (JStr ''2026-11-02T16:00:00.000Z'', 1793635200000)] v),
     local_time = (\<lambda>_. ''4:00 PM''), other_text = (\<lambda>_. ''[object Object]''), json_text = (\<lambda>_. ''{}''),
     parse_error = ''Unexpected token'', request_cookie = (\<lambda>name header. session_match (name @ ''='') (or_else header []))\<rparr>"

lemma demo_web_lowers: "lowers_ascii demo_web"
  by (simp add: lowers_ascii_def demo_web_def)

end
