(* ===== verification/Directory.thy ===== *)
theory Directory
  imports Web_Adapter
begin

text \<open>
  The remaining resources of the API: \<^verbatim>\<open>providers/providers.controller.ts\<close>, \<^verbatim>\<open>search\<close>, \<^verbatim>\<open>availability\<close>,
  \<^verbatim>\<open>appointments\<close>, \<^verbatim>\<open>slots\<close>, \<^verbatim>\<open>clients\<close> and \<^verbatim>\<open>event-types\<close> under \<^verbatim>\<open>apps/api/src\<close>, and the availability
  controller of \<^verbatim>\<open>apps/web/apps/api\<close>. The profile columns of providers and the uploaded files are a
  store of their own; \<open>Number\<close> of arbitrary values and the zone names come from the platform.
\<close>

subsection \<open>Profiles of providers\<close>

record profile_row =
  pf_id :: string
  pf_name :: string
  pf_slug :: string
  pf_tz :: string
  pf_window :: int
  pf_notice :: int
  pf_avatar :: "string option"
  pf_created :: int
  pf_updated :: int

record directory =
  profiles :: "profile_row list"
  uploads :: "(string \<times> string) list"

type_synonym 'a dir = "(directory, 'a) prog"

record directory_host = web_host +
  number_value :: "jv \<Rightarrow> rat option"
  valid_zone :: "string \<Rightarrow> bool"

text \<open>A statement on the profiles at a time; a failing one changes nothing.\<close>

definition dir_run :: "(int \<Rightarrow> directory \<Rightarrow> exn + 'a \<times> directory) \<Rightarrow> 'a dir" where
  "dir_run f e w =
     (case fault e (tick w) of Some x \<Rightarrow> (Inl x, bump w)
      | None \<Rightarrow> (case f (clock_ms e (tick w)) (queue w) of Inl x \<Rightarrow> (Inl x, bump w)
        | Inr (a, s) \<Rightarrow> (Inr a, (bump w)\<lparr>queue := s\<rparr>)))"

definition not_found :: "string \<Rightarrow> exn" where "not_found m = Http_Exception 404 m"

definition bad_request :: "string \<Rightarrow> exn" where "bad_request m = Http_Exception 400 m"

definition profiles_by_id :: "string \<Rightarrow> directory \<Rightarrow> profile_row list" where
  "profiles_by_id p d = filter (\<lambda>r. pf_id r = p) (profiles d)"

definition lift_js :: "js_error + 'a \<Rightarrow> ('q, 'a) prog" where
  "lift_js r = (case r of Inl _ \<Rightarrow> raise (Js_Error ''Cannot read properties of undefined'') | Inr a \<Rightarrow> ret a)"

text \<open>A row of the driver: values by column name. An alias that is not quoted is folded to lower case.\<close>

definition folded :: "string \<Rightarrow> string" where
  "folded k = map lower_char k"

definition num :: "int \<Rightarrow> jv" where "num n = JNum (of_int n)"

definition text_or_null :: "string option \<Rightarrow> jv" where
  "text_or_null x = (case x of None \<Rightarrow> JNull | Some s \<Rightarrow> JStr s)"

record profile_view =
  pv_id :: js
  pv_name :: js
  pv_slug :: js
  pv_timezone :: js
  pv_cancellationWindowHours :: js
  pv_minimumBookingNotice :: js
  pv_avatarUrl :: js
  pv_createdAt :: js
  pv_updatedAt :: js

definition me_row :: "profile_row \<Rightarrow> (string \<times> jv) list" where
  "me_row r = [(''id'', JStr (pf_id r)), (''name'', JStr (pf_name r)), (''slug'', JStr (pf_slug r)),
     (''timezone'', JStr (pf_tz r)), (''cancellation_window_hours'', num (pf_window r)),
     (''minimum_booking_notice'', num (pf_notice r)), (''avatar_url'', text_or_null (pf_avatar r)),
     (''created_at'', num (pf_created r)), (''updated_at'', num (pf_updated r))]"

definition getMe :: "string \<Rightarrow> profile_view dir" where
  "getMe providerId =
     bind (dir_run (\<lambda>_ d. Inr (profiles_by_id providerId d, d))) (\<lambda>res. case res of
       [] \<Rightarrow> raise (not_found ''Provider not found'')
     | r # _ \<Rightarrow> (let row = map_of (me_row r) in
         ret \<lparr>pv_id = row ''id'', pv_name = row ''name'', pv_slug = row ''slug'', pv_timezone = row ''timezone'',
           pv_cancellationWindowHours = row ''cancellation_window_hours'',
           pv_minimumBookingNotice = row ''minimum_booking_notice'', pv_avatarUrl = row ''avatar_url'',
           pv_createdAt = row ''created_at'', pv_updatedAt = row ''updated_at''\<rparr>))"

text \<open>\<open>COALESCE($n, column)\<close> with the parameter \<open>x || null\<close>; the driver sends other values as text.\<close>

definition coalesce :: "'z web_host_scheme \<Rightarrow> js \<Rightarrow> string \<Rightarrow> string" where
  "coalesce H x old = (if js_true x then js_string H x else old)"

record profile_update =
  pu_name :: js
  pu_slug :: js
  pu_timezone :: js
  pu_notice :: "int option"

definition updated_profile :: "'z web_host_scheme \<Rightarrow> profile_update \<Rightarrow> int \<Rightarrow> profile_row \<Rightarrow> profile_row" where
  "updated_profile H u n r = r\<lparr>pf_name := coalesce H (pu_name u) (pf_name r), pf_slug := coalesce H (pu_slug u) (pf_slug r),
     pf_tz := coalesce H (pu_timezone u) (pf_tz r),
     pf_notice := (case pu_notice u of None \<Rightarrow> pf_notice r | Some k \<Rightarrow> k), pf_updated := n\<rparr>"

text \<open>The update of one's own row; the slug is unique.\<close>

definition update_profile :: "'z web_host_scheme \<Rightarrow> string \<Rightarrow> profile_update \<Rightarrow> int \<Rightarrow> directory \<Rightarrow> exn + profile_row list \<times> directory" where
  "update_profile H p u n d =
     (let rows = upd_where (\<lambda>r. pf_id r = p) (updated_profile H u n) (profiles d) in
      if \<not> distinct (map pf_slug rows) then Inl unique_violation
      else Inr (filter (\<lambda>r. pf_id r = p) rows, d\<lparr>profiles := rows\<rparr>))"

definition updated_row :: "profile_row \<Rightarrow> (string \<times> jv) list" where
  "updated_row r = [(''id'', JStr (pf_id r)), (''name'', JStr (pf_name r)), (''slug'', JStr (pf_slug r)),
     (''timezone'', JStr (pf_tz r)), (folded ''cancellationWindowHours'', num (pf_window r)),
     (folded ''minimumBookingNotice'', num (pf_notice r)), (folded ''avatarUrl'', text_or_null (pf_avatar r)),
     (''created_at'', num (pf_created r)), (''updated_at'', num (pf_updated r))]"

definition notice_number :: "directory_host \<Rightarrow> jv \<Rightarrow> int option" where
  "notice_number H v = (case number_value H v of None \<Rightarrow> None
     | Some x \<Rightarrow> if x = 4 then Some 4 else if x = 24 then Some 24 else if x = 48 then Some 48 else None)"

definition updateMe :: "directory_host \<Rightarrow> string \<Rightarrow> jv \<Rightarrow> profile_view dir" where
  "updateMe H providerId body = (let b = Some body in
     bind (lift_js (member ''minimumBookingNotice'' b)) (\<lambda>notice.
     bind (lift_js (member ''timezone'' b)) (\<lambda>tz.
     bind (lift_js (member ''name'' b)) (\<lambda>name.
     bind (lift_js (member ''slug'' b)) (\<lambda>slug.
     if notice \<noteq> None \<and> notice_number H (the notice) = None then raise (bad_request ''Invalid minimumBookingNotice'')
     else if tz \<noteq> None \<and> \<not> valid_zone H (js_string H tz) then raise (bad_request ''Invalid timezone identifier'')
     else bind (dir_run (update_profile H providerId
         \<lparr>pu_name = name, pu_slug = slug, pu_timezone = tz,
          pu_notice = (case notice of None \<Rightarrow> None | Some v \<Rightarrow> notice_number H v)\<rparr>)) (\<lambda>res. case res of
       [] \<Rightarrow> raise (not_found ''Provider not found'')
     | r # _ \<Rightarrow> (let row = map_of (updated_row r) in
         ret \<lparr>pv_id = row ''id'', pv_name = row ''name'', pv_slug = row ''slug'', pv_timezone = row ''timezone'',
           pv_cancellationWindowHours = row ''cancellationWindowHours'',
           pv_minimumBookingNotice = row ''minimumBookingNotice'', pv_avatarUrl = row ''avatarUrl'',
           pv_createdAt = row ''created_at'', pv_updatedAt = row ''updated_at''\<rparr>)))))))"

subsection \<open>Avatars\<close>

text \<open>\<open>path.basename(fileName).replace(/[^a-zA-Z0-9_.-]/g, '')\<close>\<close>

definition basename :: "string \<Rightarrow> string" where
  "basename s = (case filter (\<lambda>x. x \<noteq> []) (split_on (CHR ''/'') s) of [] \<Rightarrow> [] | ss \<Rightarrow> last ss)"

definition name_char :: "char \<Rightarrow> bool" where
  "name_char ch = (ch \<in> set ''_.-'' \<or>
     list_ex (\<lambda>(first, last). first \<le> ch \<and> ch \<le> last)
       (zip ''aA0'' ''zZ9''))"

definition safe_name :: "string \<Rightarrow> string" where
  "safe_name fileName = filter name_char (basename fileName)"

text \<open>\<open>path.join(dir, name)\<close> of a name without slashes.\<close>

definition join_upload :: "string \<Rightarrow> string option" where
  "join_upload name = (if name \<in> {[], ''.'', ''..''} then None else Some name)"

record avatar_body =
  av_file :: "string option"
  av_data :: "string option"

text \<open>Writing to the upload directory itself, or its parent, is an error.\<close>

definition write_upload :: "string \<Rightarrow> string \<Rightarrow> directory \<Rightarrow> exn + unit \<times> directory" where
  "write_upload name bytes d = (case join_upload name of
       None \<Rightarrow> Inl (Js_Error ''EISDIR: illegal operation on a directory'')
     | Some f \<Rightarrow> Inr ((), d\<lparr>uploads := (f, bytes) # filter (\<lambda>(g, _). g \<noteq> f) (uploads d)\<rparr>))"

definition set_avatar :: "string \<Rightarrow> string \<Rightarrow> int \<Rightarrow> directory \<Rightarrow> exn + profile_row list \<times> directory" where
  "set_avatar p url n d =
     (let rows = upd_where (\<lambda>r. pf_id r = p) (\<lambda>r. r\<lparr>pf_avatar := Some url, pf_updated := n\<rparr>) (profiles d) in
      Inr (filter (\<lambda>r. pf_id r = p) rows, d\<lparr>profiles := rows\<rparr>))"

definition uploadAvatar :: "string \<Rightarrow> avatar_body \<Rightarrow> (string \<times> profile_row) dir" where
  "uploadAvatar providerId body =
     (let fileName = or_else (av_file body) (''avatar-'' @ providerId @ ''.png'');
          safeName = safe_name fileName; url = ''/uploads/'' @ safeName in
      bind (case truthy (av_data body) of None \<Rightarrow> ret ()
        | Some bytes \<Rightarrow> dir_run (\<lambda>_. write_upload safeName (from_base64url bytes))) (\<lambda>_.
      bind (dir_run (set_avatar providerId url)) (\<lambda>res. case res of
        [] \<Rightarrow> raise (not_found ''Provider not found'')
      | r # _ \<Rightarrow> ret (url, r))))"

definition getProvider :: "string \<Rightarrow> profile_row dir" where
  "getProvider i = bind (dir_run (\<lambda>_ d. Inr (profiles_by_id i d, d))) (\<lambda>res. case res of
     [] \<Rightarrow> raise (not_found ''Not Found'') | r # _ \<Rightarrow> ret r)"

subsection \<open>Searching\<close>

text \<open>The fields of the models in \<^verbatim>\<open>prisma/schema.prisma\<close>; the database client refuses a query on another field.\<close>

definition client_fields :: "string list" where
  "client_fields = [''id'', ''email'', ''name'', ''company'', ''phone'', ''avatarUrl'', ''remindersOptOut'',
     ''createdAt'', ''updatedAt'', ''bookings'']"

definition event_type_fields :: "string list" where
  "event_type_fields = [''id'', ''providerId'', ''provider'', ''title'', ''durationMinutes'', ''price'', ''location'',
     ''slug'', ''description'', ''active'', ''createdAt'', ''updatedAt'', ''bookings'']"

definition find_by :: "string list \<Rightarrow> string \<Rightarrow> (tables \<Rightarrow> 'a list) \<Rightarrow> ('q, 'a list) prog" where
  "find_by model k f = (if k \<in> set model then query Pool (sel f) else raise (Js_Error (''Unknown argument '' @ k)))"

record search_result =
  sr_clients :: "(string \<times> string \<times> string \<times> string) list"
  sr_eventTypes :: "(string \<times> string \<times> string) list"
  sr_total :: nat
  sr_query :: string

definition has_term :: "web_host \<Rightarrow> string \<Rightarrow> string \<Rightarrow> bool" where
  "has_term H term s \<longleftrightarrow> s \<noteq> [] \<and> str_includes term (to_lower H s)"

definition searchProviderData :: "web_host \<Rightarrow> string \<Rightarrow> string \<Rightarrow> ('q, search_result) prog" where
  "searchProviderData H providerId q = (let term = to_lower H (trim q) in
     bind (find_by client_fields ''providerId'' clients) (\<lambda>cs.
     let found = take 10 (filter (\<lambda>c. has_term H term (c_name c) \<or> has_term H term (c_email c)
       \<or> has_term H term (c_company c)) cs) in
     bind (find_by event_type_fields ''providerId'' (\<lambda>t. filter (\<lambda>e. e_provider e = providerId) (event_types t))) (\<lambda>es.
     let types = take 10 (filter (\<lambda>e. has_term H term (e_title e) \<or> has_term H term (e_slug e)) es) in
     ret \<lparr>sr_clients = map (\<lambda>c. (c_id c, c_name c, c_email c, c_company c)) found,
       sr_eventTypes = map (\<lambda>e. (e_id e, if e_title e \<noteq> [] then e_title e else e_slug e, e_slug e)) types,
       sr_total = length found + length types, sr_query = q\<rparr>)))"

definition search_route :: "crypto \<Rightarrow> web_host \<Rightarrow> string option \<Rightarrow> string option \<Rightarrow> search_result auth" where
  "search_route K H cookie q = as_provider K cookie (\<lambda>p. case truthy q of
       None \<Rightarrow> ret \<lparr>sr_clients = [], sr_eventTypes = [], sr_total = 0, sr_query = []\<rparr>
     | Some t \<Rightarrow> searchProviderData H p t)"

subsection \<open>Availability\<close>

record availability =
  av_provider :: provider_row
  av_slots :: "slot_row list"

definition open_slots :: "(slot_row \<Rightarrow> bool) \<Rightarrow> tables \<Rightarrow> slot_row list" where
  "open_slots p t = sort_key s_start (filter (\<lambda>s. s_status s = Open \<and> p s) (slots t))"

definition getAvailability :: "string \<Rightarrow> string option \<Rightarrow> (tables \<Rightarrow> rule_row list) \<Rightarrow> ('q, availability \<times> rule_row list) prog" where
  "getAvailability i tz rules =
     bind (query Pool (sel (providers_by_id i))) (\<lambda>res. case res of
       [] \<Rightarrow> raise (not_found ''Provider not found'')
     | p # _ \<Rightarrow> (let displayTz = or_else tz (or_else (Some (p_tz p)) ''UTC'') in
         bind (query Pool (sel (\<lambda>t. filter (\<lambda>r. ru_provider r = i \<and> ru_active r) (rules t)))) (\<lambda>rs.
         bind (query Pool (sel (open_slots (\<lambda>s. s_provider s = i)))) (\<lambda>ss.
           ret (\<lparr>av_provider = p, av_slots = map (\<lambda>s. s\<lparr>s_tz := displayTz\<rparr>) ss\<rparr>, rs)))))"

text \<open>The availability controller beside the web application: the open slots of a day in UTC, less its last
  second; a text that is no date makes the database refuse the query.\<close>

record day_slots =
  ds_provider :: "string option"
  ds_date :: string
  ds_slots :: "slot_row list"

definition web_availability :: "web_host \<Rightarrow> string option \<Rightarrow> string option \<Rightarrow> ('q, day_slots) prog" where
  "web_availability H providerId date =
     bind now (\<lambda>n.
     let day = or_else date (day_text n) in
     case (date_value H (JStr (day @ ''T00:00:00Z'')), date_value H (JStr (day @ ''T23:59:59Z''))) of
       (Some a, Some z) \<Rightarrow>
         bind (query Pool (sel (open_slots (\<lambda>s. a \<le> s_start s \<and> s_start s < z
           \<and> (case truthy providerId of None \<Rightarrow> True | Some p \<Rightarrow> s_provider s = p))))) (\<lambda>ss.
         ret \<lparr>ds_provider = truthy providerId, ds_date = day, ds_slots = ss\<rparr>)
     | _ \<Rightarrow> raise (Pg_Error ''22007'' ''invalid input syntax for type timestamp with time zone''))"

subsection \<open>Lists\<close>

text \<open>The appointments of everybody: the route has no guard.\<close>

record listed =
  ls_id :: string
  ls_status :: booking_status
  ls_version :: int
  ls_start :: "int option"
  ls_client :: "string option"

definition listed_of :: "tables \<Rightarrow> booking_row \<Rightarrow> listed" where
  "listed_of t b = \<lparr>ls_id = b_id b, ls_status = b_status b, ls_version = b_version b,
     ls_start = map_option s_start (first_where (\<lambda>s. s_id s = b_slot b) (slots t)),
     ls_client = (case first_where (\<lambda>c. c_id c = b_client b) (clients t) of None \<Rightarrow> None
       | Some c \<Rightarrow> Some (if c_name c \<noteq> [] then c_name c else c_email c))\<rparr>"

text \<open>\<open>status\<close> is a value of the enumeration or the client refuses; pages of 50, a negative \<open>skip\<close> is refused too.\<close>

definition appointments_list :: "string option \<Rightarrow> string option \<Rightarrow> ('q, listed list) prog" where
  "appointments_list status page =
     (let wanted = (case truthy status of None \<Rightarrow> Inr None
          | Some s \<Rightarrow> (case booking_status_of s of None \<Rightarrow> Inl () | Some st \<Rightarrow> Inr (Some st)));
          skip = (case truthy page of None \<Rightarrow> Some 0 | Some s \<Rightarrow> map_option (\<lambda>n. (n - 1) * 50) (js_parse_int s)) in
      case (wanted, skip) of
        (Inr w, Some k) \<Rightarrow>
          if k < 0 then raise (Js_Error ''Invalid value for skip argument'')
          else query Pool (sel (\<lambda>t. map (listed_of t) (take 50 (drop (nat k) (sort_key (\<lambda>b. - b_created b)
            (filter (\<lambda>b. w = None \<or> w = Some (b_status b)) (bookings t)))))))
      | _ \<Rightarrow> raise (Js_Error ''Invalid value for argument''))"

definition appointments_get :: "string \<Rightarrow> ('q, (booking_row \<times> slot_row list \<times> client_row list) option) prog" where
  "appointments_get i = bind (query Pool (sel (bookings_by_id i))) (\<lambda>res. case res of [] \<Rightarrow> ret None
     | b # _ \<Rightarrow> bind (query Pool (sel (slots_by_id (b_slot b)))) (\<lambda>ss.
         bind (query Pool (sel (clients_by_id (b_client b)))) (\<lambda>cs. ret (Some (b, ss, cs)))))"

definition slots_findAll :: "('q, slot_row list) prog" where
  "slots_findAll = query Pool (sel (\<lambda>t. sort_key s_start (slots t)))"

text \<open>\<open>orderBy: { createdAt: 'desc' }\<close>; the rows stand in the order of their creation.\<close>

definition clients_findAll :: "('q, client_row list) prog" where
  "clients_findAll = query Pool (sel (\<lambda>t. rev (clients t)))"

definition event_types_findAll :: "('q, event_type_row list) prog" where
  "event_types_findAll = query Pool (sel (\<lambda>t. rev (event_types t)))"

subsection \<open>Searching fails\<close>

lemma wp_top: "wp m (\<lambda>_ _. True) (\<lambda>_ _. True) e w"
  by (simp add: wp_def split: prod.splits sum.splits)

lemma wp_as_provider_raises:
  assumes "\<And>p w. wp (f p) (\<lambda>_ _. False) (\<lambda>_ _. True) e w"
  shows "wp (as_provider K cookie f) (\<lambda>_ _. False) (\<lambda>_ _. True) e w"
  unfolding as_provider_def wp_bind by (rule wp_mono [OF wp_top]) (simp_all add: assms)

lemma wp_search_raises:
  assumes "q \<noteq> []"
  shows "wp (search_route K H cookie (Some q)) (\<lambda>_ _. False) (\<lambda>_ _. True) e w"
  unfolding search_route_def using assms
  by (intro wp_as_provider_raises) (simp add: searchProviderData_def find_by_def client_fields_def Let_def)

text \<open>Searching for a text never gives a result: the query for clients names a field their model does not
  have, so every request with a text ends in an exception, whoever asks and whatever the tables hold.\<close>

theorem search_always_fails:
  "q \<noteq> [] \<Longrightarrow> \<exists>x. fst (search_route K H cookie (Some q) e w) = Inl x"
  using wp_search_raises [of q K H cookie e w] by (auto simp: wp_def split: prod.splits sum.splits)

theorem search_always_fails_witness:
  "\<exists>x. fst (search_route demo_crypto demo_web (Some (header_of demo_cookie)) (Some ''ada'') (auth_env_at 2000) after_login) = Inl x"
  by (rule search_always_fails) simp

subsection \<open>Profiles\<close>

definition notices_ok :: "directory \<Rightarrow> bool" where
  "notices_ok d \<longleftrightarrow> (\<forall>r \<in> set (profiles d). pf_notice r \<in> {4, 24, 48})"

definition slugs_ok :: "directory \<Rightarrow> bool" where
  "slugs_ok d \<longleftrightarrow> distinct (map pf_slug (profiles d))"

text \<open>Other providers' rows are as they were.\<close>

definition others_kept :: "string \<Rightarrow> directory \<Rightarrow> directory \<Rightarrow> bool" where
  "others_kept p d d' \<longleftrightarrow> filter (\<lambda>r. pf_id r \<noteq> p) (profiles d') = filter (\<lambda>r. pf_id r \<noteq> p) (profiles d)
     \<and> map pf_id (profiles d') = map pf_id (profiles d)"

lemma notice_number_in: "notice_number H v = Some n \<Longrightarrow> n \<in> {4, 24, 48}"
  by (auto simp: notice_number_def split: option.splits if_splits)

lemma update_profile_ok:
  assumes "update_profile H p u n d = Inr (rs, d')" "notices_ok d" "\<And>k. pu_notice u = Some k \<Longrightarrow> k \<in> {4, 24, 48}"
  shows "notices_ok d' \<and> slugs_ok d' \<and> others_kept p d d' \<and> uploads d' = uploads d"
proof -
  let ?rows = "upd_where (\<lambda>r. pf_id r = p) (updated_profile H u n) (profiles d)"
  have d': "d' = d\<lparr>profiles := ?rows\<rparr>" "distinct (map pf_slug ?rows)"
    using assms(1) by (auto simp: update_profile_def Let_def split: if_splits)
  have "pf_id (updated_profile H u n r) = pf_id r" for r by (simp add: updated_profile_def)
  then have "others_kept p d d'"
    unfolding others_kept_def d'(1) by (simp add: map_upd_where filter_upd_where_unaffected)
  moreover have "notices_ok d'"
    using assms(2,3) unfolding notices_ok_def d'(1)
    by (auto elim!: in_upd_whereE simp: updated_profile_def split: option.splits)
  ultimately show ?thesis using d' by (simp add: slugs_ok_def)
qed

lemma wp_dir_run:
  assumes "\<And>x w'. queue w' = queue w \<Longrightarrow> E x w'"
    and "\<And>n a d w'. f n (queue w) = Inr (a, d) \<Longrightarrow> queue w' = d \<Longrightarrow> Q a w'"
  shows "wp (dir_run f) Q E e w"
  using assms by (auto simp: wp_def dir_run_def split: option.splits sum.splits)


definition profile_outcome :: "string \<Rightarrow> directory \<Rightarrow> directory \<Rightarrow> bool" where
  "profile_outcome p d d' \<longleftrightarrow> notices_ok d' \<and> slugs_ok d' \<and> others_kept p d d' \<and> uploads d' = uploads d"

lemma wp_lift_js: "wp (lift_js r) Q E e w \<longleftrightarrow> (case r of Inl _ \<Rightarrow> E (Js_Error ''Cannot read properties of undefined'') w | Inr a \<Rightarrow> Q a w)"
  by (simp add: lift_js_def split: sum.split)

lemma profile_outcome_refl: "notices_ok d \<Longrightarrow> slugs_ok d \<Longrightarrow> profile_outcome p d d"
  by (simp add: profile_outcome_def others_kept_def)

lemma folded_names: "folded ''cancellationWindowHours'' = ''cancellationwindowhours''"
  "folded ''minimumBookingNotice'' = ''minimumbookingnotice''" "folded ''avatarUrl'' = ''avatarurl''"
  by code_simp+

lemma updated_row_names: "map_of (updated_row r) ''minimumBookingNotice'' = None"
  "map_of (updated_row r) ''cancellationWindowHours'' = None" "map_of (updated_row r) ''avatarUrl'' = None"
  by (simp_all add: updated_row_def folded_names)

lemma wp_updateMe:
  assumes "notices_ok (queue w)" "slugs_ok (queue w)"
  shows "wp (updateMe H p body)
     (\<lambda>v w'. profile_outcome p (queue w) (queue w') \<and> pv_minimumBookingNotice v = None
        \<and> pv_cancellationWindowHours v = None \<and> pv_avatarUrl v = None)
     (\<lambda>_ w'. profile_outcome p (queue w) (queue w')) e w"
proof -
  let ?E = "\<lambda>_ w'. profile_outcome p (queue w) (queue w')"
  let ?Q = "\<lambda>v w'. profile_outcome p (queue w) (queue w') \<and> pv_minimumBookingNotice v = None
        \<and> pv_cancellationWindowHours v = None \<and> pv_avatarUrl v = None"
  have same: "profile_outcome p (queue w) (queue w)" using assms by (rule profile_outcome_refl)
  have upd: "wp (dir_run (update_profile H p u)) (\<lambda>_. ?E ()) ?E e w" if "\<And>k. pu_notice u = Some k \<Longrightarrow> k \<in> {4, 24, 48}" for u
  proof (rule wp_dir_run)
    fix n a d w'
    assume run: "update_profile H p u n (queue w) = Inr (a, d)" and q: "queue w' = d"
    show "profile_outcome p (queue w) (queue w')"
      using update_profile_ok [OF run assms(1) that] by (simp add: q profile_outcome_def)
  qed (simp add: same)
  have reply: "wp (case res of [] \<Rightarrow> raise (not_found ''Provider not found'')
     | r # _ \<Rightarrow> (let row = map_of (updated_row r) in
         ret \<lparr>pv_id = row ''id'', pv_name = row ''name'', pv_slug = row ''slug'', pv_timezone = row ''timezone'',
           pv_cancellationWindowHours = row ''cancellationWindowHours'',
           pv_minimumBookingNotice = row ''minimumBookingNotice'', pv_avatarUrl = row ''avatarUrl'',
           pv_createdAt = row ''created_at'', pv_updatedAt = row ''updated_at''\<rparr>)) ?Q ?E e w'"
    if "profile_outcome p (queue w) (queue w')" for res w'
    using that by (simp add: Let_def updated_row_names split: list.split)
  show ?thesis
    unfolding updateMe_def Let_def
    by (auto simp: wp_lift_js same split: sum.split intro!: wp_mono [OF upd] reply [unfolded Let_def]
        dest: notice_number_in split: option.splits if_splits)
qed


definition demo_profile :: "string \<Rightarrow> profile_row" where
  "demo_profile i = \<lparr>pf_id = i, pf_name = ''Ada'', pf_slug = i, pf_tz = ''UTC'', pf_window = 24, pf_notice = 4,
     pf_avatar = None, pf_created = 0, pf_updated = 0\<rparr>"

definition demo_directory :: "directory world" where
  "demo_directory = \<lparr>tabs = demo_tables, tx = No_Tx, tick = 0, leased = [],
     queue = \<lparr>profiles = [demo_profile ''p1'', demo_profile ''p2''], uploads = []\<rparr>\<rparr>"

definition demo_directory_env :: "directory env" where
  "demo_directory_env = \<lparr>fault = (\<lambda>_. None), lands = (\<lambda>_. False), clock_ms = (\<lambda>_. 5),
     fresh = (\<lambda>n. replicate (Suc n) (CHR ''x'')), pool_pins = True, driver_dates = True,
     double_release = None, range_text = [], queue_add = (\<lambda>_ _ _ q. Inr q), queue_get = (\<lambda>_ _. Inr False),
     queue_remove = (\<lambda>_ q. Inr q)\<rparr>"

definition demo_directory_host :: directory_host where
  "demo_directory_host = web_host.extend demo_web
     (directory_host.fields (\<lambda>v. case v of JNum r \<Rightarrow> Some r | _ \<Rightarrow> None) (\<lambda>z. z = ''UTC''))"

definition notice_body :: jv where
  "notice_body = JObj [(''minimumBookingNotice'', JNum 48), (''timezone'', JStr ''UTC'')]"

lemma demo_update_run:
  "case updateMe demo_directory_host ''p1'' notice_body demo_directory_env demo_directory of (r, w') \<Rightarrow>
     (\<exists>v. r = Inr v \<and> pv_id v = Some (JStr ''p1'')) \<and> map pf_notice (profiles (queue w')) = [48, 4]"
  by (simp add: updateMe_def notice_body_def lift_js_def prog_simps dir_run_def demo_directory_env_def demo_directory_def
      demo_directory_host_def directory_host.defs web_host.defs notice_number_def update_profile_def updated_profile_def
      demo_profile_def upd_where_def coalesce_def updated_row_def Let_def)


subsection \<open>Uploads\<close>

definition uploads_ok :: "directory \<Rightarrow> bool" where
  "uploads_ok d \<longleftrightarrow> (\<forall>(f, _) \<in> set (uploads d). f \<notin> {[], ''.'', ''..''} \<and> list_all name_char f)"

lemma name_char_slash: "\<not> name_char (CHR ''/'')"
  by code_simp

lemma name_char_no_slash: "list_all name_char f \<Longrightarrow> CHR ''/'' \<notin> set f"
  using name_char_slash by (auto simp: list_all_iff)

lemma safe_name_chars: "list_all name_char (safe_name s)"
  by (auto simp: safe_name_def list_all_iff)

lemma wp_uploadAvatar:
  assumes "uploads_ok (queue w)"
  shows "wp (uploadAvatar p body) (\<lambda>_ w'. uploads_ok (queue w') \<and> others_kept p (queue w) (queue w'))
     (\<lambda>_ w'. uploads_ok (queue w') \<and> others_kept p (queue w) (queue w')) e w"
proof -
  let ?R = "\<lambda>d. uploads_ok d \<and> profiles d = profiles (queue w)"
  have refl: "?R (queue w)" using assms by simp
  have stored: "?R d'" if "write_upload (safe_name f) bytes d = Inr (u, d')" "?R d" for f bytes d u d'
    using that safe_name_chars [of f]
    by (auto simp: write_upload_def join_upload_def uploads_ok_def split: option.splits if_splits)
  have avatar: "uploads_ok d' \<and> others_kept p (queue w) d'" if "set_avatar p url n d = Inr (rs, d')" "?R d" for url n d rs d'
    using that by (auto simp: set_avatar_def Let_def uploads_ok_def others_kept_def map_upd_where filter_upd_where_unaffected)
  have kept: "uploads_ok d \<and> others_kept p (queue w) d" if "?R d" for d
    using that by (simp add: others_kept_def)
  have first: "wp (case x of None \<Rightarrow> ret () | Some bytes \<Rightarrow> dir_run (\<lambda>_. write_upload (safe_name f) (from_base64url bytes)))
      (\<lambda>_ w'. ?R (queue w')) (\<lambda>_ w'. ?R (queue w')) e w" for x f
  proof (cases x)
    case (Some bytes)
    have "wp (dir_run (\<lambda>_. write_upload (safe_name f) (from_base64url bytes))) (\<lambda>_ w'. ?R (queue w')) (\<lambda>_ w'. ?R (queue w')) e w"
      by (rule wp_dir_run) (use refl stored [OF _ refl] in simp_all)
    then show ?thesis by (simp add: Some)
  qed (use refl in simp)
  have second: "wp (dir_run (set_avatar p url)) (\<lambda>_ w'. uploads_ok (queue w') \<and> others_kept p (queue w) (queue w'))
      (\<lambda>_ w'. uploads_ok (queue w') \<and> others_kept p (queue w) (queue w')) e v" if "?R (queue v)" for url v
    by (rule wp_dir_run) (use kept [OF that] avatar [OF _ that] in simp_all)
  show ?thesis
    unfolding uploadAvatar_def Let_def wp_bind
  proof (rule wp_mono [OF first])
    fix w' :: "directory world"
    assume "?R (queue w')"
    from second [OF this] show "wp (dir_run (set_avatar p url)) (\<lambda>res. wp (case res of [] \<Rightarrow> raise (not_found ''Provider not found'')
        | r # _ \<Rightarrow> ret (url, r)) (\<lambda>_ w'. uploads_ok (queue w') \<and> others_kept p (queue w) (queue w'))
          (\<lambda>_ w'. uploads_ok (queue w') \<and> others_kept p (queue w) (queue w')) e)
        (\<lambda>_ w'. uploads_ok (queue w') \<and> others_kept p (queue w) (queue w')) e w'" for url
      by (rule wp_mono) (simp split: list.split)
  qed (use kept in blast)
qed

text \<open>An upload stays in its directory: whatever file name the request gives, the files of the upload directory
  have names of letters, digits, dots, dashes and underscores, and no other provider's row changes.\<close>

theorem uploadAvatar_confined:
  assumes "uploads_ok (queue w)"
  shows "case uploadAvatar p body e w of (r, w') \<Rightarrow> others_kept p (queue w) (queue w')
    \<and> (\<forall>(f, _) \<in> set (uploads (queue w')). f \<notin> {[], ''.'', ''..''} \<and> CHR ''/'' \<notin> set f)"
proof -
  have "case uploadAvatar p body e w of (r, w') \<Rightarrow> uploads_ok (queue w') \<and> others_kept p (queue w) (queue w')"
    using wp_uploadAvatar [OF assms, of p body e] by (auto simp: wp_def split: prod.splits sum.splits)
  then show ?thesis using name_char_no_slash by (fastforce simp: uploads_ok_def)
qed

text \<open>The name of the file is the request's, so a provider replaces the picture of another.\<close>

lemma avatar_overwrites:
  "case uploadAvatar ''p2'' \<lparr>av_file = Some ''x/avatar-p1.png'', av_data = Some ''QUJD''\<rparr> demo_directory_env
      (demo_directory\<lparr>queue := (queue demo_directory)\<lparr>uploads := [(''avatar-p1.png'', ''old'')]\<rparr>\<rparr>) of (r, w') \<Rightarrow>
     uploads (queue w') = [(''avatar-p1.png'', ''ABC'')]"
  by code_simp

theorem uploadAvatar_confined_witness:
  "case uploadAvatar ''p1'' \<lparr>av_file = Some ''../../etc/passwd'', av_data = Some ''QUJD''\<rparr> demo_directory_env demo_directory of
     (r, w') \<Rightarrow> (\<forall>(f, _) \<in> set (uploads (queue w')). f \<notin> {[], ''.'', ''..''} \<and> CHR ''/'' \<notin> set f)"
proof -
  have "uploads_ok (queue demo_directory)" by (simp add: demo_directory_def uploads_ok_def)
  from uploadAvatar_confined [OF this, of "''p1''" "\<lparr>av_file = Some ''../../etc/passwd'', av_data = Some ''QUJD''\<rparr>" demo_directory_env]
  show ?thesis by auto
qed

end
