(* ===== verification/Web_Pages.thy ===== *)
theory Web_Pages
  imports Directory
begin

text \<open>
  The page \<^verbatim>\<open>apps/web/src/app/appointments/page.tsx\<close> with the route and the API behind it: its state, the
  requests its handlers send, the answers of the controllers as HTTP, and what the page shows then.
\<close>

subsection \<open>The API as HTTP\<close>

text \<open>What the framework answers: the value with the status of the method, or the exception.\<close>

definition nest_reply :: "web_host \<Rightarrow> int \<Rightarrow> exn + jv \<Rightarrow> http" where
  "nest_reply H ok r =
     (let reply = (\<lambda>st v. \<lparr>ht_status = st, ht_body = json_text H v, ht_json = Some v\<rparr>);
          problem = (\<lambda>st m. reply st (JObj [(''statusCode'', num st), (''message'', JStr m)])) in
      case r of Inr v \<Rightarrow> reply ok v
      | Inl (Http_Exception st m) \<Rightarrow> problem st m
      | Inl _ \<Rightarrow> problem 500 ''Internal server error'')"

definition refusal :: "int \<Rightarrow> string \<Rightarrow> jv" where
  "refusal st err = JObj [(''status'', num st), (''error'', JStr err)]"

definition updated_json :: "updated reply \<Rightarrow> jv" where
  "updated_json r = (case r of Refused st err \<Rightarrow> refusal st err
     | Reply u \<Rightarrow> JObj [(''status'', num 200), (''booking'', JObj [(''id'', JStr (up_id u)), (''status'', JStr (up_status u)),
         (''version'', num (up_version u))])])"

definition cancelled_json :: "unit reply \<Rightarrow> jv" where
  "cancelled_json r = (case r of Refused st err \<Rightarrow> refusal st err | Reply _ \<Rightarrow> JObj [(''status'', num 204)])"

definition listed_json :: "listed \<Rightarrow> jv" where
  "listed_json l = written [(''id'', Some (JStr (ls_id l))), (''status'', Some (JStr (booking_status_text (ls_status l)))),
     (''version'', Some (num (ls_version l))), (''slotStartUtc'', map_option (\<lambda>t. JStr (toISOString t)) (ls_start l)),
     (''clientName'', map_option JStr (ls_client l))]"

definition answer :: "web_host \<Rightarrow> int \<Rightarrow> ('a \<Rightarrow> jv) \<Rightarrow> (exn + 'a) \<times> 's \<Rightarrow> (string + http) \<times> 's" where
  "answer H ok f run = (case run of (r, s) \<Rightarrow> (Inr (nest_reply H ok (case r of Inl x \<Rightarrow> Inl x | Inr a \<Rightarrow> Inr (f a))), s))"

text \<open>The routes the page and its adapter call.\<close>

definition booking_api :: "web_host \<Rightarrow> 'q env \<Rightarrow> bool \<Rightarrow> string \<Rightarrow> string \<Rightarrow> 'q world net" where
  "booking_api H e q i act req w =
     (let cookie = map_of (rq_headers req) ''cookie'' in
      if act = ''confirm'' then answer H 201 updated_json (ctl_confirmBooking i cookie e w)
      else if act = ''decline'' then answer H 201 updated_json (ctl_declineBooking i cookie q e w)
      else if act = ''cancel'' then answer H 201 cancelled_json (ctl_cancelBooking i (map_of (rq_headers req) ''if-match'') cookie q e w)
      else (Inr (nest_reply H 404 (Inl (not_found (''Cannot POST '' @ rq_path req)))), w))"

definition api :: "web_host \<Rightarrow> 'q env \<Rightarrow> bool \<Rightarrow> 'q world net" where
  "api H e q req w = (case split_on (CHR ''/'') (rq_path req) of
       [_, r] \<Rightarrow>
         if rq_method req = ''GET'' \<and> r = ''appointments''
         then answer H 200 (\<lambda>ls. JArr (map listed_json ls)) (appointments_list None None e w)
         else (Inr (nest_reply H 404 (Inl (not_found (''Cannot '' @ rq_method req @ '' '' @ rq_path req)))), w)
     | [_, r, i, act] \<Rightarrow>
         if rq_method req = ''POST'' \<and> r = ''bookings'' then booking_api H e q i act req w
         else (Inr (nest_reply H 404 (Inl (not_found (''Cannot '' @ rq_method req @ '' '' @ rq_path req)))), w)
     | _ \<Rightarrow> (Inr (nest_reply H 404 (Inl (not_found (''Cannot '' @ rq_method req @ '' '' @ rq_path req)))), w))"

text \<open>The browser adds the cookies it holds.\<close>

definition browser :: "string option \<Rightarrow> 's net \<Rightarrow> 's net" where
  "browser cookie F req = F (req\<lparr>rq_headers := rq_headers req @ forward_cookie cookie\<rparr>)"

subsection \<open>The page\<close>

record page =
  pg_items :: "appointment list"
  pg_loading :: bool
  pg_error :: string
  pg_search :: string
  pg_statusFilter :: string
  pg_drawerItem :: "appointment option"
  pg_drawerOpen :: bool
  pg_drawerError :: string

definition STATUS_PILLS :: "string list" where
  "STATUS_PILLS = [''All'', ''Confirmed'', ''Pending'', ''Cancelled'', ''Completed'', ''Rescheduled'']"

definition initial_page :: page where
  "initial_page = \<lparr>pg_items = [], pg_loading = True, pg_error = [], pg_search = [], pg_statusFilter = ''All'',
     pg_drawerItem = None, pg_drawerOpen = False, pg_drawerError = []\<rparr>"

text \<open>The query of the adapter: \<open>search\<close> and \<open>status\<close>, each only when it is set.\<close>

definition search_param :: "page \<Rightarrow> string option" where
  "search_param pg = truthy (Some (pg_search pg))"

definition status_param :: "web_host \<Rightarrow> page \<Rightarrow> string option" where
  "status_param H pg = (if pg_statusFilter pg \<noteq> ''All'' then Some (to_lower H (pg_statusFilter pg)) else None)"

definition fetched :: "adapter_reply \<Rightarrow> page \<Rightarrow> page" where
  "fetched r pg = (case r of
       Appointments as \<Rightarrow> pg\<lparr>pg_items := as, pg_error := [], pg_loading := False\<rparr>
     | _ \<Rightarrow> pg\<lparr>pg_error := ''Unable to load appointments'', pg_loading := False\<rparr>)"

text \<open>The request passes the middleware first; redirected, it ends at the login page, which is no JSON.\<close>

definition fetchAppointments :: "web_host \<Rightarrow> 's net \<Rightarrow> string option \<Rightarrow> page \<Rightarrow> 's \<Rightarrow> page \<times> 's" where
  "fetchAppointments H F cookie pg s =
     (case web_request ''/api/appointments'' (request_cookie H ''chronos_session'' cookie) of
        Redirect _ _ \<Rightarrow> (pg\<lparr>pg_error := (if parse_error H \<noteq> [] then parse_error H else ''Unable to load appointments''),
            pg_loading := False\<rparr>, s)
      | Next \<Rightarrow> (case adapter_GET H F cookie (search_param pg) (status_param H pg) s of (r, s') \<Rightarrow> (fetched r pg, s')))"

definition openDrawer :: "appointment \<Rightarrow> page \<Rightarrow> page" where
  "openDrawer item pg = pg\<lparr>pg_drawerItem := Some item, pg_drawerOpen := True\<rparr>"

definition closeDrawer :: "page \<Rightarrow> page" where
  "closeDrawer pg = pg\<lparr>pg_drawerOpen := False, pg_drawerItem := None\<rparr>"

definition onKey :: "string \<Rightarrow> page \<Rightarrow> page" where
  "onKey k pg = (if k = ''Escape'' then closeDrawer pg else pg)"

text \<open>\<open>item.id || item.booking_id\<close> in a template; the items of the adapter have no \<open>booking_id\<close>.\<close>

definition item_id :: "web_host \<Rightarrow> appointment \<Rightarrow> string" where
  "item_id H item = js_string H (if js_true (ap_id item) then ap_id item else None)"

definition action_path :: "web_host \<Rightarrow> string \<Rightarrow> appointment \<Rightarrow> string" where
  "action_path H action item = ''/bookings/'' @ item_id H item @ (if action = ''confirm'' then ''/confirm''
     else if action = ''decline'' then ''/decline'' else if action = ''cancel'' then ''/cancel'' else ''/status'')"

definition action_options :: "string \<Rightarrow> js \<Rightarrow> fetch_options" where
  "action_options action newSlotId =
     \<lparr>fo_method = (if action = ''reschedule'' then ''PATCH'' else ''POST''),
      fo_body = (if action = ''reschedule'' then Some (written [(''newSlotId'', newSlotId)]) else None),
      fo_headers = json_header, fo_key = None\<rparr>"

text \<open>\<open>result.error || 'Action failed (HTTP ' + res.status + ')'\<close> of a value; \<open>null\<close> has no members.\<close>

definition failure_text :: "web_host \<Rightarrow> http \<Rightarrow> string" where
  "failure_text H res = (case member ''error'' (case ht_json res of None \<Rightarrow> Some (JObj []) | Some v \<Rightarrow> Some v) of
       Inl _ \<Rightarrow> ''Action failed''
     | Inr x \<Rightarrow> if js_true x then js_string H x else ''Action failed (HTTP '' @ int_text (ht_status res) @ '')'')"

definition handleAction ::
    "web_host \<Rightarrow> 's net \<Rightarrow> string option \<Rightarrow> string \<Rightarrow> appointment \<Rightarrow> js \<Rightarrow> page \<Rightarrow> 's \<Rightarrow> page \<times> 's" where
  "handleAction H F cookie action item newSlotId pg s =
     (let pg0 = pg\<lparr>pg_drawerError := []\<rparr> in
      case apiFetch (browser cookie F) (action_path H action item) (action_options action newSlotId) s of
        (Inl m, s') \<Rightarrow> (pg0\<lparr>pg_drawerError := (if m = [] then ''Action failed'' else m)\<rparr>, s')
      | (Inr res, s') \<Rightarrow>
          if http_ok res then (case fetchAppointments H F cookie pg0 s' of (pg1, s'') \<Rightarrow> (closeDrawer pg1, s''))
          else (pg0\<lparr>pg_drawerError := failure_text H res\<rparr>, s'))"

definition displayStatus :: "string \<Rightarrow> string" where
  "displayStatus s = (if s = ''confirmed'' then ''Confirmed'' else if s = ''pending'' then ''Pending''
     else if s = ''cancelled'' then ''Cancelled'' else if s = ''completed'' then ''Completed''
     else if s = ''rescheduled'' then ''Rescheduled'' else if s \<noteq> [] then s else ''Unknown'')"

text \<open>The buttons of the drawer.\<close>

definition drawer_actions :: "string \<Rightarrow> string list" where
  "drawer_actions s = (if s = ''confirmed'' \<or> s = ''booked'' then [''confirm'', ''decline'', ''cancel'', ''reschedule'']
     else if s = ''pending'' then [''confirm'', ''decline'', ''cancel'']
     else if s = ''cancelled'' \<or> s = ''completed'' then []
     else [''confirm'', ''decline'', ''cancel''])"

subsection \<open>What the page lists\<close>

text \<open>The status the page shows for a stored one.\<close>

fun shown_status :: "booking_status \<Rightarrow> string" where
  "shown_status Booked = ''confirmed''"
| "shown_status Completed = ''completed''"
| "shown_status Cancelled = ''cancelled''"
| "shown_status No_Show = ''completed''"

lemma mapped_status:
  assumes "lowers_ascii H"
  shows "mapBookingStatus H (Some (JStr (booking_status_text st))) = Inr (shown_status st)"
proof -
  have "to_lower H (booking_status_text st) = booking_status_text st"
    using assms by (cases st) (simp_all add: lowers_ascii_def, simp_all add: lower_char_def)
  then show ?thesis by (cases st) (simp_all add: mapBookingStatus_def)
qed

definition shows_booking :: "booking_row \<Rightarrow> appointment \<Rightarrow> bool" where
  "shows_booking b a \<longleftrightarrow> ap_id a = Some (JStr (b_id b)) \<and> ap_status a = shown_status (b_status b)
     \<and> ap_clientEmail a = Some JNull \<and> ap_eventTypeName a = Some JNull \<and> ap_duration a = Some JNull
     \<and> ap_location a = Some JNull \<and> ap_end a = Some JNull"

lemma listed_members:
  "member ''id'' (Some (listed_json l)) = Inr (Some (JStr (ls_id l)))"
  "member ''status'' (Some (listed_json l)) = Inr (Some (JStr (booking_status_text (ls_status l))))"
  "member ''version'' (Some (listed_json l)) = Inr (Some (num (ls_version l)))"
  "member ''clientName'' (Some (listed_json l)) = Inr (map_option JStr (ls_client l))"
  "member ''slotStartUtc'' (Some (listed_json l)) = Inr (map_option (\<lambda>t. JStr (toISOString t)) (ls_start l))"
  "k \<notin> {''id'', ''status'', ''version'', ''slotStartUtc'', ''clientName''} \<Longrightarrow> member k (Some (listed_json l)) = Inr None"
  by (cases "ls_start l"; cases "ls_client l"; simp add: listed_json_def written_def)+

lemma listed_appointment:
  assumes "lowers_ascii H" "to_appointment H (listed_json (listed_of t b)) = Inr a" "b_id b \<noteq> []"
  shows "shows_booking b a"
  using assms mapped_status [OF assms(1)]
  by (auto simp: to_appointment_def Let_def sbind_Inr_iff listed_members nested_def maybe_member_def duration_of_def
      null_def listed_of_def shows_booking_def split: option.splits)

lemma matches_listed:
  assumes "lowers_ascii H"
  shows "matches_status H f (listed_json (listed_of t b)) = Inr (shown_status (b_status b) = to_lower H f)"
  by (simp add: matches_status_def listed_members mapped_status [OF assms] listed_of_def)

lemma list_appointments_shown:
  assumes "lowers_ascii H" "list_appointments H q f (JArr (map listed_json (map (listed_of t) bs))) = Inr as"
    and "a \<in> set as" "\<forall>b \<in> set bs. b_id b \<noteq> []"
  shows "\<exists>b \<in> set bs. shows_booking b a \<and> (f \<noteq> ''all'' \<longrightarrow> shown_status (b_status b) = to_lower H f)"
proof -
  let ?js = "map listed_json (map (listed_of t) bs)"
  obtain xs ys where "(if q \<noteq> [] then js_filter (matches_search H (to_lower H q)) ?js else Inr ?js) = Inr xs"
    "(if f \<noteq> ''all'' then js_filter (matches_status H f) xs else Inr xs) = Inr ys" "js_map (to_appointment H) ys = Inr as"
    using assms(2) unfolding list_appointments_def Let_def jv.case sbind_Inr_iff by blast
  then have sub: "set xs \<subseteq> set ?js" "set ys \<subseteq> set xs"
    and ok: "f \<noteq> ''all'' \<longrightarrow> (\<forall>y \<in> set ys. matches_status H f y = Inr True)"
    and items: "list_all2 (\<lambda>y a. to_appointment H y = Inr a) ys as"
    using js_map_Inr by (auto split: if_splits dest: js_filter_Inr)
  obtain i where i: "i < length as" "a = as ! i" using assms(3) by (auto simp: in_set_conv_nth)
  define y where "y = ys ! i"
  have y: "y \<in> set ys" "to_appointment H y = Inr a"
    using items i list_all2_lengthD [OF items] by (auto simp: y_def list_all2_conv_all_nth)
  then obtain b where b: "b \<in> set bs" "y = listed_json (listed_of t b)" using sub by auto
  have "shows_booking b a" using listed_appointment [OF assms(1)] y b assms(4) by blast
  moreover have "f \<noteq> ''all'' \<longrightarrow> shown_status (b_status b) = to_lower H f"
    using ok y(1) b(2) matches_listed [OF assms(1)] by auto
  ultimately show ?thesis using b(1) by blast
qed

lemma api_appointments:
  "api H e q \<lparr>rq_method = ''GET'', rq_path = ''/appointments'', rq_headers = hs, rq_body = bd\<rparr> w
     = answer H 200 (\<lambda>ls. JArr (map listed_json ls)) (appointments_list None None e w)"
  by (simp add: api_def)

lemma appointments_list_run:
  assumes "idle T w" "appointments_list None None e w = (r, w')"
  shows "idle T w' \<and> (\<forall>ls. r = Inr ls \<longrightarrow> (\<exists>bs. ls = map (listed_of T) bs \<and> set bs \<subseteq> set (bookings T) \<and> length bs \<le> 50))"
proof -
  have "wp (appointments_list None None) (\<lambda>ls w'. idle T w' \<and> (\<exists>bs. ls = map (listed_of T) bs \<and> set bs \<subseteq> set (bookings T) \<and> length bs \<le> 50))
      (\<lambda>_. idle T) e w"
    unfolding appointments_list_def
    by (auto simp: Let_def intro!: wp_sel_idle [OF assms(1)] exI dest!: in_set_takeD)
  then show ?thesis using assms(2) by (auto simp: wp_def split: sum.splits)
qed

lemma list_appointments_object: "list_appointments H sq f (JObj fs) = Inr []"
  by (simp add: list_appointments_def)

lemma fetch_redirected:
  assumes "web_request ''/api/appointments'' (request_cookie H ''chronos_session'' cookie) \<noteq> Next"
  shows "fst (fetchAppointments H F cookie pg s) = pg\<lparr>pg_error := pg_error (fst (fetchAppointments H F cookie pg s)), pg_loading := False\<rparr>"
    "pg_error (fst (fetchAppointments H F cookie pg s)) \<noteq> []" "snd (fetchAppointments H F cookie pg s) = s"
  using assms by (auto simp: fetchAppointments_def split: routed.splits)

lemma fetch_passed:
  assumes "web_request ''/api/appointments'' (request_cookie H ''chronos_session'' cookie) = Next"
  shows "fetchAppointments H F cookie pg s = (case adapter_GET H F cookie (search_param pg) (status_param H pg) s of (r, s') \<Rightarrow> (fetched r pg, s'))"
  using assms by (simp add: fetchAppointments_def)

lemma ascii_lower: "lowers_ascii H \<Longrightarrow> (\<forall>c \<in> set s. of_char c < (128 :: nat)) \<Longrightarrow> to_lower H s = map lower_char s"
  by (simp add: lowers_ascii_def)

lemma pill_status:
  assumes "lowers_ascii H" "pg_statusFilter pg \<in> set STATUS_PILLS"
    and "or_else (status_param H pg) ''all'' \<noteq> ''all'' \<longrightarrow> shown_status (b_status b) = to_lower H (or_else (status_param H pg) ''all'')"
  shows "pg_statusFilter pg = ''All'' \<or> displayStatus (shown_status (b_status b)) = pg_statusFilter pg"
proof -
  have low: "to_lower H s = map lower_char s \<and> to_lower H (map lower_char s) = map lower_char (map lower_char s)"
    if "s \<in> set STATUS_PILLS" for s
    using that by (auto simp: STATUS_PILLS_def lower_char_def ascii_lower [OF assms(1)])
  show ?thesis
    using assms(2,3) low [OF assms(2)]
    by (cases "b_status b") (auto simp: STATUS_PILLS_def status_param_def or_else_def lower_char_def displayStatus_def)
qed


subsection \<open>What the page reports\<close>

text \<open>The handler an action reaches, with the refusal it answers, if any.\<close>

definition outcome_of :: "(exn + 'a reply) \<times> 'q world \<Rightarrow> (exn + (int \<times> string) option) \<times> 'q world" where
  "outcome_of run = (case run of (Inl x, w) \<Rightarrow> (Inl x, w)
     | (Inr (Refused st err), w) \<Rightarrow> (Inr (Some (st, err)), w) | (Inr (Reply _), w) \<Rightarrow> (Inr None, w))"

definition action_outcome ::
    "string \<Rightarrow> string \<Rightarrow> string option \<Rightarrow> bool \<Rightarrow> 'q env \<Rightarrow> 'q world \<Rightarrow> (exn + (int \<times> string) option) \<times> 'q world" where
  "action_outcome act i cookie q e w =
     (if act = ''confirm'' then outcome_of (ctl_confirmBooking i cookie e w)
      else if act = ''decline'' then outcome_of (ctl_declineBooking i cookie q e w)
      else outcome_of (ctl_cancelBooking i None cookie q e w))"

lemma booking_path:
  assumes "CHR ''/'' \<notin> set i" "CHR ''/'' \<notin> set act"
  shows "split_on (CHR ''/'') (''/bookings/'' @ i @ ''/'' @ act) = [[], ''bookings'', i, act]"
  using split_on_append_sep [OF assms(1), of act] split_on_no_sep [OF assms(2)] by simp

lemma api_booking:
  assumes "CHR ''/'' \<notin> set i" "CHR ''/'' \<notin> set act"
  shows "api H e q \<lparr>rq_method = ''POST'', rq_path = ''/bookings/'' @ i @ ''/'' @ act, rq_headers = hs, rq_body = bd\<rparr> w
    = booking_api H e q i act \<lparr>rq_method = ''POST'', rq_path = ''/bookings/'' @ i @ ''/'' @ act, rq_headers = hs, rq_body = bd\<rparr> w"
  unfolding api_def request.simps booking_path [OF assms] by simp

text \<open>The cookies of a browser that reach a handler.\<close>

definition sent_cookie :: "string option \<Rightarrow> string option" where
  "sent_cookie cookie = truthy cookie"

lemma browser_request:
  "browser cookie F (build_request p (action_options act n)) = F \<lparr>rq_method = (if act = ''reschedule'' then ''PATCH'' else ''POST''),
     rq_path = p, rq_headers = json_header @ [(''Content-Type'', ''application/json'')] @ forward_cookie cookie,
     rq_body = (if act = ''reschedule'' then Some (written [(''newSlotId'', n)]) else None)\<rparr>"
  by (simp add: browser_def build_request_def action_options_def)

lemma cookie_headers:
  "map_of (json_header @ [(''Content-Type'', ''application/json'')] @ forward_cookie cookie) ''cookie'' = truthy cookie"
  "map_of (json_header @ [(''Content-Type'', ''application/json'')] @ forward_cookie cookie) ''if-match'' = None"
  by (simp_all add: json_header_def forward_cookie_def split: option.split)

definition told :: "(exn + 'a) \<Rightarrow> http \<Rightarrow> bool" where
  "told r res \<longleftrightarrow> ht_status res = (case r of Inr _ \<Rightarrow> 201 | Inl (Http_Exception st _) \<Rightarrow> st | Inl _ \<Rightarrow> 500)"

lemma answer_outcome:
  assumes "outcome_of run = (r, w1)"
  shows "\<exists>res. answer H 201 f run = (Inr res, w1) \<and> told r res"
proof -
  obtain r' w' where run: "run = (r', w')" by fastforce
  show ?thesis
  proof (cases r')
    case (Inl x)
    then show ?thesis using assms run
      by (cases x) (auto simp: outcome_of_def answer_def nest_reply_def told_def Let_def)
  next
    case (Inr a)
    then show ?thesis using assms run
      by (cases a) (auto simp: outcome_of_def answer_def nest_reply_def told_def Let_def)
  qed
qed

text \<open>What the page is told of a handler's run: a reply that is a success whenever the handler returns.\<close>

lemma page_request:
  assumes "act \<in> {''confirm'', ''decline'', ''cancel''}" "CHR ''/'' \<notin> set i"
    and "ap_id item = Some (JStr i)" "i \<noteq> []" "action_outcome act i (truthy cookie) q e w = (r, w1)"
  shows "\<exists>res. browser cookie (api H e q) (build_request (action_path H act item) (action_options act n)) w = (Inr res, w1)
    \<and> told r res"
proof -
  let ?hs = "json_header @ [(''Content-Type'', ''application/json'')] @ forward_cookie cookie"
  let ?req = "\<lparr>rq_method = ''POST'', rq_path = ''/bookings/'' @ i @ ''/'' @ act, rq_headers = ?hs, rq_body = None\<rparr>"
  have path: "action_path H act item = ''/bookings/'' @ i @ ''/'' @ act"
    using assms(1,3,4) by (auto simp: action_path_def item_id_def)
  have plain: "act \<noteq> ''reschedule''" "CHR ''/'' \<notin> set act" using assms(1) by auto
  have "browser cookie (api H e q) (build_request (action_path H act item) (action_options act n)) w = api H e q ?req w"
    unfolding browser_request path by (simp only: plain if_False)
  also have "\<dots> = booking_api H e q i act ?req w"
    by (rule api_booking [OF assms(2) plain(2)])
  finally have net: "browser cookie (api H e q) (build_request (action_path H act item) (action_options act n)) w
      = booking_api H e q i act ?req w" .
  consider "act = ''confirm''" | "act = ''decline''" | "act = ''cancel''" using assms(1) by blast
  then show ?thesis
  proof cases
    case 1
    then have "outcome_of (ctl_confirmBooking i (truthy cookie) e w) = (r, w1)"
      using assms(5) by (simp add: action_outcome_def)
    moreover have "booking_api H e q i act ?req w = answer H 201 updated_json (ctl_confirmBooking i (truthy cookie) e w)"
      unfolding booking_api_def Let_def request.simps cookie_headers using 1 by simp
    ultimately show ?thesis unfolding net using answer_outcome by metis
  next
    case 2
    then have "outcome_of (ctl_declineBooking i (truthy cookie) q e w) = (r, w1)"
      using assms(5) by (simp add: action_outcome_def)
    moreover have "booking_api H e q i act ?req w = answer H 201 updated_json (ctl_declineBooking i (truthy cookie) q e w)"
      unfolding booking_api_def Let_def request.simps cookie_headers using 2 by simp
    ultimately show ?thesis unfolding net using answer_outcome by metis
  next
    case 3
    then have "outcome_of (ctl_cancelBooking i None (truthy cookie) q e w) = (r, w1)"
      using assms(5) by (simp add: action_outcome_def)
    moreover have "booking_api H e q i act ?req w = answer H 201 cancelled_json (ctl_cancelBooking i None (truthy cookie) q e w)"
      unfolding booking_api_def Let_def request.simps cookie_headers using 3 by simp
    ultimately show ?thesis unfolding net using answer_outcome by metis
  qed
qed

lemma booking_path_not_login: "action_path H act item \<noteq> ''/auth/login''"
  by (simp add: action_path_def)

lemma page_reports:
  assumes "act \<in> {''confirm'', ''decline'', ''cancel''}" "ap_id item = Some (JStr i)" "i \<noteq> []" "CHR ''/'' \<notin> set i"
    and "action_outcome act i (truthy cookie) q e w = (r, w1)"
    and "handleAction H (api H e q) cookie act item n pg w = (pg', w')"
  shows "(\<forall>refused. r = Inr refused \<longrightarrow> \<not> pg_drawerOpen pg' \<and> pg_drawerError pg' = []
        \<and> w' = snd (fetchAppointments H (api H e q) cookie (pg\<lparr>pg_drawerError := []\<rparr>) w1))
    \<and> (\<forall>x. r = Inl x \<longrightarrow> (\<nexists>st m. x = Http_Exception st m \<and> 200 \<le> st \<and> st \<le> 299) \<longrightarrow>
        pg_drawerError pg' \<noteq> [] \<and> pg_drawerOpen pg' = pg_drawerOpen pg \<and> w' = w1)"
proof -
  obtain res where res: "browser cookie (api H e q) (build_request (action_path H act item) (action_options act n)) w = (Inr res, w1)"
    "told r res" using page_request [OF assms(1,4,2,3,5), of H n] by blast
  obtain pg1 w2 where fetch: "fetchAppointments H (api H e q) cookie (pg\<lparr>pg_drawerError := []\<rparr>) w1 = (pg1, w2)" by fastforce
  then have quiet: "pg_drawerError pg1 = []"
    by (auto simp: fetchAppointments_def fetched_def split: prod.splits adapter_reply.splits routed.splits)
  show ?thesis
  proof (cases r)
    case (Inr x)
    then have "ht_status res = 201" using res(2) by (simp add: told_def)
    then show ?thesis using assms(6) res(1) fetch quiet Inr booking_path_not_login [of H act item]
      by (auto simp: handleAction_def apiFetch_def http_ok_def closeDrawer_def Let_def)
  next
    case (Inl x)
    then show ?thesis using assms(6) res booking_path_not_login [of H act item]
      by (cases x) (auto simp: handleAction_def apiFetch_def http_ok_def told_def Let_def split: if_splits)
  qed
qed

text \<open>C35. The page cannot tell a refusal from a success: when the handler of an action returns, whether it did it or
  refused it as not found, not the client's, out of date or too late, the drawer closes without an error; an
  error is shown exactly when the handler throws.\<close>

theorem page_hides_refusals:
  assumes "act \<in> {''confirm'', ''decline'', ''cancel''}" "ap_id item = Some (JStr i)" "i \<noteq> []" "CHR ''/'' \<notin> set i"
    and "action_outcome act i (truthy cookie) q e w = (r, w1)"
    and "handleAction H (api H e q) cookie act item n pg w = (pg', w')"
  shows "(\<forall>refused. r = Inr refused \<longrightarrow> \<not> pg_drawerOpen pg' \<and> pg_drawerError pg' = []
        \<and> w' = snd (fetchAppointments H (api H e q) cookie (pg\<lparr>pg_drawerError := []\<rparr>) w1))
    \<and> (\<forall>x. r = Inl x \<longrightarrow> (\<nexists>st m. x = Http_Exception st m \<and> 200 \<le> st \<and> st \<le> 299) \<longrightarrow>
        pg_drawerError pg' \<noteq> [] \<and> pg_drawerOpen pg' = pg_drawerOpen pg \<and> w' = w1)"
  using assms by (rule page_reports)

lemma filter_own_key:
  "distinct (map k rows) \<Longrightarrow> b \<in> set rows \<Longrightarrow> filter (\<lambda>r. k r = k b) rows = [b]"
proof (induction rows)
  case (Cons a rows)
  show ?case
  proof (cases "a = b")
    case True
    then have "filter (\<lambda>r. k r = k b) rows = []" using Cons.prems(1) by (auto simp: filter_empty_conv) (metis image_eqI)
    then show ?thesis using True by simp
  next
    case False
    then have "b \<in> set rows" using Cons.prems(2) by simp
    moreover from this have "k a \<noteq> k b" using Cons.prems(1) by auto
    ultimately show ?thesis using Cons by simp
  qed
qed simp

lemma cancel_stale:
  assumes "idle T w" "reliable e" "b \<in> set (bookings T)" "distinct (map b_id (bookings T))" "b_version b \<noteq> 1"
    and "extractClientFromCookie cookie \<noteq> None"
  shows "\<exists>st err w1. action_outcome ''cancel'' (b_id b) cookie q e w = (Inr (Some (st, err)), w1) \<and> st \<in> {403, 412} \<and> idle T w1"
proof -
  have row: "bookings_by_id (b_id b) T = [b]"
    using assms(3,4) by (simp add: bookings_by_id_def filter_own_key)
  have one: "js_parse_int (some_or None ''1'') = Some 1" by code_simp
  obtain c where c: "extractClientFromCookie cookie = Some c" using assms(6) by blast
  have w: "tabs w = T" "tx w = No_Tx" using assms(1) by (simp_all add: idle_def)
  show ?thesis
    using assms(2,5) row one c w
    by (auto simp: action_outcome_def outcome_of_def ctl_cancelBooking_def with_session_def prog_simps query_def sel_def idle_def)
qed

text \<open>C36. Cancelling through the page is lost for every booking that was ever changed: the page sends no version, the
  handler takes it as 1 and refuses any other, and the page closes the drawer as after a success. Nothing
  is cancelled.\<close>

theorem page_cancel_lost:
  assumes "idle T w" "reliable e" "b \<in> set (bookings T)" "distinct (map b_id (bookings T))" "b_version b \<noteq> 1"
    and "b_id b \<noteq> []" "CHR ''/'' \<notin> set (b_id b)" "ap_id item = Some (JStr (b_id b))"
    and "extractClientFromCookie (truthy cookie) \<noteq> None"
    and "handleAction H (api H e q) cookie ''cancel'' item n pg w = (pg', w')"
  shows "idle T w' \<and> \<not> pg_drawerOpen pg' \<and> pg_drawerError pg' = []"
proof -
  obtain st err w1 where out: "action_outcome ''cancel'' (b_id b) (truthy cookie) q e w = (Inr (Some (st, err)), w1)" "idle T w1"
    using cancel_stale [OF assms(1-5,9)] by blast
  have "\<not> pg_drawerOpen pg' \<and> pg_drawerError pg' = []
      \<and> w' = snd (fetchAppointments H (api H e q) cookie (pg\<lparr>pg_drawerError := []\<rparr>) w1)"
    using page_reports [OF _ assms(8,6,7) out(1) assms(10)] by simp
  moreover obtain r w2 where run: "appointments_list None None e w1 = (r, w2)" by fastforce
  moreover have "snd (fetchAppointments H (api H e q) cookie p w1) \<in> {w1, w2}" for p
  proof (cases "web_request ''/api/appointments'' (request_cookie H ''chronos_session'' cookie) = Next")
    case True
    show ?thesis unfolding fetch_passed [OF True]
      by (auto simp: adapter_GET_def api_appointments run answer_def Let_def
          split: prod.splits sum.splits option.splits)
  qed (simp add: fetch_redirected(3))
  moreover have "idle T x" if "x \<in> {w1, w2}" for x
    using that appointments_list_run [OF out(2) run] out(2) by auto
  ultimately show ?thesis by blast
qed

subsection \<open>A concrete page\<close>

definition demo_item :: appointment where
  "demo_item = \<lparr>ap_id = Some (JStr ''b1''), ap_clientName = None, ap_clientEmail = None, ap_clientAvatar = None,
     ap_eventTypeName = None, ap_date = None, ap_time = None, ap_duration = None, ap_status = ''confirmed'',
     ap_location = None, ap_notes = None, ap_start = None, ap_end = None, ap_version = None\<rparr>"

lemma demo_item_id: "ap_id demo_item = Some (JStr ''b1'')"
  by (simp add: demo_item_def)

lemma demo_iso: "toISOString 1793548800000 = ''2026-11-01T16:00:00.000Z''" by code_simp

lemma demo_appointment:
  "\<exists>a. to_appointment demo_web (listed_json (listed_of demo_tables (hd (bookings demo_tables)))) = Inr a \<and> ap_id a = Some (JStr ''b1'')"
proof -
  have d: "date_value demo_web (JStr ''2026-11-01T16:00:00.000Z'') = Some 1793548800000" by (simp add: demo_web_def)
  have st: "mapBookingStatus demo_web (Some (JStr ''booked'')) = Inr ''confirmed''"
    using mapped_status [OF demo_web_lowers, of Booked] by simp
  show ?thesis
    by (simp add: to_appointment_def listed_members nested_def maybe_member_def duration_of_def null_def listed_of_def
        demo_tables_def first_where_def display_def formatDisplayDate_def formatDisplayTime_def with_zone_def demo_iso
        Let_def d st)
qed

lemma demo_fetch:
  "case fetchAppointments demo_web (api demo_web demo_env True) demo_session (initial_page\<lparr>pg_statusFilter := ''Confirmed''\<rparr>) demo_world of
     (pg', w') \<Rightarrow> pg_error pg' = [] \<and> map ap_id (pg_items pg') = [Some (JStr ''b1'')]"
proof -
  obtain a where a: "to_appointment demo_web (listed_json (listed_of demo_tables (hd (bookings demo_tables)))) = Inr a"
    "ap_id a = Some (JStr ''b1'')" using demo_appointment by blast
  have run: "fst (appointments_list None None demo_env demo_world) = Inr [listed_of demo_tables (hd (bookings demo_tables))]"
    by (simp add: appointments_list_def query_def sel_def demo_env_def demo_world_def demo_tables_def)
  have low: "to_lower demo_web ''Confirmed'' = ''confirmed''" "to_lower demo_web ''confirmed'' = ''confirmed''" by code_simp+
  have st: "b_status (hd (bookings demo_tables)) = Booked" by (simp add: demo_tables_def)
  obtain w1 where w1: "appointments_list None None demo_env demo_world = (Inr [listed_of demo_tables (hd (bookings demo_tables))], w1)"
    using run by (metis prod.collapse)
  have "web_request ''/api/appointments'' (request_cookie demo_web ''chronos_session'' demo_session) = Next" by code_simp
  note passed = fetch_passed [OF this, of "api demo_web demo_env True" "initial_page\<lparr>pg_statusFilter := ''Confirmed''\<rparr>" demo_world]
  show ?thesis unfolding passed
    by (simp add: adapter_GET_def api_appointments w1 answer_def nest_reply_def Let_def http_ok_def
        list_appointments_def matches_listed [OF demo_web_lowers] st low a status_param_def search_param_def or_else_def
        initial_page_def fetched_def)
qed


theorem page_hides_refusals_witness:
  "case handleAction demo_web (api demo_web demo_env True) stranger ''decline'' demo_item None initial_page demo_world of
     (pg', w') \<Rightarrow> fst (action_outcome ''decline'' ''b1'' stranger True demo_env demo_world) = Inr (Some (403, ''unauthorized''))
       \<and> \<not> pg_drawerOpen pg' \<and> pg_drawerError pg' = []"
proof -
  have refused: "fst (action_outcome ''decline'' ''b1'' stranger True demo_env demo_world) = Inr (Some (403, ''unauthorized''))"
    by code_simp
  obtain r w1 where out: "action_outcome ''decline'' ''b1'' (truthy stranger) True demo_env demo_world = (r, w1)" by fastforce
  obtain pg' w' where run: "handleAction demo_web (api demo_web demo_env True) stranger ''decline'' demo_item None initial_page
      demo_world = (pg', w')" by fastforce
  have "truthy stranger = stranger" by (simp add: stranger_def)
  then have "r = Inr (Some (403, ''unauthorized''))" using refused out by simp
  with page_hides_refusals [OF _ _ _ _ out run] refused show ?thesis by (simp add: run demo_item_id)
qed

definition moved_world :: "unit world" where
  "moved_world = demo_world\<lparr>tabs := demo_tables\<lparr>bookings := map (\<lambda>b. b\<lparr>b_version := 2\<rparr>) (bookings demo_tables)\<rparr>\<rparr>"

theorem page_cancel_lost_witness:
  "case handleAction demo_web (api demo_web demo_env True) demo_session ''cancel'' demo_item None initial_page moved_world of
     (pg', w') \<Rightarrow> committed w' = committed moved_world \<and> \<not> pg_drawerOpen pg' \<and> pg_drawerError pg' = []"
proof -
  let ?T = "demo_tables\<lparr>bookings := map (\<lambda>b. b\<lparr>b_version := 2\<rparr>) (bookings demo_tables)\<rparr>"
  let ?b = "(hd (bookings demo_tables))\<lparr>b_version := 2\<rparr>"
  obtain pg' w' where run: "handleAction demo_web (api demo_web demo_env True) demo_session ''cancel'' demo_item None initial_page
      moved_world = (pg', w')" by fastforce
  have idle: "idle ?T moved_world" by (simp add: idle_def moved_world_def demo_world_def)
  have b: "?b \<in> set (bookings ?T)" "distinct (map b_id (bookings ?T))" "b_version ?b \<noteq> 1" "b_id ?b = ''b1''"
    by (simp_all add: demo_tables_def)
  have "extractClientFromCookie (truthy demo_session) \<noteq> None" by code_simp
  from page_cancel_lost [OF idle demo_reliable b(1-3) _ _ _ this run] idle
  show ?thesis by (simp add: run b(4) demo_item_id idle_committed)
qed

end
