(* ===== verification/Web_Views.thy ===== *)
theory Web_Views
  imports Web_Pages Inbox
begin

text \<open>
  Views of the web application with state of their own: the command palette, the notification panel over
  the API's inbox, the availability editor, the lists with filters and the export of the reports
  (\<^verbatim>\<open>apps/web/src/app\<close> and \<^verbatim>\<open>apps/web/src/components\<close>). What they draw is not modelled.
\<close>

subsection \<open>The command palette\<close>

record palette_item =
  it_label :: string
  it_href :: string
  it_description :: string

definition palette_items :: "palette_item list" where
  "palette_items =
    [\<lparr>it_label = ''Dashboard'', it_href = ''/dashboard'', it_description = ''Overview of bookings and KPIs''\<rparr>,
     \<lparr>it_label = ''Calendar'', it_href = ''/calendar'', it_description = ''Month / week / day view''\<rparr>,
     \<lparr>it_label = ''Bookings'', it_href = ''/bookings'', it_description = ''My appointments list''\<rparr>,
     \<lparr>it_label = ''Appointments'', it_href = ''/appointments'', it_description = ''Appoint directory with filters''\<rparr>,
     \<lparr>it_label = ''Clients'', it_href = ''/clients'', it_description = ''Client CRM directory''\<rparr>,
     \<lparr>it_label = ''Event Types'', it_href = ''/event-types'', it_description = ''Manage event types''\<rparr>,
     \<lparr>it_label = ''Availability'', it_href = ''/availability'', it_description = ''Weekly availability rules''\<rparr>,
     \<lparr>it_label = ''Settings'', it_href = ''/settings'', it_description = ''Profile & provider settings''\<rparr>,
     \<lparr>it_label = ''New Appointment'', it_href = ''/book'', it_description = ''Book a new slot''\<rparr>]"

record palette =
  pl_open :: bool
  pl_query :: string
  pl_selected :: nat

datatype palette_event =
    Shortcut | Escape_Key | Arrow_Down | Arrow_Up | Enter_Key | Open_Button | Backdrop
  | Typed string | Clicked nat

definition closed_palette :: palette where
  "closed_palette = \<lparr>pl_open = False, pl_query = [], pl_selected = 0\<rparr>"

definition palette_matches :: "web_host \<Rightarrow> string \<Rightarrow> palette_item \<Rightarrow> bool" where
  "palette_matches H q i \<longleftrightarrow> str_includes (to_lower H q) (to_lower H (it_label i))
     \<or> str_includes (to_lower H q) (to_lower H (it_description i))"

definition palette_results :: "web_host \<Rightarrow> palette \<Rightarrow> palette_item list" where
  "palette_results H p = (let found = filter (palette_matches H (pl_query p)) palette_items in
     if found \<noteq> [] then found else palette_items)"

text \<open>The effect on \<open>open\<close> clears the query and the selection when the palette opens.\<close>

definition set_open :: "bool \<Rightarrow> palette \<Rightarrow> palette" where
  "set_open b p = (if b \<and> \<not> pl_open p then \<lparr>pl_open = True, pl_query = [], pl_selected = 0\<rparr> else p\<lparr>pl_open := b\<rparr>)"

text \<open>The state after an event, and the address navigated to. Typing and clicking need the dialog.\<close>

definition palette_step :: "web_host \<Rightarrow> palette \<Rightarrow> palette_event \<Rightarrow> palette \<times> string option" where
  "palette_step H p ev = (let rs = palette_results H p; k = pl_selected p in
     case ev of
       Shortcut \<Rightarrow> (set_open (\<not> pl_open p) p, None)
     | Escape_Key \<Rightarrow> (set_open False p, None)
     | Open_Button \<Rightarrow> (set_open True p, None)
     | Backdrop \<Rightarrow> (set_open False p, None)
     | Arrow_Down \<Rightarrow> (if pl_open p then p\<lparr>pl_selected := (k + 1) mod length rs\<rparr> else p, None)
     | Arrow_Up \<Rightarrow> (if pl_open p then p\<lparr>pl_selected := (k + length rs - 1) mod length rs\<rparr> else p, None)
     | Enter_Key \<Rightarrow> if pl_open p \<and> k < length rs then (set_open False p, Some (it_href (rs ! k))) else (p, None)
     | Typed q \<Rightarrow> (if pl_open p then p\<lparr>pl_query := q, pl_selected := 0\<rparr> else p, None)
     | Clicked i \<Rightarrow> if pl_open p \<and> i < length rs then (set_open False p, Some (it_href (rs ! i))) else (p, None))"

definition palette_run :: "web_host \<Rightarrow> palette_event list \<Rightarrow> palette" where
  "palette_run H evs = foldl (\<lambda>p ev. fst (palette_step H p ev)) closed_palette evs"

lemma palette_results_nonempty: "palette_results H p \<noteq> []"
  by (simp add: palette_results_def palette_items_def Let_def)

lemma palette_results_listed: "set (palette_results H p) \<subseteq> set palette_items"
  by (auto simp: palette_results_def Let_def split: if_splits)

lemma palette_results_query: "palette_results H (p\<lparr>pl_selected := k\<rparr>) = palette_results H p"
    "palette_results H (p\<lparr>pl_open := b\<rparr>) = palette_results H p"
  by (simp_all add: palette_results_def)

lemma palette_step_selected:
  assumes "pl_selected p < length (palette_results H p)"
  shows "pl_selected (fst (palette_step H p ev)) < length (palette_results H (fst (palette_step H p ev)))"
proof -
  have pos: "0 < length (palette_results H p')" for p' using palette_results_nonempty by blast
  show ?thesis
    using assms pos
    by (cases ev) (auto simp: palette_step_def set_open_def Let_def palette_results_query simp del: length_greater_0_conv)
qed

lemma palette_run_selected: "pl_selected (palette_run H evs) < length (palette_results H (palette_run H evs))"
proof (induction evs rule: rev_induct)
  case Nil
  show ?case using palette_results_nonempty by (simp add: palette_run_def closed_palette_def)
next
  case (snoc ev evs)
  then show ?case using palette_step_selected by (simp add: palette_run_def)
qed

text \<open>Whatever the keys and clicks, the selection of the command palette lies within the list it shows, so
  \<open>results[selected]\<close> never reads past it: while it is open, Enter always closes it and leads to the address of the
  selected entry, and where an entry matches the query, the selected one does.\<close>

theorem palette_enter_selected:
  assumes "p = palette_run H evs" "pl_open p"
  shows "pl_selected p < length (palette_results H p)
    \<and> palette_step H p Enter_Key = (p\<lparr>pl_open := False\<rparr>, Some (it_href (palette_results H p ! pl_selected p)))
    \<and> ((\<exists>i \<in> set palette_items. palette_matches H (pl_query p) i)
        \<longrightarrow> palette_matches H (pl_query p) (palette_results H p ! pl_selected p))"
proof -
  have k: "pl_selected p < length (palette_results H p)" using palette_run_selected assms(1) by simp
  then have "palette_results H p ! pl_selected p \<in> set (palette_results H p)" by simp
  moreover have "\<forall>i \<in> set (palette_results H p). palette_matches H (pl_query p) i"
    if "\<exists>i \<in> set palette_items. palette_matches H (pl_query p) i"
    using that by (auto simp: palette_results_def Let_def filter_empty_conv)
  ultimately show ?thesis using k assms(2) by (auto simp: palette_step_def set_open_def Let_def)
qed

lemma includes_nil: "str_includes [] s"
  unfolding includes_iff by (metis append_Nil)

lemma palette_results_empty_query: "to_lower H [] = [] \<Longrightarrow> pl_query p = [] \<Longrightarrow> palette_results H p = palette_items"
proof -
  assume "to_lower H [] = []" "pl_query p = []"
  then have "filter (palette_matches H (pl_query p)) palette_items = palette_items"
    by (intro filter_True) (simp add: palette_matches_def includes_nil)
  then show ?thesis by (simp add: palette_results_def Let_def)
qed

lemma palette_length: "length palette_items = 9" "it_href (palette_items ! 8) = ''/book''"
  by (simp_all add: palette_items_def)

lemma demo_lower_nil: "to_lower demo_web [] = []"
  by (simp add: demo_web_def)

lemma demo_palette:
  "palette_run demo_web [Shortcut, Arrow_Up] = \<lparr>pl_open = True, pl_query = [], pl_selected = 8\<rparr>"
  by (simp add: palette_run_def palette_step_def set_open_def closed_palette_def Let_def palette_length
      palette_results_empty_query [OF demo_lower_nil])

theorem palette_enter_selected_witness:
  "palette_step demo_web (palette_run demo_web [Shortcut, Arrow_Up]) Enter_Key
     = (\<lparr>pl_open = False, pl_query = [], pl_selected = 8\<rparr>, Some ''/book'')"
  using palette_enter_selected [OF refl, of demo_web "[Shortcut, Arrow_Up]"]
  by (simp add: demo_palette palette_results_empty_query [OF demo_lower_nil] palette_length)

subsection \<open>The notification panel\<close>

record panel =
  np_open :: bool
  np_list :: "note_row list"
  np_unread :: nat
  np_loading :: bool

definition closed_panel :: panel where
  "closed_panel = \<lparr>np_open = False, np_list = [], np_unread = 0, np_loading = False\<rparr>"

text \<open>What becomes of a request: an answer comes back, the answer is lost, or the request does not arrive.\<close>

datatype link = Up | Answer_Lost | Down

datatype panel_event = Open_Panel | Click_Note string | Mark_All_Button | Close_Panel

definition fetchNotifications :: "link \<Rightarrow> string option \<Rightarrow> 'q env \<Rightarrow> panel \<Rightarrow> 'q world \<Rightarrow> panel \<times> 'q world" where
  "fetchNotifications l cookie e p w = (let quiet = p\<lparr>np_loading := False\<rparr> in
     case l of Down \<Rightarrow> (quiet, w)
     | Answer_Lost \<Rightarrow> (quiet, snd (notes_list cookie e w))
     | Up \<Rightarrow> (case notes_list cookie e w of
         (Inr (ns, k), w') \<Rightarrow> (quiet\<lparr>np_list := ns, np_unread := k\<rparr>, w')
       | (Inl _, w') \<Rightarrow> (quiet, w')))"

text \<open>Any answer, a refusal too, is taken for a success.\<close>

definition panel_markRead ::
    "link \<Rightarrow> string \<Rightarrow> string option \<Rightarrow> 'q env \<Rightarrow> panel \<Rightarrow> 'q world \<Rightarrow> panel \<times> 'q world" where
  "panel_markRead l i cookie e p w =
     (case l of Down \<Rightarrow> (p, w)
      | Answer_Lost \<Rightarrow> (p, snd (notes_readOne i cookie e w))
      | Up \<Rightarrow> (p\<lparr>np_list := map (\<lambda>n. if n_id n = i then n\<lparr>n_read := True\<rparr> else n) (np_list p), np_unread := np_unread p - 1\<rparr>,
          snd (notes_readOne i cookie e w)))"

definition panel_markAllRead :: "link \<Rightarrow> string option \<Rightarrow> 'q env \<Rightarrow> panel \<Rightarrow> 'q world \<Rightarrow> panel \<times> 'q world" where
  "panel_markAllRead l cookie e p w =
     (case l of Down \<Rightarrow> (p, w)
      | Answer_Lost \<Rightarrow> (p, snd (notes_readAll cookie e w))
      | Up \<Rightarrow> (p\<lparr>np_list := map (\<lambda>n. n\<lparr>n_read := True\<rparr>) (np_list p), np_unread := 0\<rparr>, snd (notes_readAll cookie e w)))"

text \<open>The buttons: only unread entries react to a click.\<close>

definition panel_step ::
    "panel_event \<Rightarrow> link \<Rightarrow> string option \<Rightarrow> 'q env \<Rightarrow> panel \<Rightarrow> 'q world \<Rightarrow> panel \<times> 'q world" where
  "panel_step ev l cookie e p w = (case ev of
       Open_Panel \<Rightarrow> fetchNotifications l cookie e (p\<lparr>np_open := True, np_loading := True\<rparr>) w
     | Click_Note i \<Rightarrow> if np_open p \<and> (\<exists>n \<in> set (np_list p). n_id n = i \<and> \<not> n_read n) then panel_markRead l i cookie e p w else (p, w)
     | Mark_All_Button \<Rightarrow> if np_open p then panel_markAllRead l cookie e p w else (p, w)
     | Close_Panel \<Rightarrow> (p\<lparr>np_open := False\<rparr>, w))"

definition panel_ok :: "panel \<Rightarrow> bool" where
  "panel_ok p \<longleftrightarrow> distinct (map n_id (np_list p)) \<and> np_unread p = length (filter (\<lambda>n. \<not> n_read n) (np_list p))"

definition notes_distinct :: "tables \<Rightarrow> bool" where
  "notes_distinct t \<longleftrightarrow> distinct (map n_id (notifs t))"

lemma distinct_map_latest:
  "distinct (map f xs) \<Longrightarrow> distinct (map f (latest g (filter P xs)))"
  unfolding latest_def take_map [symmetric]
  by (intro distinct_take) (simp add: distinct_map inj_on_def)

lemma wp_notes_list_panel:
  assumes "idle T w" "notes_distinct T"
  shows "wp (notes_list cookie) (\<lambda>(ns, k) w'. idle T w' \<and> distinct (map n_id ns) \<and> k = length (filter (\<lambda>n. \<not> n_read n) ns))
    (\<lambda>_ w'. idle T w') e w"
  unfolding notes_list_def listForClient_def using assms(2)
  by (auto simp: assms(1) notes_distinct_def distinct_map_latest split: option.split intro!: wp_sel_idle [OF assms(1)])

lemma mark_one_count:
  "distinct (map n_id ns) \<Longrightarrow> n \<in> set ns \<Longrightarrow> \<not> n_read n \<Longrightarrow>
     length (filter (\<lambda>x. \<not> n_read x) (map (\<lambda>x. if n_id x = n_id n then x\<lparr>n_read := True\<rparr> else x) ns))
       = length (filter (\<lambda>x. \<not> n_read x) ns) - 1"
proof (induction ns)
  case (Cons a ns)
  show ?case
  proof (cases "n_id a = n_id n")
    case True
    with Cons.prems have "a = n" "\<forall>x \<in> set ns. n_id x \<noteq> n_id n" by (auto simp: image_iff)
    moreover from this have "map (\<lambda>x. if n_id x = n_id n then x\<lparr>n_read := True\<rparr> else x) ns = ns" by (simp add: map_idI)
    ultimately show ?thesis using Cons.prems by simp
  next
    case False
    with Cons.prems have n: "n \<in> set ns" by auto
    then have "0 < length (filter (\<lambda>x. \<not> n_read x) ns)" using Cons.prems(3) by (auto simp: filter_empty_conv)
    with False Cons.IH [OF _ n Cons.prems(3)] Cons.prems(1) show ?thesis by simp
  qed
qed simp

lemma mark_one_ids:
  "map n_id (map (\<lambda>x. if n_id x = i then x\<lparr>n_read := True\<rparr> else x) ns) = map n_id ns"
  "map n_id (map (\<lambda>x. x\<lparr>n_read := True\<rparr>) ns) = map n_id ns"
  by simp_all

lemma panel_step_ok:
  assumes "idle T w" "notes_distinct T" "panel_ok p"
  shows "panel_ok (fst (panel_step ev l cookie e p w))"
proof (cases ev)
  case Open_Panel
  obtain r w' where run: "notes_list cookie e w = (r, w')" by fastforce
  show ?thesis
    using wp_notes_list_panel [OF assms(1,2), of cookie e] assms(3)
    by (cases l; cases r)
      (auto simp: Open_Panel panel_step_def fetchNotifications_def panel_ok_def Let_def wp_def run split: prod.splits)
next
  case (Click_Note i)
  show ?thesis
  proof (cases "np_open p \<and> (\<exists>n \<in> set (np_list p). n_id n = i \<and> \<not> n_read n)")
    case True
    then obtain n where n: "n \<in> set (np_list p)" "\<not> n_read n" "i = n_id n" by blast
    have "distinct (map n_id (np_list p))" using assms(3) by (simp add: panel_ok_def)
    from mark_one_count [OF this n(1,2)] show ?thesis
      using True assms(3)
      by (cases l) (simp_all add: Click_Note panel_step_def panel_markRead_def panel_ok_def n(3) mark_one_ids del: map_map)
  next
    case False
    then show ?thesis using assms(3) by (auto simp: Click_Note panel_step_def)
  qed
next
  case Mark_All_Button
  then show ?thesis using assms(3)
    by (cases l) (auto simp: panel_step_def panel_markAllRead_def panel_ok_def comp_def)
next
  case Close_Panel
  then show ?thesis using assms(3) by (simp add: panel_step_def panel_ok_def)
qed

lemma marked_for_trans:
  assumes "marked_for c T T1" "marked_for c T1 T2"
  shows "marked_for c T T2"
proof -
  obtain P R where P: "\<forall>n. P n \<longrightarrow> c \<noteq> None \<and> n_client n = c" "T1 = T\<lparr>notifs := upd_where P (\<lambda>x. x\<lparr>n_read := True\<rparr>) (notifs T)\<rparr>"
    and R: "\<forall>n. R n \<longrightarrow> c \<noteq> None \<and> n_client n = c" "T2 = T1\<lparr>notifs := upd_where R (\<lambda>x. x\<lparr>n_read := True\<rparr>) (notifs T1)\<rparr>"
    using assms unfolding marked_for_def by blast
  let ?Q = "\<lambda>n. P n \<or> R (if P n then n\<lparr>n_read := True\<rparr> else n)"
  have "upd_where R (\<lambda>x. x\<lparr>n_read := True\<rparr>) (upd_where P (\<lambda>x. x\<lparr>n_read := True\<rparr>) ns)
      = upd_where ?Q (\<lambda>x. x\<lparr>n_read := True\<rparr>) ns" for ns
    by (induction ns) (auto simp: upd_where_def)
  moreover have "?Q n \<longrightarrow> c \<noteq> None \<and> n_client n = c" for n using P(1) R(1) by auto
  ultimately show ?thesis unfolding marked_for_def using P(2) R(2) by (intro exI [of _ ?Q]) simp
qed

lemma marked_for_distinct: "marked_for c T T' \<Longrightarrow> notes_distinct T \<Longrightarrow> notes_distinct T'"
  by (auto simp: marked_for_def notes_distinct_def upd_where_def comp_def if_distrib cong: if_cong)

lemma panel_step_marks:
  assumes "idle T w"
  shows "marks_own (inbox_client cookie) T (snd (panel_step ev l cookie e p w))"
proof -
  have list: "marks_own (inbox_client cookie) T (snd (notes_list cookie e w))"
    using wp_notes_list [OF assms, of cookie e] by (auto simp: wp_def marks_own_idle split: prod.splits sum.splits)
  have one: "marks_own (inbox_client cookie) T (snd (notes_readOne i cookie e w))" for i
    using wp_readOne [OF assms, of i cookie e] by (auto simp: wp_snd)
  have all: "marks_own (inbox_client cookie) T (snd (notes_readAll cookie e w))"
    using wp_readAll [OF assms, of cookie e] by (auto simp: wp_snd)
  note parts = panel_step_def fetchNotifications_def panel_markRead_def panel_markAllRead_def Let_def marks_own_idle [OF assms]
  show ?thesis
    using list one all
    by (cases ev; cases l) (auto simp: parts split: prod.splits sum.splits)
qed

definition panel_run ::
    "(panel_event \<times> link) list \<Rightarrow> string option \<Rightarrow> 'q env \<Rightarrow> panel \<times> 'q world \<Rightarrow> panel \<times> 'q world" where
  "panel_run evs cookie e = (\<lambda>pw. foldl (\<lambda>(p, w) (ev, l). panel_step ev l cookie e p w) pw evs)"

lemma panel_run_inv:
  assumes "idle T w" "notes_distinct T" "panel_ok p"
  shows "case panel_run evs cookie e (p, w) of (p', w') \<Rightarrow> panel_ok p' \<and> marks_own (inbox_client cookie) T w'"
  using assms
proof (induction evs arbitrary: T p w)
  case Nil
  then show ?case by (simp add: panel_run_def marks_own_idle)
next
  case (Cons a evs)
  obtain ev l where a: "a = (ev, l)" by (cases a)
  obtain p1 w1 where step: "panel_step ev l cookie e p w = (p1, w1)" by fastforce
  obtain T1 where T1: "idle T1 w1" "marked_for (inbox_client cookie) T T1"
    using panel_step_marks [OF Cons.prems(1), of cookie ev l e p] step by (auto simp: marks_own_def)
  have "panel_ok p1" using panel_step_ok [OF Cons.prems, of ev l cookie e] step by simp
  from Cons.IH [OF T1(1) marked_for_distinct [OF T1(2) Cons.prems(2)] this]
  show ?case using T1(2)
    by (auto simp: panel_run_def a step marks_own_def intro: marked_for_trans split: prod.splits)
qed

text \<open>However the panel is used and whatever requests or answers are lost, its badge is the number of entries it
  shows as unread, and the tables differ from the earlier ones in marks on the client's own notifications only.\<close>

theorem panel_badge_counts:
  assumes "idle T w" "notes_distinct T"
  shows "case panel_run evs cookie e (closed_panel, w) of (p, w') \<Rightarrow>
     np_unread p = length (filter (\<lambda>n. \<not> n_read n) (np_list p)) \<and> marked_for (inbox_client cookie) T (committed w')"
proof -
  have "panel_ok closed_panel" by (simp add: closed_panel_def panel_ok_def)
  from panel_run_inv [OF assms this, where evs = evs and cookie = cookie and e = e] show ?thesis
    by (auto simp: panel_ok_def marks_own_def idle_committed split: prod.splits)
qed

text \<open>The panel takes a refusal for a success: with no session every entry it shows is marked, and nothing is stored.\<close>

lemma panel_trusts_refusal:
  assumes "inbox_client cookie = None" "np_open p" "n \<in> set (np_list p)" "\<not> n_read n"
  shows "case panel_step (Click_Note (n_id n)) Up cookie e p w of (p', w') \<Rightarrow>
     w' = w \<and> (\<forall>n' \<in> set (np_list p'). n_id n' = n_id n \<longrightarrow> n_read n')"
  using assms by (auto simp: panel_step_def panel_markRead_def notes_readOne_def prog_simps)

theorem panel_badge_counts_witness:
  "case panel_run [(Open_Panel, Up), (Click_Note ''n1'', Up)] (Some ''chronos_session=c1'') demo_env (closed_panel, inbox_world) of
     (p, w') \<Rightarrow> np_unread p = 0 \<and> marked_for (Some ''c1'') inbox_tables (committed w')"
proof -
  let ?evs = "[(Open_Panel, Up), (Click_Note ''n1'', Up)]" and ?c = "Some ''chronos_session=c1''"
  have idle: "idle inbox_tables inbox_world" by (simp add: idle_def inbox_world_def demo_world_def)
  have d: "notes_distinct inbox_tables" by (simp add: notes_distinct_def inbox_tables_def)
  have unread: "np_unread (fst (panel_run ?evs ?c demo_env (closed_panel, inbox_world))) = 0" by code_simp
  from panel_badge_counts [OF idle d, where evs = ?evs and cookie = ?c and e = demo_env] unread show ?thesis
    by (auto simp: inbox_demo_client split: prod.splits)
qed

end
