(* ===== verification/Web_Lists.thy ===== *)
theory Web_Lists
  imports Web_Pages
begin

text \<open>
  Lists and forms of the web application: the availability editor, the export of the reports as comma-separated
  values, the filters of bookings, clients and event types, the figures of the dashboard, the search page and
  the login page (\<^verbatim>\<open>apps/web/src/app\<close>). What they draw is not modelled.
\<close>

subsection \<open>The availability editor\<close>

text \<open>\<open>xs.map((x, idx) => idx === i ? f(x) : x)\<close>\<close>

definition map_nth :: "nat \<Rightarrow> ('a \<Rightarrow> 'a) \<Rightarrow> 'a list \<Rightarrow> 'a list" where
  "map_nth i f xs = map (\<lambda>(idx, x). if idx = i then f x else x) (enumerate 0 xs)"

record day_hours =
  dh_label :: string
  dh_active :: bool
  dh_slots :: "(string \<times> string) list"

definition DAYS :: "day_hours list" where
  "DAYS =
    [\<lparr>dh_label = ''Monday'', dh_active = True, dh_slots = [(''09:00'', ''17:00'')]\<rparr>,
     \<lparr>dh_label = ''Tuesday'', dh_active = True, dh_slots = [(''09:00'', ''17:00'')]\<rparr>,
     \<lparr>dh_label = ''Wednesday'', dh_active = True, dh_slots = [(''09:00'', ''17:00'')]\<rparr>,
     \<lparr>dh_label = ''Thursday'', dh_active = True, dh_slots = [(''09:00'', ''17:00'')]\<rparr>,
     \<lparr>dh_label = ''Friday'', dh_active = True, dh_slots = [(''09:00'', ''15:00'')]\<rparr>,
     \<lparr>dh_label = ''Saturday'', dh_active = False, dh_slots = []\<rparr>,
     \<lparr>dh_label = ''Sunday'', dh_active = False, dh_slots = []\<rparr>]"

record editor =
  ed_schedule :: "day_hours list"
  ed_tz :: string
  ed_buffer :: string
  ed_notice :: string
  ed_toasted :: bool

definition initial_editor :: editor where
  "initial_editor = \<lparr>ed_schedule = DAYS, ed_tz = ''GMT-4'', ed_buffer = ''15'', ed_notice = ''4'', ed_toasted = False\<rparr>"

definition edit_schedule :: "(day_hours list \<Rightarrow> day_hours list) \<Rightarrow> editor \<Rightarrow> editor" where
  "edit_schedule f ed = ed\<lparr>ed_schedule := f (ed_schedule ed)\<rparr>"

definition toggleDay :: "nat \<Rightarrow> editor \<Rightarrow> editor" where
  "toggleDay i = edit_schedule (map_nth i (\<lambda>s. s\<lparr>dh_active := \<not> dh_active s\<rparr>))"

definition addSlot :: "nat \<Rightarrow> editor \<Rightarrow> editor" where
  "addSlot i = edit_schedule (map_nth i (\<lambda>s. s\<lparr>dh_slots := dh_slots s @ [(''09:00'', ''17:00'')]\<rparr>))"

definition removeSlot :: "nat \<Rightarrow> nat \<Rightarrow> editor \<Rightarrow> editor" where
  "removeSlot i si = edit_schedule (map_nth i (\<lambda>s. s\<lparr>dh_slots := map snd (filter (\<lambda>(j, _). j \<noteq> si) (enumerate 0 (dh_slots s)))\<rparr>))"

text \<open>The start is set with \<open>True\<close>, the end with \<open>False\<close>.\<close>

definition setSlot :: "nat \<Rightarrow> nat \<Rightarrow> bool \<Rightarrow> string \<Rightarrow> editor \<Rightarrow> editor" where
  "setSlot i si start v = edit_schedule (map_nth i (\<lambda>s. s\<lparr>dh_slots :=
     map_nth si (\<lambda>(a, b). if start then (v, b) else (a, v)) (dh_slots s)\<rparr>))"

text \<open>The provider's profile, when it comes back: \<open>d && d.minimumBookingNotice !== undefined\<close> and its other name.\<close>

definition load_notice :: "web_host \<Rightarrow> js \<Rightarrow> editor \<Rightarrow> editor" where
  "load_notice H d ed =
     (case (if js_true d then sbind (member ''minimumBookingNotice'' d) (\<lambda>m. sbind (member ''minimum_booking_notice'' d) (\<lambda>n. Inr (m, n)))
            else Inr (None, None)) of
        Inl _ \<Rightarrow> ed
      | Inr (m, n) \<Rightarrow> if m \<noteq> None then ed\<lparr>ed_notice := js_string H m\<rparr>
          else if n \<noteq> None then ed\<lparr>ed_notice := js_string H n\<rparr> else ed)"

text \<open>\<open>Number(notice) || 4\<close>\<close>

definition save_body :: "directory_host \<Rightarrow> string \<Rightarrow> jv" where
  "save_body H notice = JObj [(''minimumBookingNotice'', JNum (case number_value H (JStr notice) of None \<Rightarrow> 4
     | Some r \<Rightarrow> if r = 0 then 4 else r))]"

text \<open>Saving: the editor, whether the alert is shown, and what the request reached.\<close>

definition editor_save :: "directory_host \<Rightarrow> 's net \<Rightarrow> editor \<Rightarrow> 's \<Rightarrow> editor \<times> bool \<times> 's" where
  "editor_save H F ed s =
     (case apiFetch F ''/providers/me'' \<lparr>fo_method = ''PATCH'', fo_body = Some (save_body H (ed_notice ed)),
         fo_headers = json_header, fo_key = None\<rparr> s of
        (Inr res, s') \<Rightarrow> if http_ok res then (ed\<lparr>ed_toasted := True\<rparr>, False, s') else (ed, True, s')
      | (Inl _, s') \<Rightarrow> (ed, True, s'))"

lemma map_nth_list_update: "map_nth i f xs = (if i < length xs then xs[i := f (xs ! i)] else xs)"
  by (rule nth_equalityI) (auto simp: map_nth_def nth_list_update nth_enumerate_eq)

lemma map_nth_twice: "map_nth i f (map_nth i g xs) = map_nth i (f \<circ> g) xs"
  by (simp add: map_nth_list_update)

lemma map_nth_same: "(\<And>x. f x = x) \<Longrightarrow> map_nth i f xs = xs"
  by (simp add: map_nth_list_update)

lemma toggleDay_twice: "toggleDay i (toggleDay i ed) = ed"
  by (simp add: toggleDay_def edit_schedule_def map_nth_twice map_nth_same)

lemma remove_last: "map snd (filter (\<lambda>(j, _). j \<noteq> length xs) (enumerate 0 (xs @ [x]))) = xs"
proof -
  have "filter (\<lambda>(j, _). j \<noteq> length xs) (enumerate 0 xs) = enumerate 0 xs"
    by (intro filter_True) (auto simp: in_set_enumerate_eq)
  then show ?thesis by (simp add: enumerate_append_eq)
qed

lemma remove_added:
  assumes "i < length (ed_schedule ed)"
  shows "removeSlot i (length (dh_slots (ed_schedule ed ! i))) (addSlot i ed) = ed"
  using assms by (simp add: removeSlot_def addSlot_def edit_schedule_def map_nth_list_update remove_last)

text \<open>The hours, the zone and the buffer are never part of what is saved.\<close>

lemma save_drops_schedule:
  "editor_save H F (ed\<lparr>ed_schedule := x, ed_tz := z, ed_buffer := b\<rparr>) s
     = (case editor_save H F ed s of (ed', r) \<Rightarrow> (ed'\<lparr>ed_schedule := x, ed_tz := z, ed_buffer := b\<rparr>, r))"
  by (auto simp: editor_save_def split: prod.splits sum.splits)

subsection \<open>Exporting reports\<close>

text \<open>\<open>new Date(x).toISOString()\<close> of a value that counts as true, the empty text otherwise.\<close>

definition iso_or_empty :: "web_host \<Rightarrow> js \<Rightarrow> js_error + js" where
  "iso_or_empty H x = (case x of Some v \<Rightarrow>
       if js_true x then (case date_value H v of None \<Rightarrow> Inl Range_Error | Some t \<Rightarrow> Inr (Some (JStr (toISOString t))))
       else empty_text
     | None \<Rightarrow> empty_text)"

definition export_row :: "web_host \<Rightarrow> jv \<Rightarrow> js_error + string list" where
  "export_row H v = (let b = Some v in
     sbind (member ''id'' b) (\<lambda>i.
     sbind (member ''status'' b) (\<lambda>st.
     sbind (first_true [member ''clientName'' b, empty_text]) (\<lambda>name.
     sbind (first_true [member ''eventType'' b, empty_text]) (\<lambda>ev.
     sbind (sbind (member ''createdAt'' b) (iso_or_empty H)) (\<lambda>created.
     sbind (sbind (member ''slotStartUtc'' b) (iso_or_empty H)) (\<lambda>start.
     sbind (member ''revenue'' b) (\<lambda>rev.
     Inr (map (js_string H) [i, st, name, ev, created, start, if rev \<in> {None, Some JNull} then Some (JNum 0) else rev])))))))))"

definition csv_field :: "string \<Rightarrow> string" where
  "csv_field s = CHR 0x22 # concat (map (\<lambda>c. if c = CHR 0x22 then [CHR 0x22, CHR 0x22] else [c]) s) @ [CHR 0x22]"

fun sep_join :: "string \<Rightarrow> string list \<Rightarrow> string" where
  "sep_join sep [] = []"
| "sep_join sep [x] = x"
| "sep_join sep (x # xs) = x @ sep @ sep_join sep xs"

definition export_header :: "string list" where
  "export_header = [''id'', ''status'', ''clientName'', ''eventType'', ''date'', ''slotStartUtc'', ''revenue'']"

definition csv_line :: "string list \<Rightarrow> string" where
  "csv_line fs = sep_join '','' (map csv_field fs)"

definition handleExport :: "web_host \<Rightarrow> jv list \<Rightarrow> js_error + string" where
  "handleExport H items = sbind (js_map (export_row H) items) (\<lambda>rows.
     Inr (sep_join [CHR 0x0A] (sep_join '','' export_header # map csv_line rows)))"

text \<open>The figures beside the export: \<open>data.breakdown\<close> when it is an array, and the rate of cancellations.\<close>

definition report_bookings :: "js \<Rightarrow> jv list" where
  "report_bookings data = (case maybe_member ''breakdown'' data of Inr (Some (JArr bs)) \<Rightarrow> bs | _ \<Rightarrow> [])"

definition count_status :: "string \<Rightarrow> jv list \<Rightarrow> nat" where
  "count_status st bs = length (filter (\<lambda>b. member ''status'' (Some b) = Inr (Some (JStr st))) bs)"

definition cancellation_rate :: "jv list \<Rightarrow> string" where
  "cancellation_rate bs = (if bs \<noteq> [] then int_text (percent (count_status ''cancelled'' bs) (length bs)) @ ''%'' else ''0%'')"

text \<open>Reading comma-separated values as RFC 4180 writes them: the mode inside quotes, the field and the record
  read so far, both reversed.\<close>

fun csv_read :: "bool \<Rightarrow> string \<Rightarrow> string list \<Rightarrow> string \<Rightarrow> string list list" where
  "csv_read q acc fs [] = [rev (rev acc # fs)]"
| "csv_read False acc fs (c # r) =
     (if c = CHR 0x22 then csv_read True acc fs r
      else if c = CHR '','' then csv_read False [] (rev acc # fs) r
      else if c = CHR 0x0A then rev (rev acc # fs) # csv_read False [] [] r
      else csv_read False (c # acc) fs r)"
| "csv_read True acc fs (c # r) =
     (if c \<noteq> CHR 0x22 then csv_read True (c # acc) fs r
      else (case r of d # r' \<Rightarrow> if d = CHR 0x22 then csv_read True (d # acc) fs r' else csv_read False acc fs (d # r')
        | [] \<Rightarrow> csv_read False acc fs []))"

definition csv_rows :: "string \<Rightarrow> string list list" where
  "csv_rows doc = csv_read False [] [] doc"

lemma csv_read_quoted:
  assumes "r = [] \<or> hd r \<noteq> CHR 0x22"
  shows "csv_read True acc fs (concat (map (\<lambda>c. if c = CHR 0x22 then [CHR 0x22, CHR 0x22] else [c]) s) @ CHR 0x22 # r)
    = csv_read False (rev s @ acc) fs r"
  using assms by (induction s arbitrary: acc) (auto split: list.splits)

lemma csv_read_field:
  "r = [] \<or> hd r \<noteq> CHR 0x22 \<Longrightarrow> csv_read False [] fs (csv_field s @ r) = csv_read False (rev s) fs r"
  using csv_read_quoted [of r "[]" fs s] by (simp add: csv_field_def)

lemma csv_read_plain:
  "set s \<inter> {CHR 0x22, CHR '','', CHR 0x0A} = {} \<Longrightarrow> csv_read False acc fs (s @ r) = csv_read False (rev s @ acc) fs r"
  by (induction s arbitrary: acc) auto

lemma csv_read_line:
  assumes "ss \<noteq> []" "r = [] \<or> hd r = CHR 0x0A"
  shows "csv_read False [] fs (csv_line ss @ r)
    = (case r of [] \<Rightarrow> [rev fs @ ss] | _ # r' \<Rightarrow> (rev fs @ ss) # csv_read False [] [] r')"
  using assms
proof (induction ss arbitrary: fs rule: induct_list012)
  case (2 x)
  then show ?case using csv_read_field [of r fs x] by (auto simp: csv_line_def split: list.splits)
next
  case (3 x y zs)
  have "csv_read False [] fs (csv_line (x # y # zs) @ r) = csv_read False [] (x # fs) (csv_line (y # zs) @ r)"
    using csv_read_field [of "'','' @ csv_line (y # zs) @ r" fs x] by (simp add: csv_line_def)
  with 3 show ?case by (simp split: list.splits)
qed simp

lemma csv_read_lines:
  assumes "\<forall>ss \<in> set rows. ss \<noteq> []" "rows \<noteq> []"
  shows "csv_read False [] [] (sep_join [CHR 0x0A] (map csv_line rows)) = rows"
  using assms
proof (induction rows rule: induct_list012)
  case (2 x)
  then show ?case using csv_read_line [of x "[]" "[]"] by simp
next
  case (3 x y zs)
  then show ?case using csv_read_line [of x "CHR 0x0A # sep_join [CHR 0x0A] (map csv_line (y # zs))" "[]"] by simp
qed simp

lemma sep_join_Cons: "xs \<noteq> [] \<Longrightarrow> sep_join sep (x # xs) = x @ sep @ sep_join sep xs"
  by (cases xs) simp_all

lemma csv_read_header:
  assumes "r = [] \<or> hd r = CHR 0x0A"
  shows "csv_read False [] [] (sep_join '','' export_header @ r)
    = (case r of [] \<Rightarrow> [export_header] | _ # r' \<Rightarrow> export_header # csv_read False [] [] r')"
  using assms by (cases r) (auto simp: export_header_def)

lemma export_rows_nonempty: "js_map (export_row H) items = Inr rows \<Longrightarrow> ss \<in> set rows \<Longrightarrow> length ss = 7"
proof -
  assume "js_map (export_row H) items = Inr rows" "ss \<in> set rows"
  then obtain v where "export_row H v = Inr ss" using js_map_Inr by (fastforce simp: list_all2_conv_all_nth in_set_conv_nth)
  then show "length ss = 7" by (auto simp: export_row_def Let_def sbind_Inr_iff)
qed

text \<open>C38. The export can be read back: whatever quotes, commas and line breaks the names and services hold, a reader of
  comma-separated values finds the header and then, for every booking in its order, exactly the seven texts the page took from it.\<close>

theorem export_roundtrip:
  assumes "handleExport H items = Inr doc"
  shows "\<exists>rows. js_map (export_row H) items = Inr rows \<and> length rows = length items
    \<and> csv_rows doc = export_header # rows"
proof -
  obtain rows where rows: "js_map (export_row H) items = Inr rows"
    and doc: "doc = sep_join [CHR 0x0A] (sep_join '','' export_header # map csv_line rows)"
    using assms by (auto simp: handleExport_def sbind_Inr_iff)
  have "csv_rows doc = export_header # rows"
  proof (cases "rows = []")
    case True
    then show ?thesis using csv_read_header [of "[]"] by (simp add: doc csv_rows_def)
  next
    case False
    have "\<forall>ss \<in> set rows. ss \<noteq> []" using export_rows_nonempty [OF rows] by fastforce
    with False csv_read_lines csv_read_header [of "CHR 0x0A # sep_join [CHR 0x0A] (map csv_line rows)"]
    show ?thesis by (simp add: doc csv_rows_def sep_join_Cons)
  qed
  moreover have "length rows = length items" using js_map_Inr [OF rows] by (simp add: list_all2_lengthD)
  ultimately show ?thesis using rows by blast
qed

definition quoted_booking :: jv where
  "quoted_booking = JObj [(''id'', JStr ''b1''), (''status'', JStr ''booked''), (''clientName'', JStr [CHR 0x22, CHR '','', CHR 0x0A]),
     (''revenue'', JNull)]"

lemma quoted_export_row:
  "export_row demo_web quoted_booking = Inr [''b1'', ''booked'', [CHR 0x22, CHR '','', CHR 0x0A], [], [], [], ''0'']"
proof -
  have "js_string demo_web (Some (JNum 0)) = ''0''" by code_simp
  then show ?thesis
    by (simp add: export_row_def quoted_booking_def empty_text_def iso_or_empty_def)
qed

theorem export_roundtrip_witness:
  "case handleExport demo_web [quoted_booking] of Inl _ \<Rightarrow> False
     | Inr doc \<Rightarrow> csv_rows doc = [export_header, [''b1'', ''booked'', [CHR 0x22, CHR '','', CHR 0x0A], [], [], [], ''0'']]"
proof -
  obtain doc where doc: "handleExport demo_web [quoted_booking] = Inr doc"
    by (simp add: handleExport_def quoted_export_row)
  from export_roundtrip [OF doc] show ?thesis by (simp add: doc quoted_export_row)
qed

subsection \<open>Loading a list\<close>

record list_view =
  lv_items :: "jv list"
  lv_loading :: bool
  lv_error :: string

definition fresh_list :: list_view where
  "fresh_list = \<lparr>lv_items = [], lv_loading = True, lv_error = []\<rparr>"

definition get_options :: fetch_options where
  "get_options = \<lparr>fo_method = ''GET'', fo_body = None, fo_headers = [], fo_key = None\<rparr>"

definition load_list :: "web_host \<Rightarrow> 's net \<Rightarrow> string \<Rightarrow> string \<Rightarrow> 's \<Rightarrow> list_view \<times> 's" where
  "load_list H F path dflt s =
     (let failed = (\<lambda>m. \<lparr>lv_items = [], lv_loading = False, lv_error = (if m = [] then dflt else m)\<rparr>) in
      case apiFetch F path get_options s of
        (Inl m, s') \<Rightarrow> (failed m, s')
      | (Inr res, s') \<Rightarrow> (case ht_json res of
            None \<Rightarrow> (failed (parse_error H), s')
          | Some v \<Rightarrow> (\<lparr>lv_items = (case v of JArr xs \<Rightarrow> xs | _ \<Rightarrow> []), lv_loading = False, lv_error = []\<rparr>, s')))"

definition clients_page :: "web_host \<Rightarrow> 's net \<Rightarrow> 's \<Rightarrow> list_view \<times> 's" where
  "clients_page H F = load_list H F ''/clients'' ''Failed to load''"

definition event_types_page :: "web_host \<Rightarrow> 's net \<Rightarrow> 's \<Rightarrow> list_view \<times> 's" where
  "event_types_page H F = load_list H F ''/event-types'' ''Failed to load''"

definition bookings_page :: "web_host \<Rightarrow> 's net \<Rightarrow> 's \<Rightarrow> list_view \<times> 's" where
  "bookings_page H F = load_list H F ''/bookings'' ''Failed to load bookings''"

subsection \<open>Filters\<close>

definition shown_bookings :: "string \<Rightarrow> jv list \<Rightarrow> js_error + jv list" where
  "shown_bookings f bs = (if f = ''all'' then Inr bs
     else js_filter (\<lambda>b. sbind (member ''status'' (Some b)) (\<lambda>st. Inr (st = Some (JStr f)))) bs)"

definition statusVariant :: "string \<Rightarrow> string" where
  "statusVariant s = (if s = ''booked'' then ''success'' else if s = ''cancelled'' then ''danger''
     else if s = ''completed'' then ''info'' else ''default'')"

text \<open>\<open>new Date(iso + 'Z')\<close>, whose text is that of no date when it is none.\<close>

definition formatClientShort :: "web_host \<Rightarrow> string \<Rightarrow> string" where
  "formatClientShort H start = (case date_value H (JStr (start @ ''Z'')) of None \<Rightarrow> ''Invalid Date'' | Some t \<Rightarrow> local_time H t)"

definition js_includes :: "string \<Rightarrow> js \<Rightarrow> js_error + bool" where
  "js_includes q v = (case v of Some (JStr s) \<Rightarrow> Inr (str_includes q s)
     | Some (JArr xs) \<Rightarrow> Inr (JStr q \<in> set xs) | _ \<Rightarrow> Inl Type_Error)"

fun lazy_or :: "('e + bool) list \<Rightarrow> 'e + bool" where
  "lazy_or [] = Inr False"
| "lazy_or (x # xs) = sbind x (\<lambda>b. if b then Inr True else lazy_or xs)"

definition field_includes :: "web_host \<Rightarrow> string \<Rightarrow> string \<Rightarrow> jv \<Rightarrow> js_error + bool" where
  "field_includes H k q v = sbind (first_true [member k (Some v), empty_text]) (\<lambda>x. sbind (js_lower H x) (\<lambda>t.
     Inr (str_includes (to_lower H q) t)))"

definition matches_client :: "web_host \<Rightarrow> string \<Rightarrow> jv \<Rightarrow> js_error + bool" where
  "matches_client H q c = lazy_or [field_includes H ''name'' q c, field_includes H ''company'' q c, field_includes H ''email'' q c,
     sbind (first_true [member ''phone'' (Some c), empty_text]) (js_includes q)]"

definition filtered_clients :: "web_host \<Rightarrow> string \<Rightarrow> jv list \<Rightarrow> js_error + jv list" where
  "filtered_clients H q cs = js_filter (matches_client H q) cs"

text \<open>\<open>{ ...i, active: !current }\<close>\<close>

fun put_key :: "'k \<Rightarrow> 'v \<Rightarrow> ('k \<times> 'v) list \<Rightarrow> ('k \<times> 'v) list" where
  "put_key k v [] = [(k, v)]"
| "put_key k v ((k', w) # fs) = (if k' = k then (k, v) # fs else (k', w) # put_key k v fs)"

definition toggle_event_type :: "string \<Rightarrow> bool \<Rightarrow> jv list \<Rightarrow> js_error + jv list" where
  "toggle_event_type i current items = js_map (\<lambda>it. sbind (member ''id'' (Some it)) (\<lambda>x.
     Inr (case it of JObj fs \<Rightarrow> if x = Some (JStr i) then JObj (put_key ''active'' (JBool (\<not> current)) fs) else it | _ \<Rightarrow> it))) items"

definition seed_event_type :: "string \<Rightarrow> string \<Rightarrow> int \<Rightarrow> string \<Rightarrow> string \<Rightarrow> int \<Rightarrow> string \<Rightarrow> jv" where
  "seed_event_type i title mins desc loc price slug =
     JObj [(''id'', JStr i), (''title'', JStr title), (''durationMinutes'', num mins), (''description'', JStr desc),
       (''location'', JStr loc), (''price'', num price), (''active'', JBool True), (''slug'', JStr slug)]"

definition displayItems :: "jv list \<Rightarrow> jv list" where
  "displayItems items = (if items \<noteq> [] then items else
     [seed_event_type ''seed-1'' ''1-on-1 Strategy Call'' 30 ''Deep dive strategic session to review roadmap & goals.''
        ''Google Meet'' 50 ''1-on-1-strategy-call'',
      seed_event_type ''seed-2'' ''Technical Review'' 60 ''Comprehensive codebase audit and architecture planning.''
        ''Zoom Video'' 120 ''technical-review'',
      seed_event_type ''seed-3'' ''Free Intro Chat'' 15 ''Brief introductory consultation to assess alignment.''
        ''Phone Call'' 0 ''free-intro-chat''])"

lemma put_key_get: "map_of (put_key k v fs) x = (if x = k then Some v else map_of fs x)"
  by (induction fs) auto

text \<open>Toggling sets the mark of the entries of that identifier, and of no other entry, and no other field.\<close>

lemma toggled_active:
  assumes "toggle_event_type i cur items = Inr items'"
  shows "list_all2 (\<lambda>a b. \<forall>fs. a = JObj fs \<longrightarrow> (\<exists>gs. b = JObj gs \<and> (\<forall>k. map_of gs k
      = (if k = ''active'' \<and> map_of fs ''id'' = Some (JStr i) then Some (JBool (\<not> cur)) else map_of fs k)))) items items'"
  using js_map_Inr [OF assms [unfolded toggle_event_type_def]]
proof (rule list_all2_mono)
  fix a b
  assume b: "sbind (member ''id'' (Some a)) (\<lambda>x. Inr (case a of JObj fs \<Rightarrow> if x = Some (JStr i)
      then JObj (put_key ''active'' (JBool (\<not> cur)) fs) else a | _ \<Rightarrow> a)) = Inr b"
  show "\<forall>fs. a = JObj fs \<longrightarrow> (\<exists>gs. b = JObj gs \<and> (\<forall>k. map_of gs k
      = (if k = ''active'' \<and> map_of fs ''id'' = Some (JStr i) then Some (JBool (\<not> cur)) else map_of fs k)))"
  proof (intro allI impI)
    fix fs
    assume "a = JObj fs"
    with b have "b = (if map_of fs ''id'' = Some (JStr i) then JObj (put_key ''active'' (JBool (\<not> cur)) fs) else JObj fs)"
      by auto
    then show "\<exists>gs. b = JObj gs \<and> (\<forall>k. map_of gs k
        = (if k = ''active'' \<and> map_of fs ''id'' = Some (JStr i) then Some (JBool (\<not> cur)) else map_of fs k))"
      using put_key_get [of "''active''" "JBool (\<not> cur)" fs] by (cases "map_of fs ''id'' = Some (JStr i)") (simp, simp)
  qed
qed

subsection \<open>The figures of the dashboard\<close>

definition dashboard_start :: "jv \<Rightarrow> js_error + js" where
  "dashboard_start v = (let b = Some v in first_true [member ''slot_start_utc'' b, member ''slotStartUtc'' b, member ''start'' b,
     member ''start_time'' b, empty_text])"

text \<open>Whether a booking starts on the day of \<open>n\<close>, by the texts the platform writes for dates in a zone.\<close>

definition starts_today :: "web_host \<Rightarrow> (string \<Rightarrow> int option \<Rightarrow> string) \<Rightarrow> string \<Rightarrow> int \<Rightarrow> jv \<Rightarrow> js_error + bool" where
  "starts_today H local_date tz n v = sbind (dashboard_start v) (\<lambda>s.
     if \<not> js_true s then Inr False
     else case s of Some (JStr t) \<Rightarrow> Inr (local_date tz (date_value H (JStr (with_zone t))) = local_date tz (Some n))
       | _ \<Rightarrow> Inl Type_Error)"

record metrics =
  mt_total :: nat
  mt_today :: nat
  mt_occupancy :: int

definition dashboard_metrics ::
    "web_host \<Rightarrow> (string \<Rightarrow> int option \<Rightarrow> string) \<Rightarrow> string \<Rightarrow> int \<Rightarrow> jv list \<Rightarrow> js_error + metrics" where
  "dashboard_metrics H local_date tz n bs = sbind (js_filter (starts_today H local_date tz n) bs) (\<lambda>today.
     Inr \<lparr>mt_total = length bs, mt_today = length today,
       mt_occupancy = (if bs \<noteq> [] then min 100 (percent (length (filter (\<lambda>b. member ''status'' (Some b)
          \<in> {Inr (Some (JStr ''confirmed'')), Inr (Some (JStr ''booked''))}) bs)) (length bs)) else 0)\<rparr>)"

lemma dashboard_bounds:
  assumes "dashboard_metrics H ld tz n bs = Inr m"
  shows "mt_total m = length bs" "mt_today m \<le> mt_total m" "0 \<le> mt_occupancy m \<and> mt_occupancy m \<le> 100"
proof -
  let ?c = "length (filter (\<lambda>b. member ''status'' (Some b) \<in> {Inr (Some (JStr ''confirmed'')), Inr (Some (JStr ''booked''))}) bs)"
  have "0 \<le> percent ?c (length bs)" if "bs \<noteq> []" using that by (intro percent_bounds) simp_all
  then show "mt_total m = length bs" "mt_today m \<le> mt_total m" "0 \<le> mt_occupancy m \<and> mt_occupancy m \<le> 100"
    using assms by (auto simp: dashboard_metrics_def sbind_Inr_iff dest!: js_filter_Inr)
qed

subsection \<open>Searching and signing in\<close>

record search_view =
  sv_results :: js
  sv_loading :: bool
  sv_error :: string

definition no_results :: jv where
  "no_results = JObj [(''clients'', JArr []), (''eventTypes'', JArr []), (''total'', num 0)]"

definition handleSearch :: "web_host \<Rightarrow> 's net \<Rightarrow> string \<Rightarrow> search_view \<Rightarrow> 's \<Rightarrow> search_view \<times> 's" where
  "handleSearch H F value v s =
     (if trim value = [] then (v\<lparr>sv_results := Some (JArr [])\<rparr>, s)
      else let failed = (\<lambda>m. \<lparr>sv_results = Some (JArr []), sv_loading = False, sv_error = (if m = [] then ''Search failed'' else m)\<rparr>) in
        case apiFetch F (''/search?q='' @ encodeURIComponent value) get_options s of
          (Inl m, s') \<Rightarrow> (failed m, s')
        | (Inr res, s') \<Rightarrow> (case ht_json res of None \<Rightarrow> (failed (parse_error H), s')
            | Some d \<Rightarrow> (case sbind (maybe_member ''results'' (Some d)) (\<lambda>r. Inr (if js_true r then r else Some no_results)) of
                Inl _ \<Rightarrow> (failed [], s')
              | Inr r \<Rightarrow> (\<lparr>sv_results = r, sv_loading = False, sv_error = []\<rparr>, s'))))"

text \<open>The two login pages: where they lead, or the message they show.\<close>

datatype login_result = Go string | Login_Error js

definition submit_login :: "'s net \<Rightarrow> string \<Rightarrow> jv \<Rightarrow> string \<Rightarrow> string \<Rightarrow> string \<Rightarrow> 's \<Rightarrow> login_result \<times> 's" where
  "submit_login F path body target refused unreachable s =
     (case F \<lparr>rq_method = ''POST'', rq_path = path, rq_headers = json_header, rq_body = Some body\<rparr> s of
        (Inl _, s') \<Rightarrow> (Login_Error (Some (JStr unreachable)), s')
      | (Inr res, s') \<Rightarrow> if http_ok res then (Go target, s')
          else (case maybe_member ''message'' (case ht_json res of None \<Rightarrow> Some (JObj []) | Some d \<Rightarrow> Some d) of
              Inr m \<Rightarrow> (Login_Error (if js_true m then m else Some (JStr refused)), s')
            | Inl _ \<Rightarrow> (Login_Error (Some (JStr unreachable)), s')))"

definition client_login_page :: "'s net \<Rightarrow> string \<Rightarrow> 's \<Rightarrow> login_result \<times> 's" where
  "client_login_page F email = submit_login F ''/auth/login'' (JObj [(''email'', JStr email)]) ''/dashboard''
     ''Sign in failed'' ''Backend unavailable''"

definition admin_login_page :: "'s net \<Rightarrow> string \<Rightarrow> string \<Rightarrow> 's \<Rightarrow> login_result \<times> 's" where
  "admin_login_page F email password = submit_login F ''/auth/admin/login'' (JObj [(''email'', JStr email), (''password'', JStr password)])
     ''/admin/status'' ''Login failed'' ''Network error''"

text \<open>Saving the settings page sends the name and the slug; \<open>True\<close> shows the toast, \<open>False\<close> the alert.\<close>

definition settings_save :: "'s net \<Rightarrow> string \<Rightarrow> string \<Rightarrow> 's \<Rightarrow> bool \<times> 's" where
  "settings_save F name slug s =
     (case F \<lparr>rq_method = ''PATCH'', rq_path = ''/providers/me'', rq_headers = json_header,
         rq_body = Some (JObj [(''name'', JStr name), (''slug'', JStr slug)])\<rparr> s of
        (Inl _, s') \<Rightarrow> (False, s') | (Inr res, s') \<Rightarrow> (http_ok res, s'))"

end
