(* ===== verification/Web_Session.thy ===== *)
theory Web_Session
  imports Web_Lists Web_Views
begin

text \<open>
  The frame around the pages (\<^verbatim>\<open>app/components/AppShell.tsx\<close>), the pages for providers that show what one request
  returns (\<^verbatim>\<open>app/analytics\<close>, \<^verbatim>\<open>app/billing\<close>, \<^verbatim>\<open>app/reports\<close>), and a browser that keeps the cookies of the API's
  answers while its user moves between these pages, the login pages and the menu.
\<close>

subsection \<open>The frame\<close>

definition nav :: "(string \<times> string) list" where
  "nav = [(''Dashboard'', ''/dashboard''), (''Calendar'', ''/calendar''), (''Appointments'', ''/appointments''),
     (''Event Types'', ''/event-types''), (''Availability'', ''/availability''), (''Clients CRM'', ''/clients''),
     (''Reports'', ''/reports''), (''Billing'', ''/billing''), (''Analytics'', ''/analytics''), (''Settings'', ''/settings'')]"

definition nav_active :: "string \<Rightarrow> string \<Rightarrow> bool" where
  "nav_active pathname href \<longleftrightarrow> pathname = href \<or> starts_with (href @ ''/'') pathname"

record shell =
  sh_open :: bool
  sh_dark :: bool
  sh_demoEmpty :: bool
  sh_profileName :: js
  sh_avatarUrl :: js

definition initial_shell :: shell where
  "initial_shell = \<lparr>sh_open = False, sh_dark = True, sh_demoEmpty = False,
     sh_profileName = Some (JStr ''Dr. Sarah Jenkins''), sh_avatarUrl = Some JNull\<rparr>"

definition plain_request :: "string \<Rightarrow> string \<Rightarrow> request" where
  "plain_request meth path = \<lparr>rq_method = meth, rq_path = path, rq_headers = [], rq_body = None\<rparr>"

text \<open>The name and the picture of the profile; an error of the request or of the body changes nothing.\<close>

definition take_profile :: "js \<Rightarrow> shell \<Rightarrow> shell" where
  "take_profile d sh =
     (if \<not> js_true d then sh
      else let name = (case member ''name'' d of Inr v \<Rightarrow> v | Inl _ \<Rightarrow> None);
               avatar = (case member ''avatar_url'' d of Inr v \<Rightarrow> v | Inl _ \<Rightarrow> None);
               sh' = (if js_true name then sh\<lparr>sh_profileName := name\<rparr> else sh)
           in if js_true avatar then sh'\<lparr>sh_avatarUrl := avatar\<rparr> else sh')"

definition shell_load :: "'s net \<Rightarrow> shell \<Rightarrow> 's \<Rightarrow> shell \<times> 's" where
  "shell_load F sh s =
     (case F (plain_request ''GET'' ''/providers/me'') s of
        (Inl _, s') \<Rightarrow> (sh, s')
      | (Inr r, s') \<Rightarrow> (if http_ok r then (case ht_json r of None \<Rightarrow> sh | Some d \<Rightarrow> take_profile (Some d) sh) else sh, s'))"

text \<open>The menu and the buttons, with the place the browser is sent to. Signing out leaves for the login page whatever
  the answer is, and stays when there is none.\<close>

datatype shell_event = Toggle_Menu | Click_Outside | Key_Down string | Toggle_Theme | Toggle_Demo
  | Menu_Settings | Menu_Preferences | Sign_Out

definition shell_step :: "'s net \<Rightarrow> shell_event \<Rightarrow> shell \<Rightarrow> 's \<Rightarrow> (shell \<times> string option) \<times> 's" where
  "shell_step F ev sh s = (case ev of
       Toggle_Menu \<Rightarrow> ((sh\<lparr>sh_open := \<not> sh_open sh\<rparr>, None), s)
     | Click_Outside \<Rightarrow> ((sh\<lparr>sh_open := False\<rparr>, None), s)
     | Key_Down k \<Rightarrow> ((if k = ''Escape'' then sh\<lparr>sh_open := False\<rparr> else sh, None), s)
     | Toggle_Theme \<Rightarrow> ((sh\<lparr>sh_dark := \<not> sh_dark sh\<rparr>, None), s)
     | Toggle_Demo \<Rightarrow> ((sh\<lparr>sh_demoEmpty := \<not> sh_demoEmpty sh\<rparr>, None), s)
     | Menu_Settings \<Rightarrow> ((sh\<lparr>sh_open := False\<rparr>, Some ''/settings''), s)
     | Menu_Preferences \<Rightarrow> ((sh\<lparr>sh_open := False\<rparr>, None), s)
     | Sign_Out \<Rightarrow> (case F (plain_request ''POST'' ''/auth/logout'') s of
           (Inl _, s') \<Rightarrow> ((sh\<lparr>sh_open := False\<rparr>, None), s')
         | (Inr _, s') \<Rightarrow> ((sh\<lparr>sh_open := False\<rparr>, Some ''/login''), s')))"

subsection \<open>Pages that show one answer\<close>

record remote =
  rm_loading :: bool
  rm_error :: string
  rm_data :: js

text \<open>Reading an answer: what the page throws, or the value. The message of a \<open>TypeError\<close> is the platform's.\<close>

definition read_answer :: "web_host \<Rightarrow> (http \<Rightarrow> string) \<Rightarrow> http \<Rightarrow> string + jv" where
  "read_answer H refused res =
     (if ht_status res = 401 then Inl ''Authentication required''
      else if \<not> http_ok res then Inl (refused res)
      else case ht_json res of None \<Rightarrow> Inl (parse_error H) | Some v \<Rightarrow> Inr v)"

definition failed_text :: "web_host \<Rightarrow> js \<Rightarrow> http \<Rightarrow> string" where
  "failed_text H x res = (if js_true x then js_string H x else ''Failed ('' @ int_text (ht_status res) @ '')'')"

definition member_refusal :: "web_host \<Rightarrow> string \<Rightarrow> string \<Rightarrow> http \<Rightarrow> string" where
  "member_refusal H type_error k res = (case ht_json res of None \<Rightarrow> parse_error H
     | Some v \<Rightarrow> (case member k (Some v) of Inl _ \<Rightarrow> type_error | Inr x \<Rightarrow> failed_text H x res))"

definition report_refusal :: "web_host \<Rightarrow> string \<Rightarrow> http \<Rightarrow> string" where
  "report_refusal H type_error res =
     (let d = (case ht_json res of None \<Rightarrow> Some (JObj []) | Some v \<Rightarrow> Some v) in
      case first_true [maybe_member ''message'' d, maybe_member ''error'' d] of
        Inl _ \<Rightarrow> type_error | Inr x \<Rightarrow> failed_text H x res)"

definition load_data :: "'s net \<Rightarrow> string \<Rightarrow> (http \<Rightarrow> string + jv) \<Rightarrow> string \<Rightarrow> 's \<Rightarrow> remote \<times> 's" where
  "load_data F path read dflt s =
     (case apiFetch F path get_options s of (r, s') \<Rightarrow>
       (case sbind r read of
          Inl m \<Rightarrow> \<lparr>rm_loading = False, rm_error = (if m = [] then dflt else m), rm_data = Some JNull\<rparr>
        | Inr d \<Rightarrow> \<lparr>rm_loading = False, rm_error = [], rm_data = Some d\<rparr>, s'))"

definition analytics_page :: "web_host \<Rightarrow> string \<Rightarrow> 's net \<Rightarrow> 's \<Rightarrow> remote \<times> 's" where
  "analytics_page H te F =
     load_data F ''/analytics'' (read_answer H (member_refusal H te ''error'')) ''Failed to load analytics''"

definition billing_page :: "web_host \<Rightarrow> string \<Rightarrow> 's net \<Rightarrow> 's \<Rightarrow> remote \<times> 's" where
  "billing_page H te F =
     load_data F ''/billing'' (read_answer H (member_refusal H te ''message'')) ''Failed to load billing''"

text \<open>The reports look at the member \<open>success\<close> of the answer as well.\<close>

definition read_report :: "web_host \<Rightarrow> string \<Rightarrow> http \<Rightarrow> string + jv" where
  "read_report H te res = sbind (read_answer H (report_refusal H te) res) (\<lambda>d.
     if maybe_member ''success'' (Some d) \<noteq> Inr (Some (JBool False)) then Inr d
     else case maybe_member ''message'' (Some d) of
         Inl _ \<Rightarrow> Inl te | Inr x \<Rightarrow> Inl (if js_true x then js_string H x else ''Server error''))"

definition reports_page :: "web_host \<Rightarrow> string \<Rightarrow> 's net \<Rightarrow> 's \<Rightarrow> remote \<times> 's" where
  "reports_page H te F = load_data F ''/reports'' (read_report H te) ''Failed to load reports''"

text \<open>The figures the pages draw once there is data: \<open>d?.k || {}\<close> and \<open>o.k ?? 0\<close>.\<close>

definition part :: "string \<Rightarrow> js \<Rightarrow> js_error + js" where
  "part k d = first_true [maybe_member k d, Inr (Some (JObj []))]"

definition figure :: "web_host \<Rightarrow> string \<Rightarrow> js \<Rightarrow> js_error + string" where
  "figure H k d = sbind (member k d) (\<lambda>v. Inr (js_string H (if v \<in> {None, Some JNull} then Some (JNum 0) else v)))"

definition text_or :: "web_host \<Rightarrow> string \<Rightarrow> string \<Rightarrow> js \<Rightarrow> js_error + string" where
  "text_or H k dflt d = sbind (member k d) (\<lambda>v. Inr (if js_true v then js_string H v else dflt))"

definition list_member :: "string \<Rightarrow> js \<Rightarrow> jv list" where
  "list_member k d = (case maybe_member k d of Inr (Some (JArr xs)) \<Rightarrow> xs | _ \<Rightarrow> [])"

definition analytics_cards :: "web_host \<Rightarrow> js \<Rightarrow> js_error + (string \<times> string \<times> string) list" where
  "analytics_cards H d =
     sbind (part ''totals'' d) (\<lambda>totals. sbind (part ''rates'' d) (\<lambda>rates.
     sbind (figure H ''total'' totals) (\<lambda>total.
     sbind (figure H ''completionRate'' rates) (\<lambda>completion.
     sbind (figure H ''completed'' totals) (\<lambda>completed.
     sbind (figure H ''cancellationRate'' rates) (\<lambda>cancellation.
     sbind (figure H ''cancelled'' totals) (\<lambda>dropped.
     sbind (figure H ''utilization'' rates) (\<lambda>utilization.
     Inr [(''Total Bookings'', total, completion @ ''% complete''),
          (''Completion Rate'', completion @ ''%'', completed @ '' completed''),
          (''Cancellation Rate'', cancellation @ ''%'', dropped @ '' cancelled''),
          (''Utilization'', utilization @ ''%'', int_text (int (length (list_member ''bookings'' d))) @ '' records'')]))))))))"

definition billing_figures :: "web_host \<Rightarrow> js \<Rightarrow> js_error + string list" where
  "billing_figures H d =
     sbind (part ''plan'' d) (\<lambda>plan. sbind (part ''usage'' d) (\<lambda>usage. sbind (part ''revenue'' d) (\<lambda>revenue.
     sbind (text_or H ''name'' ''No plan'' plan) (\<lambda>name.
     sbind (text_or H ''status'' ''inactive'' plan) (\<lambda>status.
     sbind (member ''billingCycle'' plan) (\<lambda>cycle.
     sbind (figure H ''bookingsThisMonth'' usage) (\<lambda>month.
     sbind (figure H ''eventTypes'' usage) (\<lambda>types.
     sbind (figure H ''clients'' usage) (\<lambda>clients.
     sbind (figure H ''estimatedRevenue'' revenue) (\<lambda>estimated.
     sbind (figure H ''completedBookings'' revenue) (\<lambda>completed.
     Inr [name, status, if js_true cycle then ''Billed '' @ js_string H cycle else ''No billing endpoint configured'',
          month, types, clients, CHR ''$'' # estimated,
          completed @ '' completed bookings with event-type prices''])))))))))))"

subsection \<open>A browser between pages and API\<close>

text \<open>What an answer does to the cookies the browser keeps, each with its encoded value.\<close>

type_synonym jar = "(string \<times> string) list"

datatype set_cookie = Put cookie | Clear string

fun apply_cookie :: "set_cookie \<Rightarrow> jar \<Rightarrow> jar" where
  "apply_cookie (Put c) jar = (ck_name c, encodeURIComponent (ck_value c)) # filter (\<lambda>p. fst p \<noteq> ck_name c) jar"
| "apply_cookie (Clear n) jar = filter (\<lambda>p. fst p \<noteq> n) jar"

definition cookie_header :: "jar \<Rightarrow> string option" where
  "cookie_header jar = (if jar = [] then None else Some (sep_join ''; '' (map (\<lambda>(n, v). n @ ''='' @ v) jar)))"

text \<open>The bodies of the answers.\<close>

definition range_json :: "string option \<times> string option \<Rightarrow> jv" where
  "range_json r = JObj [(''start'', text_or_null (fst r)), (''end'', text_or_null (snd r))]"

definition analytics_item :: "booking_join \<Rightarrow> jv" where
  "analytics_item j = JObj [(''id'', JStr (b_id (j_booking j))), (''status'', JStr (booking_status_text (b_status (j_booking j)))),
     (''createdAt'', JStr (toISOString (b_created (j_booking j)))),
     (''slotStartUtc'', JStr (toISOString (s_start (j_slot j)))), (''slotEndUtc'', JStr (toISOString (s_end (j_slot j)))),
     (''clientName'', case j_client j of None \<Rightarrow> JNull | Some c \<Rightarrow> JStr (or_else (Some (c_name c)) (c_email c)))]"

definition analytics_json :: "analytics \<Rightarrow> jv" where
  "analytics_json a = JObj ([(''range'', range_json (an_range a)),
     (''totals'', JObj [(''total'', num (an_total a)), (''completed'', num (an_completed a)),
        (''cancelled'', num (an_cancelled a)), (''noShow'', num (an_no_show a)), (''booked'', num (an_booked a))]),
     (''rates'', JObj [(''completionRate'', num (an_completionRate a)), (''cancellationRate'', num (an_cancellationRate a)),
        (''utilization'', num (an_utilization a))]),
     (''bookings'', JArr (map analytics_item (an_bookings a)))]
     @ (case an_error a of None \<Rightarrow> [] | Some m \<Rightarrow> [(''error'', JStr m)]))"

definition report_item :: "report_row \<Rightarrow> jv" where
  "report_item r = JObj [(''id'', JStr (rr_id r)), (''status'', JStr (booking_status_text (rr_status r))),
     (''clientName'', JStr (rr_client r)), (''eventType'', JStr (rr_event r)), (''date'', JStr (rr_date r)),
     (''revenue'', num (rr_revenue r))]"

definition report_json :: "report \<Rightarrow> jv" where
  "report_json r = JObj ([(''success'', JBool (rp_success r))]
     @ (case rp_message r of None \<Rightarrow> [] | Some m \<Rightarrow> [(''message'', JStr m)])
     @ [(''totalRevenue'', num (rp_revenue r)), (''completedCount'', num (int (rp_completed r))),
        (''rescheduleRate'', JStr (rp_reschedule r)), (''cancellationRate'', JStr (rp_cancellation r)),
        (''breakdown'', JArr (map report_item (rp_breakdown r))), (''count'', num (int (rp_count r))),
        (''range'', range_json (rp_range r))])"

definition billing_json :: "billing \<Rightarrow> jv" where
  "billing_json b = JObj [
     (''plan'', JObj [(''name'', JStr ''Professional''), (''status'', JStr ''active''), (''billingCycle'', JStr ''monthly'')]),
     (''usage'', JObj [(''bookingsThisMonth'', num (int (bl_bookingsThisMonth b))), (''eventTypes'', num (int (bl_eventTypes b))),
        (''clients'', num (int (bl_clients b)))]),
     (''revenue'', JObj [(''estimatedRevenue'', num (bl_revenue b)), (''completedBookings'', num (int (bl_completed b))),
        (''currency'', JStr ''USD'')]),
     (''invoices'', JArr [])]"

definition login_json :: "client_row \<times> cookie \<Rightarrow> jv" where
  "login_json r = (case r of (c, ck) \<Rightarrow> JObj [(''user'', JObj [(''id'', JStr (c_id c)), (''role'', JStr ''client''),
     (''email'', JStr (c_email c))]), (''session'', JStr (ck_value ck))])"

definition account_json :: "account_view \<times> cookie \<Rightarrow> jv" where
  "account_json r = (case fst r of Account_View i name email slug tz \<Rightarrow> JObj [(''provider'', JObj [(''id'', JStr i),
     (''name'', text_or_null name), (''email'', text_or_null email), (''slug'', JStr slug), (''timezone'', JStr tz)])])"

text \<open>
  What the server runs with: the framework gives the e-mail address of a login's body, or drops it, and
  the web server has a page for addresses it does not know. The handlers' answers set cookies.
\<close>

record site =
  st_web :: web_host
  st_crypto :: crypto
  st_calendar :: calendar_host
  st_email :: "js \<Rightarrow> string option"
  st_unknown :: string
  st_type_error :: string

definition body_text :: "string \<Rightarrow> js \<Rightarrow> string option" where
  "body_text k b = (case maybe_member k b of Inr (Some (JStr s)) \<Rightarrow> Some s | _ \<Rightarrow> None)"

definition reply_of ::
    "site \<Rightarrow> int \<Rightarrow> ('a \<Rightarrow> jv) \<Rightarrow> ('a \<Rightarrow> set_cookie list) \<Rightarrow> (exn + 'a) \<times> 's \<Rightarrow> (http \<times> set_cookie list) \<times> 's" where
  "reply_of S ok f cs run = (case run of
       (Inl x, w) \<Rightarrow> ((nest_reply (st_web S) ok (Inl x), []), w)
     | (Inr a, w) \<Rightarrow> ((nest_reply (st_web S) ok (Inr (f a)), cs a), w))"

definition login_route :: "site \<Rightarrow> request \<Rightarrow> auth_store env \<Rightarrow> auth_store world \<Rightarrow> (http \<times> set_cookie list) \<times> auth_store world" where
  "login_route S req e w =
     reply_of S 201 login_json (\<lambda>r. [Put (snd r)]) (client_login (st_crypto S) (st_email S (rq_body req)) e w)"

definition logout_route :: "site \<Rightarrow> http \<times> set_cookie list" where
  "logout_route S = (nest_reply (st_web S) 201 (Inr (JObj [(''ok'', JBool True)])), [Clear ''chronos_session''])"

definition site_api ::
    "site \<Rightarrow> auth_store env \<Rightarrow> request \<Rightarrow> auth_store world \<Rightarrow> (http \<times> set_cookie list) \<times> auth_store world" where
  "site_api S e req w =
     (let K = st_crypto S; cookie = map_of (rq_headers req) ''cookie''; route = (rq_method req, rq_path req) in
      if route = (''POST'', ''/auth/login'') then login_route S req e w
      else if route = (''POST'', ''/auth/logout'') then (logout_route S, w)
      else if route = (''POST'', ''/auth/provider/login'')
        then reply_of S 201 account_json (\<lambda>r. [Put (snd r)])
          (provider_login K (body_text ''email'' (rq_body req)) (body_text ''password'' (rq_body req)) e w)
      else if route = (''POST'', ''/auth/provider/logout'')
        then reply_of S 201 (\<lambda>_. JObj [(''ok'', JBool True)]) (\<lambda>_. [Clear ''chronos_provider_session'']) (provider_logout K cookie e w)
      else if route = (''GET'', ''/reports'')
        then reply_of S 200 report_json (\<lambda>_. []) (getReports K (st_calendar S) cookie None None e w)
      else if route = (''GET'', ''/analytics'')
        then reply_of S 200 analytics_json (\<lambda>_. []) (getAnalytics K (st_calendar S) cookie None None e w)
      else if route = (''GET'', ''/billing'')
        then reply_of S 200 billing_json (\<lambda>_. []) (getBilling K (st_calendar S) cookie e w)
      else ((nest_reply (st_web S) 404 (Inl (not_found (''Cannot '' @ rq_method req @ '' '' @ rq_path req))), []), w))"

text \<open>A request of a page, over a link that works, loses the answer or is down. The browser adds its cookies and keeps
  those of the answer.\<close>

definition site_net :: "site \<Rightarrow> auth_store env \<Rightarrow> link \<Rightarrow> (jar \<times> auth_store world) net" where
  "site_net S e l req s = (case s of (jar, w) \<Rightarrow>
     if l = Down then (Inl ''Failed to fetch'', s)
     else (case site_api S e (req\<lparr>rq_headers := rq_headers req @ forward_cookie (cookie_header jar)\<rparr>) w of
        ((res, cs), w') \<Rightarrow> if l = Up then (Inr res, (fold apply_cookie cs jar, w')) else (Inl ''Failed to fetch'', (jar, w'))))"

text \<open>The administrators' login page posts to the web server, which has no such route.\<close>

definition web_net :: "site \<Rightarrow> link \<Rightarrow> 's net" where
  "web_net S l req s = (if l = Up then Inr \<lparr>ht_status = 404, ht_body = st_unknown S, ht_json = None\<rparr> else Inl ''Failed to fetch'', s)"

datatype insight = Reports | Analytics | Billing

fun insight_path :: "insight \<Rightarrow> string" where
  "insight_path Reports = ''/reports''"
| "insight_path Analytics = ''/analytics''"
| "insight_path Billing = ''/billing''"

fun insight_page :: "site \<Rightarrow> insight \<Rightarrow> 's net \<Rightarrow> 's \<Rightarrow> remote \<times> 's" where
  "insight_page S Reports = reports_page (st_web S) (st_type_error S)"
| "insight_page S Analytics = analytics_page (st_web S) (st_type_error S)"
| "insight_page S Billing = billing_page (st_web S) (st_type_error S)"

text \<open>A page is opened through the middleware.\<close>

datatype screen = Screen_Login | Screen_Data remote

definition open_insight ::
    "site \<Rightarrow> auth_store env \<Rightarrow> link \<Rightarrow> insight \<Rightarrow> jar \<times> auth_store world \<Rightarrow> screen \<times> (jar \<times> auth_store world)" where
  "open_insight S e l p s =
     (case web_request (insight_path p) (request_cookie (st_web S) ''chronos_session'' (cookie_header (fst s))) of
        Redirect _ _ \<Rightarrow> (Screen_Login, s)
      | Next \<Rightarrow> (case insight_page S p (site_net S e l) s of (r, s') \<Rightarrow> (Screen_Data r, s')))"

datatype act = Sign_In string | Admin_Sign_In string string | Open_Insight insight | In_Shell shell_event

definition site_step :: "site \<Rightarrow> auth_store env \<Rightarrow> link \<Rightarrow> act \<Rightarrow> jar \<times> auth_store world \<Rightarrow> jar \<times> auth_store world" where
  "site_step S e l a s = (case a of
       Sign_In m \<Rightarrow> snd (client_login_page (site_net S e l) m s)
     | Admin_Sign_In m pw \<Rightarrow> snd (admin_login_page (web_net S l) m pw s)
     | Open_Insight p \<Rightarrow> snd (open_insight S e l p s)
     | In_Shell ev \<Rightarrow> snd (shell_step (site_net S e l) ev initial_shell s))"

text \<open>Acts of the user, and cookies that expire between them.\<close>

datatype happening = Act act link "auth_store env" | Expire "string list"

fun happen :: "site \<Rightarrow> happening \<Rightarrow> jar \<times> auth_store world \<Rightarrow> jar \<times> auth_store world" where
  "happen S (Act a l e) s = site_step S e l a s"
| "happen S (Expire ns) s = (filter (\<lambda>p. fst p \<notin> set ns) (fst s), snd s)"

definition site_run :: "site \<Rightarrow> happening list \<Rightarrow> jar \<times> auth_store world \<Rightarrow> jar \<times> auth_store world" where
  "site_run S = fold (happen S)"

subsection \<open>What the pages can do to sessions\<close>

lemma nav_segment:
  assumes "nav_active p (CHR ''/'' # h)" "CHR ''/'' \<notin> set h"
  shows "takeWhile (\<lambda>c. c \<noteq> CHR ''/'') (drop 1 p) = h"
proof -
  have all: "takeWhile (\<lambda>c. c \<noteq> CHR ''/'') (h @ r) = h @ takeWhile (\<lambda>c. c \<noteq> CHR ''/'') r" for r
    using assms(2) by (intro takeWhile_append2) auto
  from assms(1) consider "p = CHR ''/'' # h" | r where "p = (CHR ''/'' # h) @ ''/'' @ r"
    unfolding nav_active_def starts_with_iff by (metis append.assoc)
  then show ?thesis using all [of "[]"] all [of "CHR ''/'' # r" for r] by cases simp_all
qed

lemma nav_paths:
  "list_all (\<lambda>(_, h). h = CHR ''/'' # tl h \<and> CHR ''/'' \<notin> set (tl h)) nav" "distinct (map (\<lambda>(_, h). tl h) nav)"
  by code_simp+

lemma nav_one_active:
  assumes "x \<in> set nav" "y \<in> set nav" "nav_active p (snd x)" "nav_active p (snd y)"
  shows "x = y"
proof -
  have paths: "snd z = CHR ''/'' # tl (snd z)" "CHR ''/'' \<notin> set (tl (snd z))" if "z \<in> set nav" for z
    using nav_paths(1) that by (auto simp: list_all_iff)
  have "tl (snd x) = tl (snd y)"
    using nav_segment [of p "tl (snd x)"] nav_segment [of p "tl (snd y)"] paths [OF assms(1)] paths [OF assms(2)] assms(3,4)
    by metis
  then show ?thesis using nav_paths(2) assms(1,2) by (auto simp: distinct_map inj_on_def case_prod_beta)
qed

lemma nav_protected: "list_all (\<lambda>(_, h). web_request h None = Redirect ''/login'' h) nav"
  by code_simp

text \<open>The sidebar of the booking page (\<^verbatim>\<open>components/Sidebar.tsx\<close>) leads to the same places, with a mark that never moves.\<close>

definition sidebar_items :: "(string \<times> string \<times> bool) list" where
  "sidebar_items = [(''Dashboard'', ''/dashboard'', False), (''Calendar'', ''/calendar'', False),
     (''Appointments'', ''/appointments'', True), (''Event Types'', ''/event-types'', False),
     (''Availability'', ''/availability'', False), (''Clients CRM'', ''/clients'', False), (''Reports'', ''/reports'', False),
     (''Billing'', ''/billing'', False), (''Analytics'', ''/analytics'', False), (''Settings'', ''/settings'', False)]"

lemma sidebar_is_nav: "map (\<lambda>(l, h, _). (l, h)) sidebar_items = nav"
  by code_simp

text \<open>Handlers that leave the accounts and sessions as they are.\<close>

definition reads :: "'a auth \<Rightarrow> bool" where
  "reads m \<longleftrightarrow> (\<forall>e w. queue (snd (m e w)) = queue w)"

named_theorems reads_intros

lemma readsD: "reads m \<Longrightarrow> queue (snd (m e w)) = queue w"
  by (simp add: reads_def)

lemma reads_leaf [reads_intros]:
  "reads (ret a)" "reads (raise x)" "reads now" "reads (decoded s)" "reads (find f)" "reads (scrypt K p s n)"
  "reads (query ch st)"
  by (auto simp: reads_def prog_simps decoded_def find_def scrypt_def queue_ask_def query_def
      split: option.split sum.split)

lemma reads_bind [reads_intros]: "reads m \<Longrightarrow> (\<And>a. reads (f a)) \<Longrightarrow> reads (bind m f)"
  unfolding reads_def by (simp add: prog_simps split: prod.split sum.split) (metis snd_conv)

lemma reads_try [reads_intros]:
  "reads m \<Longrightarrow> (\<And>x. reads (h x)) \<Longrightarrow> reads (try_catch m h)"
  "reads m \<Longrightarrow> reads (unless_fails d m)"
  unfolding reads_def by (simp_all add: prog_simps split: prod.split sum.split) (metis snd_conv)+

lemma reads_split [reads_intros]:
  "reads m \<Longrightarrow> (\<And>y. reads (g y)) \<Longrightarrow> reads (case x of None \<Rightarrow> m | Some y \<Rightarrow> g y)"
  "(\<And>y z. reads (k y z)) \<Longrightarrow> reads (case q of (y, z) \<Rightarrow> k y z)"
  "reads m \<Longrightarrow> reads m' \<Longrightarrow> reads (if c then m else m')"
  by (auto split: option.split prod.split)

lemma reads_rows_in [reads_intros]: "reads (rows_in r f)"
  unfolding rows_in_def by (intro reads_intros)

lemma reads_as_provider [reads_intros]: "(\<And>p. reads (f p)) \<Longrightarrow> reads (as_provider K cookie f)"
  unfolding as_provider_def providerGuard_def hashToken_def findProviderByTokenHash_def by (intro reads_intros)

lemma reads_handlers:
  "reads (client_login K m)" "reads (getReports K C cookie a z)" "reads (getAnalytics K C cookie a z)"
  "reads (getBilling K C cookie)"
  unfolding client_login_def getReports_def getAnalytics_def getBilling_def Let_def by (intro reads_intros)+

text \<open>Each page sends its one request; what becomes of the state is up to the request.\<close>

lemma snd_apiFetch: "snd (apiFetch F path opts s) = snd (F (build_request path opts) s)"
  by (simp add: apiFetch_def Let_def split: prod.split sum.split)

lemma snd_load_data: "snd (load_data F path rd dflt s) = snd (F (build_request path get_options) s)"
  using snd_apiFetch [of F path get_options s] by (cases "apiFetch F path get_options s") (simp add: load_data_def)

lemma snd_submit_login:
  "snd (submit_login F path body target m1 m2 s)
     = snd (F \<lparr>rq_method = ''POST'', rq_path = path, rq_headers = json_header, rq_body = Some body\<rparr> s)"
  by (auto simp: submit_login_def Let_def split: prod.split sum.split)

lemma snd_insight_page: "snd (insight_page S p F s) = snd (F (build_request (insight_path p) get_options) s)"
  by (cases p) (simp_all add: reports_page_def analytics_page_def billing_page_def snd_load_data)

definition page_routes :: "(string \<times> string) list" where
  "page_routes = [(''POST'', ''/auth/login''), (''POST'', ''/auth/logout''), (''GET'', ''/reports''),
     (''GET'', ''/analytics''), (''GET'', ''/billing'')]"

lemma insight_routes: "(''GET'', insight_path p) \<in> set page_routes"
  by (cases p) (simp_all add: page_routes_def)

text \<open>What the pages rely on: whatever reaches the API by one of their requests, the state stays in a relation to the
  state before.\<close>

locale page_network =
  fixes F :: "'s net" and R :: "'s \<Rightarrow> 's \<Rightarrow> bool"
  assumes untouched: "R s s"
    and served: "(rq_method req, rq_path req) \<in> set page_routes \<Longrightarrow> R s (snd (F req s))"
begin

lemma keeps_client_login: "R s (snd (client_login_page F m s))"
  unfolding client_login_page_def snd_submit_login by (rule served) (simp add: page_routes_def)

lemma keeps_insight_page: "R s (snd (insight_page S p F s))"
  unfolding snd_insight_page using insight_routes [of p] by (intro served) (simp add: build_request_def get_options_def)

lemma keeps_shell_step: "R s (snd (shell_step F ev sh s))"
proof (cases "ev = Sign_Out")
  case True
  have "R s (snd (F (plain_request ''POST'' ''/auth/logout'') s))"
    by (rule served) (simp add: plain_request_def page_routes_def)
  then show ?thesis by (auto simp: shell_step_def True split: prod.split sum.split)
next
  case False
  then show ?thesis by (cases ev) (simp_all add: shell_step_def untouched)
qed

end

lemma client_login_cookie: "client_login K m e w = (Inr r, w') \<Longrightarrow> ck_name (snd r) = ''chronos_session''"
  by (auto simp: client_login_def prog_simps split: option.splits prod.splits sum.splits)

text \<open>What a page's request may do to the cookies: nothing, or set or drop the client's.\<close>

definition client_cookie_only :: "jar \<Rightarrow> jar \<Rightarrow> bool" where
  "client_cookie_only jar jar' \<longleftrightarrow> (let rest = filter (\<lambda>p. fst p \<noteq> ''chronos_session'') jar in
     jar' = jar \<or> jar' = rest \<or> (\<exists>v. jar' = (''chronos_session'', encodeURIComponent v) # rest))"

lemma reply_of_queue: "reads m \<Longrightarrow> queue (snd (reply_of S ok f cs (m e w))) = queue w"
  using readsD [of m e w] by (auto simp: reply_of_def split: prod.split sum.split)

lemma reply_of_cookies:
  "(\<And>a w'. m e w = (Inr a, w') \<Longrightarrow> client_cookie_only jar (fold apply_cookie (cs a) jar)) \<Longrightarrow>
     client_cookie_only jar (fold apply_cookie (snd (fst (reply_of S ok f cs (m e w)))) jar)"
  by (auto simp: reply_of_def client_cookie_only_def split: prod.split sum.split)

lemma site_api_routes:
  assumes "(rq_method req, rq_path req) \<in> set page_routes"
  shows "client_cookie_only jar (fold apply_cookie (snd (fst (site_api S e req w))) jar)
    \<and> queue (snd (site_api S e req w)) = queue w"
proof -
  have same: "client_cookie_only jar (fold apply_cookie [] jar)" for jar by (simp add: client_cookie_only_def Let_def)
  have put: "client_cookie_only jar (fold apply_cookie [Put (snd r)] jar)" if "ck_name (snd r) = ''chronos_session''" for r :: "client_row \<times> cookie"
    using that by (auto simp: client_cookie_only_def Let_def)
  from assms consider "rq_method req = ''POST''" "rq_path req = ''/auth/login''"
    | "rq_method req = ''POST''" "rq_path req = ''/auth/logout''" | "rq_method req = ''GET''" "rq_path req = ''/reports''"
    | "rq_method req = ''GET''" "rq_path req = ''/analytics''" | "rq_method req = ''GET''" "rq_path req = ''/billing''"
    by (auto simp: page_routes_def)
  then show ?thesis
  proof cases
    case 1
    then show ?thesis unfolding site_api_def login_route_def Let_def
      by (simp add: reply_of_cookies reply_of_queue reads_handlers put client_login_cookie del: fold.simps)
  next
    case 2
    then show ?thesis by (simp add: site_api_def logout_route_def client_cookie_only_def Let_def)
  next
    case 3
    then show ?thesis unfolding site_api_def Let_def
      by (simp add: reply_of_cookies reply_of_queue reads_handlers same del: fold.simps)
  next
    case 4
    then show ?thesis unfolding site_api_def Let_def
      by (simp add: reply_of_cookies reply_of_queue reads_handlers same del: fold.simps)
  next
    case 5
    then show ?thesis unfolding site_api_def Let_def
      by (simp add: reply_of_cookies reply_of_queue reads_handlers same del: fold.simps)
  qed
qed

text \<open>The accounts and sessions behind two states are the same, and their cookies differ in the client's at most.\<close>

definition same_sessions :: "jar \<times> auth_store world \<Rightarrow> jar \<times> auth_store world \<Rightarrow> bool" where
  "same_sessions s s' \<longleftrightarrow> client_cookie_only (fst s) (fst s') \<and> queue (snd s') = queue (snd s)"

lemma same_sessions_refl: "same_sessions s s"
  by (simp add: same_sessions_def client_cookie_only_def Let_def)

lemma site_net_routes:
  assumes "(rq_method req, rq_path req) \<in> set page_routes"
  shows "same_sessions s (snd (site_net S e l req s))"
proof (cases s)
  case (Pair jar w)
  let ?req = "req\<lparr>rq_headers := rq_headers req @ forward_cookie (cookie_header jar)\<rparr>"
  have "(rq_method ?req, rq_path ?req) \<in> set page_routes" using assms by simp
  then have "client_cookie_only jar (fold apply_cookie (snd (fst (site_api S e ?req w))) jar)
      \<and> queue (snd (site_api S e ?req w)) = queue w"
    by (rule site_api_routes)
  then show ?thesis
    using same_sessions_refl [of s]
    by (cases "site_api S e ?req w") (auto simp: site_net_def Pair same_sessions_def split: prod.split)
qed

interpretation wired: page_network "site_net S e l" same_sessions for S e l
  by unfold_locales (auto intro: same_sessions_refl site_net_routes)

lemma site_step_cookies: "same_sessions s (site_step S e l a s)"
proof (cases a)
  case (Sign_In m)
  show ?thesis by (simp add: Sign_In site_step_def wired.keeps_client_login)
next
  case (Admin_Sign_In m pw)
  show ?thesis by (simp add: Admin_Sign_In site_step_def admin_login_page_def snd_submit_login web_net_def same_sessions_refl)
next
  case (Open_Insight p)
  have "same_sessions s (snd (open_insight S e l p s))"
    using wired.keeps_insight_page [of s S p S e l] same_sessions_refl [of s]
    by (auto simp: open_insight_def split: routed.split prod.split)
  then show ?thesis by (simp add: Open_Insight site_step_def)
next
  case (In_Shell ev)
  show ?thesis by (simp add: In_Shell site_step_def wired.keeps_shell_step)
qed

text \<open>A browser whose cookies come from these pages alone holds the client's cookie at most.\<close>

definition client_jar :: "jar \<Rightarrow> bool" where
  "client_jar jar \<longleftrightarrow> jar = [] \<or> (\<exists>v. jar = [(''chronos_session'', encodeURIComponent v)])"

lemma client_jar_step: "client_jar jar \<Longrightarrow> client_cookie_only jar jar' \<Longrightarrow> client_jar jar'"
  by (auto simp: client_jar_def client_cookie_only_def Let_def)

lemma client_jar_run: "client_jar (fst s) \<Longrightarrow> client_jar (fst (site_run S hs s))"
proof (induction hs arbitrary: s)
  case (Cons h hs)
  have "client_jar (fst (happen S h s))"
  proof (cases h)
    case (Act a l e)
    then show ?thesis using client_jar_step [OF Cons.prems] site_step_cookies [of s S e l a] by (simp add: same_sessions_def)
  next
    case (Expire ns)
    then show ?thesis using Cons.prems by (cases "''chronos_session'' \<in> set ns") (auto simp: client_jar_def)
  qed
  then show ?case using Cons.IH by (simp add: site_run_def)
qed (simp add: site_run_def)

lemma session_match_absent: "(\<And>pre post. s \<noteq> pre @ key @ post) \<Longrightarrow> session_match key s = None"
proof (induction s)
  case (Cons c cs)
  have "cs \<noteq> pre @ key @ post" for pre post using Cons.prems [of "c # pre" post] by simp
  moreover have "\<not> starts_with key (c # cs)"
    using Cons.prems [of "[]"] by (auto simp: starts_with_iff)
  ultimately show ?case using Cons.IH by simp
qed simp

lemma encoded_no_equals: "CHR ''='' \<notin> set (encodeURIComponent s)"
  by (rule encoded_omits) (simp_all add: unreserved_def is_hex_def)

lemma client_jar_header:
  assumes "client_jar jar"
  shows "cookie_of ''chronos_provider_session'' (cookie_header jar) = None"
proof (cases "jar = []")
  case False
  then obtain v where jar: "jar = [(''chronos_session'', encodeURIComponent v)]" using assms by (auto simp: client_jar_def)
  define h where "h = ''chronos_session'' @ ''='' @ encodeURIComponent v"
  have "h \<noteq> pre @ ''chronos_provider_session='' @ post" for pre post
  proof
    assume h: "h = pre @ ''chronos_provider_session='' @ post"
    have "count_list h (CHR ''='') = 1"
      using encoded_no_equals [of v] by (simp add: h_def count_list_0_iff)
    then have "CHR ''='' \<notin> set pre" unfolding h by (simp add: count_list_0_iff)
    then have "takeWhile (\<lambda>c. c \<noteq> CHR ''='') h = pre @ ''chronos_provider_session''"
      unfolding h by (subst takeWhile_append2) auto
    moreover have "takeWhile (\<lambda>c. c \<noteq> CHR ''='') h = ''chronos_session''" by (simp add: h_def)
    ultimately have "length (pre @ ''chronos_provider_session'') = length ''chronos_session''" by (simp only:)
    then show False by simp
  qed
  then have "session_match ''chronos_provider_session='' h = None" by (rule session_match_absent)
  moreover have "cookie_header jar = Some h" by (simp add: cookie_header_def jar h_def)
  ultimately show ?thesis by (simp add: cookie_of_def)
qed (simp add: cookie_of_def cookie_header_def)

lemma as_provider_refuses:
  "cookie_of ''chronos_provider_session'' cookie = None \<Longrightarrow>
     as_provider K cookie f e w = (Inl (unauthorized ''Provider authentication required''), w)"
  by (simp add: as_provider_def providerGuard_def prog_simps)

lemma handlers_refuse:
  assumes "cookie_of ''chronos_provider_session'' cookie = None"
  shows "getReports K C cookie a z e w = (Inl (unauthorized ''Provider authentication required''), w)"
    "getAnalytics K C cookie a z e w = (Inl (unauthorized ''Provider authentication required''), w)"
    "getBilling K C cookie e w = (Inl (unauthorized ''Provider authentication required''), w)"
  by (simp_all only: getReports_def getAnalytics_def getBilling_def as_provider_refuses [OF assms])

definition locked :: "link \<Rightarrow> remote" where
  "locked l = \<lparr>rm_loading = False, rm_error = (if l = Up then ''Authentication required'' else ''Failed to fetch''),
     rm_data = Some JNull\<rparr>"

lemma forwarded_provider:
  "cookie_of ''chronos_provider_session'' c = None \<Longrightarrow>
     cookie_of ''chronos_provider_session'' (map_of (rq_headers (build_request p get_options) @ forward_cookie c) ''cookie'') = None"
  by (cases c) (auto simp: build_request_def get_options_def forward_cookie_def cookie_of_def)

lemma site_net_refuses:
  assumes "cookie_of ''chronos_provider_session'' (cookie_header (fst s)) = None"
  shows "\<exists>res. fst (site_net S e l (build_request (insight_path p) get_options) s)
     = (if l = Up then Inr res else Inl ''Failed to fetch'') \<and> ht_status res = 401"
proof (cases s)
  case (Pair jar w)
  let ?req = "build_request (insight_path p) get_options"
  define cookie where "cookie = map_of (rq_headers ?req @ forward_cookie (cookie_header jar)) ''cookie''"
  have no: "cookie_of ''chronos_provider_session'' cookie = None"
    unfolding cookie_def using assms Pair by (intro forwarded_provider) simp
  let ?r = "?req\<lparr>rq_headers := rq_headers ?req @ forward_cookie (cookie_header jar)\<rparr>"
  have hdr: "map_of (rq_headers ?r) ''cookie'' = cookie" by (simp add: cookie_def)
  have route: "rq_method ?r = ''GET''" "rq_path ?r = insight_path p" by (simp_all add: build_request_def get_options_def)
  have "ht_status (fst (fst (site_api S e ?r w))) = 401"
    unfolding site_api_def Let_def hdr route
    by (cases p) (simp_all add: handlers_refuse [OF no] reply_of_def nest_reply_def Let_def unauthorized_def)
  then show ?thesis by (cases "site_api S e ?r w") (auto simp: site_net_def Pair)
qed

lemma insight_page_locked:
  assumes "cookie_of ''chronos_provider_session'' (cookie_header (fst s)) = None"
  shows "fst (insight_page S p (site_net S e l) s) = locked l"
proof -
  let ?F = "site_net S e l"
  obtain res where F: "fst (?F (build_request (insight_path p) get_options) s) = (if l = Up then Inr res else Inl ''Failed to fetch'')"
    "ht_status res = 401"
    using site_net_refuses [OF assms, of S e l p] by blast
  have path: "insight_path p \<noteq> ''/auth/login''" by (cases p) simp_all
  have "fst (apiFetch ?F (insight_path p) get_options s) = Inl (rm_error (locked l))"
    using F path by (cases "?F (build_request (insight_path p) get_options) s") (auto simp: apiFetch_def locked_def)
  then show ?thesis
    by (cases "apiFetch ?F (insight_path p) get_options s"; cases p)
      (simp_all add: reports_page_def analytics_page_def billing_page_def load_data_def locked_def)
qed

lemma insight_locked:
  "client_jar (fst s) \<Longrightarrow> fst (open_insight S e l p s) \<in> {Screen_Login, Screen_Data (locked l)}"
  using insight_page_locked [OF client_jar_header, of s S p e l]
  by (auto simp: open_insight_def split: routed.split prod.split)

lemma site_run_keeps:
  "map_of (fst (site_run S (map (\<lambda>(a, l, e). Act a l e) acts) s)) ''chronos_provider_session'' = map_of (fst s) ''chronos_provider_session''
    \<and> queue (snd (site_run S (map (\<lambda>(a, l, e). Act a l e) acts) s)) = queue (snd s)"
proof (induction acts arbitrary: s)
  case (Cons x acts)
  obtain a l e where x: "x = (a, l, e)" by (cases x)
  have "map_of (filter (\<lambda>p. fst p \<noteq> ''chronos_session'') jar) ''chronos_provider_session'' = map_of jar ''chronos_provider_session''"
    for jar :: jar by (induction jar) auto
  then have "map_of jar' ''chronos_provider_session'' = map_of jar ''chronos_provider_session''"
    if "client_cookie_only jar jar'" for jar jar' using that by (auto simp: client_cookie_only_def Let_def)
  then show ?case
    using Cons.IH [of "site_step S e l a s"] site_step_cookies [of s S e l a]
    by (simp add: site_run_def x same_sessions_def)
qed (simp add: site_run_def)


text \<open>The administrators' login page never gets beyond its form.\<close>

lemma admin_page_stuck:
  "fst (admin_login_page (web_net S l) m pw s)
     = Login_Error (Some (JStr (if l = Up then ''Login failed'' else ''Network error'')))"
  by (simp add: admin_login_page_def submit_login_def web_net_def http_ok_def maybe_member_def)

subsection \<open>What the pages show of a failed read\<close>

lemma load_data_ok:
  assumes "F (build_request path get_options) s = (Inr res, s')" "http_ok res"
  shows "fst (load_data F path rd dflt s) = (case rd res of
      Inl m \<Rightarrow> \<lparr>rm_loading = False, rm_error = (if m = [] then dflt else m), rm_data = Some JNull\<rparr>
    | Inr d \<Rightarrow> \<lparr>rm_loading = False, rm_error = [], rm_data = Some d\<rparr>)"
  using assms by (auto simp: load_data_def apiFetch_def http_ok_def)

lemma num_not_null [simp]: "num n \<noteq> JNull"
  by (simp add: num_def)

lemma analytics_cards_json:
  "analytics_cards H (Some (analytics_json a)) =
     (let t = (\<lambda>n. js_string H (Some (num n))) in
      Inr [(''Total Bookings'', t (an_total a), t (an_completionRate a) @ ''% complete''),
           (''Completion Rate'', t (an_completionRate a) @ ''%'', t (an_completed a) @ '' completed''),
           (''Cancellation Rate'', t (an_cancellationRate a) @ ''%'', t (an_cancelled a) @ '' cancelled''),
           (''Utilization'', t (an_utilization a) @ ''%'', int_text (int (length (an_bookings a))) @ '' records'')])"
  by (simp add: analytics_cards_def analytics_json_def part_def maybe_member_def figure_def list_member_def Let_def
      del: js_string.simps)

text \<open>A read of the analytics that fails in the database is drawn as figures of zero without a word, while the reports show
  the message of the failure.\<close>

theorem failed_read_shown:
  assumes "F (build_request ''/analytics'' get_options) s
      = (Inr (nest_reply H 200 (Inr (analytics_json (zero_analytics dates)))), s')"
    and "F (build_request ''/reports'' get_options) s
      = (Inr (nest_reply H 200 (Inr (report_json (failed_report dates m)))), s')" "m \<noteq> []"
  shows "rm_error (fst (analytics_page H te F s)) = []
    \<and> analytics_cards H (rm_data (fst (analytics_page H te F s))) = Inr [(''Total Bookings'', ''0'', ''0% complete''),
        (''Completion Rate'', ''0%'', ''0 completed''), (''Cancellation Rate'', ''0%'', ''0 cancelled''),
        (''Utilization'', ''0%'', ''0 records'')]
    \<and> rm_error (fst (reports_page H te F s)) = m"
proof -
  have a: "fst (analytics_page H te F s)
      = \<lparr>rm_loading = False, rm_error = [], rm_data = Some (analytics_json (zero_analytics dates))\<rparr>"
    unfolding analytics_page_def by (subst load_data_ok [of F _ s, OF assms(1)]) (simp_all add: read_answer_def nest_reply_def http_ok_def Let_def)
  have r: "fst (reports_page H te F s) = \<lparr>rm_loading = False, rm_error = m, rm_data = Some JNull\<rparr>"
    unfolding reports_page_def using assms(3)
    by (subst load_data_ok [of F _ s, OF assms(2)])
      (auto simp: read_report_def read_answer_def nest_reply_def http_ok_def Let_def report_json_def failed_report_def maybe_member_def or_else_def)
  have zero: "int_text 0 = ''0''" by code_simp
  show ?thesis unfolding a r by (simp add: analytics_cards_json zero_analytics_def num_def zero)
qed

text \<open>The profile the API sends has its picture under another name, so the frame never shows it.\<close>

definition profile_json :: "profile_view \<Rightarrow> jv" where
  "profile_json v = written [(''id'', pv_id v), (''name'', pv_name v), (''slug'', pv_slug v), (''timezone'', pv_timezone v),
     (''cancellationWindowHours'', pv_cancellationWindowHours v), (''minimumBookingNotice'', pv_minimumBookingNotice v),
     (''avatarUrl'', pv_avatarUrl v), (''createdAt'', pv_createdAt v), (''updatedAt'', pv_updatedAt v)]"

lemma written_member: "k \<notin> fst ` set kvs \<Longrightarrow> member k (Some (written kvs)) = Inr None"
  by (induction kvs) (auto simp: written_def split: option.split)

theorem shell_never_shows_picture:
  assumes "F (plain_request ''GET'' ''/providers/me'') s = (Inr (nest_reply H 200 (Inr (profile_json v))), s')"
  shows "sh_avatarUrl (fst (shell_load F sh s)) = sh_avatarUrl sh"
proof -
  have "member ''avatar_url'' (Some (profile_json v)) = Inr None"
    unfolding profile_json_def by (rule written_member) simp
  then show ?thesis
    using assms by (simp add: shell_load_def nest_reply_def http_ok_def take_profile_def Let_def)
qed

text \<open>What the billing page draws of the API's answer.\<close>

lemma billing_figures_json:
  "billing_figures H (Some (billing_json b)) = (let t = (\<lambda>n. js_string H (Some (num n))) in
     Inr [''Professional'', ''active'', ''Billed monthly'', t (int (bl_bookingsThisMonth b)), t (int (bl_eventTypes b)),
       t (int (bl_clients b)), CHR ''$'' # t (bl_revenue b), t (int (bl_completed b)) @ '' completed bookings with event-type prices''])"
proof -
  have num: "js_string H (if Some (num n) \<in> {None, Some JNull} then Some (JNum 0) else Some (num n)) = js_string H (Some (num n))" for n
    by simp
  show ?thesis
    by (simp add: billing_figures_def billing_json_def part_def maybe_member_def figure_def text_or_def Let_def num)
qed

end
