(* ===== verification/Web_Dashboard.thy ===== *)
theory Web_Dashboard
  imports Web_Session
begin

text \<open>
  The dashboard (\<^verbatim>\<open>app/dashboard/page.tsx\<close>): what it loads, the next and today's appointments and their rows; and the
  picture chosen on the settings page (\<^verbatim>\<open>app/settings/page.tsx\<close>). Local time texts come from the platform.
\<close>

subsection \<open>Loading\<close>

text \<open>The body is read before the status is looked at.\<close>

definition dashboard_read :: "web_host \<Rightarrow> string \<Rightarrow> http \<Rightarrow> string + jv" where
  "dashboard_read H type_error res = (case ht_json res of None \<Rightarrow> Inl (parse_error H)
     | Some v \<Rightarrow>
         if ht_status res = 401 then Inl ''Authentication required''
         else if \<not> http_ok res then
           (case first_true [maybe_member ''message'' (Some v), maybe_member ''error'' (Some v),
               Inr (Some (JStr (''Request failed ('' @ int_text (ht_status res) @ '')'')))] of
              Inl _ \<Rightarrow> Inl type_error | Inr x \<Rightarrow> Inl (js_string H x))
         else Inr v)"

text \<open>The bookings shown: the answer when it is a list, else those of the mock data when it is switched on.\<close>

definition dashboard_load ::
    "web_host \<Rightarrow> string \<Rightarrow> jv list option \<Rightarrow> 's net \<Rightarrow> 's \<Rightarrow> (string \<times> jv list) \<times> 's" where
  "dashboard_load H te mock F s =
     (case load_data F ''/appointments'' (dashboard_read H te) ''Failed to load'' s of (r, s') \<Rightarrow>
        ((rm_error r, if rm_error r \<noteq> [] then []
           else case rm_data r of Some (JArr bs) \<Rightarrow> bs | _ \<Rightarrow> (case mock of None \<Rightarrow> [] | Some bs \<Rightarrow> bs)), s'))"

definition activities_load :: "'s net \<Rightarrow> 's \<Rightarrow> jv list \<times> 's" where
  "activities_load F s =
     (case apiFetch F ''/activity'' get_options s of
        (Inl _, s') \<Rightarrow> ([], s')
      | (Inr res, s') \<Rightarrow> (if \<not> http_ok res then []
          else case member ''activities'' (ht_json res) of Inr (Some (JArr xs)) \<Rightarrow> take 5 xs | _ \<Rightarrow> [], s'))"

subsection \<open>The next appointment\<close>

definition start_value :: "web_host \<Rightarrow> jv \<Rightarrow> js_error + int option" where
  "start_value H b = sbind (first_true [member ''slotStartUtc'' (Some b), member ''slot_start_utc'' (Some b), empty_text])
     (\<lambda>v. Inr (case v of None \<Rightarrow> None | Some x \<Rightarrow> date_value H x))"

definition upcoming :: "web_host \<Rightarrow> int \<Rightarrow> jv list \<Rightarrow> js_error + (int \<times> jv) list" where
  "upcoming H n bs = sbind (js_map (\<lambda>b. sbind (start_value H b) (\<lambda>t. Inr (t, b))) bs) (\<lambda>ps.
     Inr (sort_key fst (List.map_filter (\<lambda>(t, b). case t of None \<Rightarrow> None | Some x \<Rightarrow> if n < x then Some (x, b) else None) ps)))"

text \<open>\<open>"Next: " + first ? text : dash\<close>, where the sum is the condition. The clock is read anew for the text.\<close>

definition next_label :: "web_host \<Rightarrow> (int \<Rightarrow> string) \<Rightarrow> int \<Rightarrow> int \<Rightarrow> jv list \<Rightarrow> js_error + string" where
  "next_label H hour_text n n' bs = sbind (upcoming H n bs) (\<lambda>first.
     if ''Next: '' @ js_string H (case first of [] \<Rightarrow> None | p # _ \<Rightarrow> Some (snd p)) \<noteq> []
     then sbind (upcoming H n' bs) (\<lambda>later. Inr (case later of [] \<Rightarrow> em_dash | p # _ \<Rightarrow> hour_text (fst p)))
     else Inr em_dash)"

subsection \<open>Rows\<close>

text \<open>Today's bookings by their start; in what order the platform sorts values without a date is its own affair (\<open>None\<close>).\<close>

definition sort_value :: "web_host \<Rightarrow> jv \<Rightarrow> js_error + int option" where
  "sort_value H b = sbind (first_true [member ''slot_start_utc'' (Some b), member ''slotStartUtc'' (Some b), empty_text])
     (\<lambda>v. Inr (case v of None \<Rightarrow> None | Some x \<Rightarrow> date_value H x))"

definition todayFiltered ::
    "web_host \<Rightarrow> (string \<Rightarrow> int option \<Rightarrow> string) \<Rightarrow> string \<Rightarrow> int \<Rightarrow> jv list \<Rightarrow> js_error + jv list option" where
  "todayFiltered H local_date tz n bs = sbind (js_filter (starts_today H local_date tz n) bs) (\<lambda>today.
     Inr (if list_all (\<lambda>b. case sort_value H b of Inr (Some _) \<Rightarrow> True | _ \<Rightarrow> False) today
       then Some (sort_key (\<lambda>b. case sort_value H b of Inr (Some t) \<Rightarrow> t | _ \<Rightarrow> 0) today) else None))"

definition row_booked :: "js \<Rightarrow> bool" where
  "row_booked st \<longleftrightarrow> st \<in> (Some \<circ> JStr) ` set [''booked'', ''BOOKED'', ''confirmed'', ''CONFIRMED'']"

definition row_badge :: "web_host \<Rightarrow> jv \<Rightarrow> js_error + string \<times> string" where
  "row_badge H b = sbind (member ''status'' (Some b)) (\<lambda>st.
     Inr (if row_booked st then (''success'', ''Upcoming'') else (''danger'', js_string H st)))"

text \<open>The buttons of a row: a request when the row has an identifier, and a reload when the answer is a success.\<close>

definition row_button :: "web_host \<Rightarrow> 's net \<Rightarrow> string \<Rightarrow> jv \<Rightarrow> 's \<Rightarrow> bool \<times> 's" where
  "row_button H F act b s =
     (case first_true [member ''id'' (Some b), member ''booking_id'' (Some b)] of
        Inr i \<Rightarrow> if \<not> js_true i then (False, s)
          else (case F (plain_request ''POST'' (''/bookings/'' @ js_string H i @ ''/'' @ act)) s of
              (Inl _, s') \<Rightarrow> (False, s') | (Inr r, s') \<Rightarrow> (http_ok r, s'))
      | Inl _ \<Rightarrow> (False, s))"

subsection \<open>The picture on the settings page\<close>

text \<open>\<open>/.(jpe?g|png|gif)$/i\<close>: any character, then one of the endings in any case.\<close>

definition has_ending :: "string \<Rightarrow> string \<Rightarrow> bool" where
  "has_ending ending name = (length ending < length name
     \<and> map lower_char (drop (length name - length ending) name) = ending
     \<and> name ! (length name - length ending - 1) \<notin> {CHR 0x0A, CHR 0x0D})"

definition picture_name :: "string \<Rightarrow> bool" where
  "picture_name name = list_ex (\<lambda>ending. has_ending ending name) [''jpg'', ''jpeg'', ''png'', ''gif'']"

datatype photo = Refused_Photo string | Sent_Photo

definition photo_check :: "string \<Rightarrow> int \<Rightarrow> photo" where
  "photo_check name weight = (if 1024 * 1024 < weight then Refused_Photo ''File exceeds 1MB''
     else if \<not> picture_name name then Refused_Photo ''Only JPG, PNG, GIF allowed'' else Sent_Photo)"

text \<open>The picture shown afterwards and the alert, if any. The body is multipart data, which is no JSON.\<close>

definition photo_upload ::
    "web_host \<Rightarrow> string \<Rightarrow> 's net \<Rightarrow> string \<Rightarrow> int \<Rightarrow> js \<Rightarrow> 's \<Rightarrow> (js \<times> string option) \<times> 's" where
  "photo_upload H te F name weight shown s = (case photo_check name weight of
       Refused_Photo m \<Rightarrow> ((shown, Some m), s)
     | Sent_Photo \<Rightarrow> (case F (plain_request ''POST'' ''/providers/me/avatar'') s of
           (Inl m, s') \<Rightarrow> ((shown, Some (''Upload error: '' @ m)), s')
         | (Inr r, s') \<Rightarrow>
             (let d = (case ht_json r of None \<Rightarrow> Some (JObj []) | Some v \<Rightarrow> Some v);
                  failed = (case first_true [member ''error'' d, Inr (Some (JStr ''Unknown''))] of
                    Inl _ \<Rightarrow> ''Upload error: '' @ te | Inr x \<Rightarrow> ''Upload failed: '' @ js_string H x) in
              (if \<not> http_ok r then (shown, Some failed)
               else case member ''avatar_url'' d of Inl _ \<Rightarrow> (shown, Some (''Upload error: '' @ te))
                 | Inr u \<Rightarrow> if js_true u then (u, None) else (shown, Some failed), s'))))"

subsection \<open>What the dashboard shows\<close>

lemma upcoming_Inr:
  assumes "upcoming H n bs = Inr ps"
  shows "sorted (map fst ps)" "\<forall>(t, b) \<in> set ps. n < t \<and> b \<in> set bs \<and> start_value H b = Inr (Some t)"
    "\<forall>b \<in> set bs. \<forall>t. start_value H b = Inr (Some t) \<longrightarrow> n < t \<longrightarrow> (t, b) \<in> set ps"
proof -
  obtain qs where qs: "js_map (\<lambda>b. sbind (start_value H b) (\<lambda>t. Inr (t, b))) bs = Inr qs"
    and ps: "ps = sort_key fst (List.map_filter (\<lambda>(t, b). case t of None \<Rightarrow> None | Some x \<Rightarrow> if n < x then Some (x, b) else None) qs)"
    using assms by (auto simp: upcoming_def sbind_Inr_iff)
  have "list_all2 (\<lambda>b q. \<exists>t. start_value H b = Inr t \<and> q = (t, b)) bs qs"
    using js_map_Inr [OF qs] by (auto simp: sbind_Inr_iff elim: list_all2_mono)
  then have "q \<in> set qs \<longleftrightarrow> (\<exists>b \<in> set bs. \<exists>t. start_value H b = Inr t \<and> q = (t, b))" for q
    by induction auto
  note qs_set = this
  have "(t, b) \<in> set ps \<longleftrightarrow> n < t \<and> (Some t, b) \<in> set qs" for t b
    unfolding ps by (force simp: set_sort map_filter_def split: option.splits if_splits)
  then show "\<forall>(t, b) \<in> set ps. n < t \<and> b \<in> set bs \<and> start_value H b = Inr (Some t)"
    "\<forall>b \<in> set bs. \<forall>t. start_value H b = Inr (Some t) \<longrightarrow> n < t \<longrightarrow> (t, b) \<in> set ps"
    by (auto simp: qs_set)
  show "sorted (map fst ps)" unfolding ps by (rule sorted_sort_key)
qed

text \<open>The label is the time of the first booking after the clock's reading, or a dash when there is none. The words
  \<open>Next:\<close> are never part of it.\<close>

theorem next_label_first:
  assumes "next_label H hour_text n n' bs = Inr l"
  shows "(l = em_dash \<and> (\<forall>b \<in> set bs. \<forall>t. start_value H b = Inr (Some t) \<longrightarrow> t \<le> n'))
    \<or> (\<exists>b \<in> set bs. \<exists>t. start_value H b = Inr (Some t) \<and> n' < t \<and> l = hour_text t
        \<and> (\<forall>c \<in> set bs. \<forall>u. start_value H c = Inr (Some u) \<longrightarrow> n' < u \<longrightarrow> t \<le> u))"
proof -
  obtain later where later: "upcoming H n' bs = Inr later"
    and l: "l = (case later of [] \<Rightarrow> em_dash | p # _ \<Rightarrow> hour_text (fst p))"
    using assms by (auto simp: next_label_def sbind_Inr_iff)
  note up = upcoming_Inr [OF later]
  show ?thesis
  proof (cases later)
    case Nil
    then show ?thesis using up(3) l by force
  next
    case (Cons p ps)
    obtain t b where p: "p = (t, b)" by (cases p)
    have "t \<le> u" if "(u, c) \<in> set later" for u c using up(1) that Cons p by force
    then have "\<forall>c \<in> set bs. \<forall>u. start_value H c = Inr (Some u) \<longrightarrow> n' < u \<longrightarrow> t \<le> u" using up(3) by blast
    moreover have "b \<in> set bs \<and> start_value H b = Inr (Some t) \<and> n' < t" using up(2) Cons p by auto
    ultimately show ?thesis using l Cons p by auto
  qed
qed

lemma todayFiltered_Inr:
  assumes "todayFiltered H local_date tz n bs = Inr (Some ys)"
  shows "mset ys = mset (filter (\<lambda>b. starts_today H local_date tz n b = Inr True) bs)"
    "sorted (map (\<lambda>b. case sort_value H b of Inr (Some t) \<Rightarrow> t | _ \<Rightarrow> 0) ys)"
  using assms by (auto simp: todayFiltered_def sbind_Inr_iff split: if_splits dest!: js_filter_Inr)

text \<open>The dashboard of anybody, signed in or not, is computed from everybody's bookings.\<close>

theorem dashboard_shows_all:
  assumes "appointments_list None None e w = (Inr ls, w')"
  shows "fst (dashboard_load H te mock (browser cookie (api H e q)) w) = ([], map listed_json ls)"
proof -
  have path: "split_on (CHR ''/'') ''/appointments'' = [[], ''appointments'']" by code_simp
  have "browser cookie (api H e q) (build_request ''/appointments'' get_options) w
      = (Inr (nest_reply H 200 (Inr (JArr (map listed_json ls)))), w')"
    using assms by (simp add: browser_def api_def answer_def build_request_def get_options_def path)
  then have "fst (load_data (browser cookie (api H e q)) ''/appointments'' (dashboard_read H te) ''Failed to load'' w)
      = \<lparr>rm_loading = False, rm_error = [], rm_data = Some (JArr (map listed_json ls))\<rparr>"
    by (subst load_data_ok) (auto simp: dashboard_read_def nest_reply_def http_ok_def Let_def)
  then show ?thesis by (simp add: dashboard_load_def case_prod_beta)
qed

text \<open>The check of the file's name takes any character for the dot.\<close>

lemma picture_without_dot: "photo_check ''jpg-of-a.notpng'' 1024 = Sent_Photo" "photo_check ''png'' 1024 \<noteq> Sent_Photo"
  by code_simp+

end
