(* ===== verification/Calendar_Page.thy ===== *)
theory Calendar_Page
  imports Web_Lists
begin

text \<open>
  The page \<^verbatim>\<open>apps/web/src/app/calendar/page.tsx\<close>: moving between months, the grid of a month, and the bookings its
  views put into their cells. Dates are instants. The zone of the browser is a parameter: the local time of an
  instant, counted in milliseconds like an instant, and the instant of a local time.
\<close>

subsection \<open>Local dates\<close>

record browser_clock =
  to_local :: "int \<Rightarrow> int"
  of_local :: "int \<Rightarrow> int"

text \<open>A local midnight, or the first moment of its day where the clocks skip it, falls on that day.\<close>

definition keeps_days :: "browser_clock \<Rightarrow> bool" where
  "keeps_days B \<longleftrightarrow> (\<forall>n. to_local B (of_local B (n * ms_per_day)) div ms_per_day = n)"

text \<open>\<open>new Date(y, m, d)\<close> with the month counted from 0; months and days out of range carry over.\<close>

definition make_day :: "int \<Rightarrow> int \<Rightarrow> int \<Rightarrow> int" where
  "make_day y m d = epoch_day (Civil (y + m div 12) (m mod 12 + 1) 1) + d - 1"

definition new_date :: "browser_clock \<Rightarrow> int \<Rightarrow> int \<Rightarrow> int \<Rightarrow> int" where
  "new_date B y m d = of_local B (make_day y m d * ms_per_day)"

definition local_day :: "browser_clock \<Rightarrow> int \<Rightarrow> int" where
  "local_day B t = to_local B t div ms_per_day"

definition getFullYear :: "browser_clock \<Rightarrow> int \<Rightarrow> int" where
  "getFullYear B t = c_year (civil_of_day (local_day B t))"

definition getMonth :: "browser_clock \<Rightarrow> int \<Rightarrow> int" where
  "getMonth B t = c_month (civil_of_day (local_day B t)) - 1"

definition getDate :: "browser_clock \<Rightarrow> int \<Rightarrow> int" where
  "getDate B t = c_day (civil_of_day (local_day B t))"

text \<open>Sunday is 0.\<close>

definition getDay :: "browser_clock \<Rightarrow> int \<Rightarrow> int" where
  "getDay B t = (local_day B t + 4) mod 7"

definition utc_date :: "int \<Rightarrow> civil" where
  "utc_date t = civil_of_day (t div ms_per_day)"

subsection \<open>The page and its months\<close>

datatype calendar_view = Month_View | Week_View | Day_View | Agenda_View

record calendar_page =
  cp_view :: calendar_view
  cp_monthStart :: int
  cp_selected :: int
  cp_bookings :: "jv list"
  cp_error :: string
  cp_filter :: string

definition calendar_load :: "web_host \<Rightarrow> 's net \<Rightarrow> calendar_page \<Rightarrow> 's \<Rightarrow> calendar_page \<times> 's" where
  "calendar_load H F pg s = (case load_list H F ''/bookings'' ''Failed'' s of
     (l, s') \<Rightarrow> (pg\<lparr>cp_bookings := lv_items l, cp_error := lv_error l\<rparr>, s'))"

definition goToday :: "browser_clock \<Rightarrow> int \<Rightarrow> calendar_page \<Rightarrow> calendar_page" where
  "goToday B t pg = pg\<lparr>cp_monthStart := new_date B (getFullYear B t) (getMonth B t) 1, cp_selected := t\<rparr>"

definition move_month :: "browser_clock \<Rightarrow> int \<Rightarrow> calendar_page \<Rightarrow> calendar_page" where
  "move_month B k pg = (let d = new_date B (getFullYear B (cp_monthStart pg)) (getMonth B (cp_monthStart pg) + k) 1 in
     pg\<lparr>cp_monthStart := d, cp_selected := d\<rparr>)"

definition goPrev :: "browser_clock \<Rightarrow> calendar_page \<Rightarrow> calendar_page" where
  "goPrev B = move_month B (- 1)"

definition goNext :: "browser_clock \<Rightarrow> calendar_page \<Rightarrow> calendar_page" where
  "goNext B = move_month B 1"

definition daysInMonth :: "browser_clock \<Rightarrow> calendar_page \<Rightarrow> int" where
  "daysInMonth B pg = getDate B (new_date B (getFullYear B (cp_monthStart pg)) (getMonth B (cp_monthStart pg) + 1) 0)"

definition firstDay :: "browser_clock \<Rightarrow> calendar_page \<Rightarrow> int" where
  "firstDay B pg = getDay B (new_date B (getFullYear B (cp_monthStart pg)) (getMonth B (cp_monthStart pg)) 1)"

definition month_day :: "browser_clock \<Rightarrow> calendar_page \<Rightarrow> int \<Rightarrow> int" where
  "month_day B pg d = new_date B (getFullYear B (cp_monthStart pg)) (getMonth B (cp_monthStart pg)) d"

text \<open>The cells of the grid, seven to a row: empty ones, then the days.\<close>

definition month_cells :: "browser_clock \<Rightarrow> calendar_page \<Rightarrow> int option list" where
  "month_cells B pg = replicate (nat (firstDay B pg)) None @ map (\<lambda>i. Some (int i + 1)) [0..<nat (daysInMonth B pg)]"

subsection \<open>The bookings of the views\<close>

definition visibleBookings :: "web_host \<Rightarrow> calendar_page \<Rightarrow> js_error + jv list" where
  "visibleBookings H pg = js_filter (\<lambda>b.
     if cp_filter pg = [] then Inr True
     else sbind (first_true [member ''eventType'' (Some b), member ''event_type'' (Some b), empty_text]) (\<lambda>e.
       sbind (js_lower H e) (\<lambda>et. Inr (str_includes (to_lower H (cp_filter pg)) et)))) (cp_bookings pg)"

definition start_value :: "jv \<Rightarrow> js_error + js" where
  "start_value b = first_true [member ''slot_start_utc'' (Some b), member ''slotStartUtc'' (Some b), empty_text]"

text \<open>\<open>new Date(start + 'Z')\<close> in the month view, \<open>new Date(start)\<close> in the others.\<close>

definition month_start_of :: "web_host \<Rightarrow> jv \<Rightarrow> js_error + int option" where
  "month_start_of H b = sbind (start_value b) (\<lambda>x. Inr (date_value H (JStr (js_string H x @ ''Z''))))"

definition start_of :: "web_host \<Rightarrow> jv \<Rightarrow> js_error + int option" where
  "start_of H b = sbind (start_value b) (\<lambda>x. Inr (case x of None \<Rightarrow> None | Some v \<Rightarrow> date_value H v))"

definition in_month_cell :: "web_host \<Rightarrow> browser_clock \<Rightarrow> calendar_page \<Rightarrow> int \<Rightarrow> jv \<Rightarrow> js_error + bool" where
  "in_month_cell H B pg d b = sbind (month_start_of H b) (\<lambda>t. Inr (case t of None \<Rightarrow> False
     | Some t \<Rightarrow> c_day (utc_date t) = c_day (utc_date (month_day B pg d)) \<and> c_month (utc_date t) = c_month (utc_date (month_day B pg d))))"

text \<open>At most three bookings are drawn in a cell.\<close>

definition month_cell :: "web_host \<Rightarrow> browser_clock \<Rightarrow> calendar_page \<Rightarrow> int \<Rightarrow> js_error + jv list" where
  "month_cell H B pg d = sbind (visibleBookings H pg) (\<lambda>bs. sbind (js_filter (in_month_cell H B pg d) bs) (\<lambda>cs. Inr (take 3 cs)))"

text \<open>Column \<open>i\<close> of the week is the selected date moved by \<open>i - 3\<close> days in local time.\<close>

definition week_day :: "browser_clock \<Rightarrow> calendar_page \<Rightarrow> int \<Rightarrow> int" where
  "week_day B pg i = of_local B (to_local B (cp_selected pg) + (i - 3) * ms_per_day)"

definition week_column :: "web_host \<Rightarrow> browser_clock \<Rightarrow> calendar_page \<Rightarrow> int \<Rightarrow> js_error + jv list" where
  "week_column H B pg i = sbind (visibleBookings H pg) (\<lambda>bs. js_filter (\<lambda>b. sbind (start_of H b) (\<lambda>t.
     Inr (case t of None \<Rightarrow> False | Some t \<Rightarrow> c_day (utc_date t) = c_day (utc_date (week_day B pg i))))) bs)"

text \<open>\<open>toISOString().slice(0, 10)\<close>, which throws for a date that is none.\<close>

definition day_list :: "web_host \<Rightarrow> calendar_page \<Rightarrow> js_error + jv list" where
  "day_list H pg = sbind (visibleBookings H pg) (\<lambda>bs. js_filter (\<lambda>b. sbind (start_of H b) (\<lambda>t.
     case t of None \<Rightarrow> Inl Range_Error
     | Some t \<Rightarrow> Inr (take 10 (toISOString t) = take 10 (toISOString (cp_selected pg))))) bs)"

definition agenda :: "web_host \<Rightarrow> calendar_page \<Rightarrow> js_error + jv list" where
  "agenda H pg = visibleBookings H pg"

subsection \<open>The grid\<close>

definition month_number :: "browser_clock \<Rightarrow> calendar_page \<Rightarrow> int" where
  "month_number B pg = 12 * getFullYear B (cp_monthStart pg) + getMonth B (cp_monthStart pg)"

lemma local_day_new_date: "keeps_days B \<Longrightarrow> local_day B (new_date B y m d) = make_day y m d"
  by (simp add: local_day_def new_date_def keeps_days_def)

lemma month_range: "0 \<le> getMonth B t \<and> getMonth B t < 12"
  using civil_of_day_correct(1) [of "local_day B t"] by (cases "civil_of_day (local_day B t)") (simp add: getMonth_def)

lemma civil_first: "civil_of_day (make_day y m 1) = Civil (y + m div 12) (m mod 12 + 1) 1"
proof -
  have "valid_civil (Civil (y + m div 12) (m mod 12 + 1) 1)"
    using days_in_month_pos [of "y + m div 12" "m mod 12 + 1"] by auto
  from civil_of_day_epoch_day [OF this] show ?thesis by (simp add: make_day_def del: epoch_day.simps)
qed

lemma make_day_shift: "make_day y m d = make_day y m 1 + (d - 1)"
  by (simp add: make_day_def)

lemma next_month_civil:
  "next_civil (Civil (y + m div 12) (m mod 12 + 1) (days_in_month (y + m div 12) (m mod 12 + 1)))
    = Civil (y + (m + 1) div 12) ((m + 1) mod 12 + 1) 1"
proof (cases "m mod 12 = 11")
  case True
  have m: "m + 1 = 12 * (m div 12 + 1) + 0" using True mult_div_mod_eq [of 12 m] by (simp add: algebra_simps)
  have q: "(m + 1) div 12 = m div 12 + 1" "(m + 1) mod 12 = 0"
    by (rule int_div_pos_eq [OF m] int_mod_pos_eq [OF m]; simp)+
  show ?thesis unfolding q True by (simp add: add.assoc)
next
  case False
  have "m mod 12 < 12" "0 \<le> m mod 12" by simp_all
  then have r: "m mod 12 + 1 < 12" "0 \<le> m mod 12 + 1" using False by linarith+
  have m: "m + 1 = 12 * (m div 12) + (m mod 12 + 1)" by simp
  have q: "(m + 1) div 12 = m div 12" "(m + 1) mod 12 = m mod 12 + 1" "m mod 12 + 1 < 12"
    using int_div_pos_eq [OF m r(2,1)] int_mod_pos_eq [OF m r(2,1)] r(1) by simp_all
  show ?thesis unfolding q(1,2) using q(3) by (simp only: next_civil.simps if_True less_irrefl if_False)
qed

lemma weekday_shift: "((x + 4) mod 7 + d - 1) mod 7 = (x + (d - 1) + 4) mod (7 :: int)"
proof -
  have "((x + 4) mod 7 + d - 1) mod 7 = ((x + 4) mod 7 + (d - 1)) mod 7" by (simp add: algebra_simps)
  also have "\<dots> = (x + 4 + (d - 1)) mod 7" by (rule mod_add_left_eq)
  finally show ?thesis by (simp add: algebra_simps)
qed

lemma epoch_day_in_month: "epoch_day (Civil y m d) = epoch_day (Civil y m 1) + (d - 1)"
  by simp

lemma make_day_next:
  "make_day y (m + 1) 1 = make_day y m 1 + days_in_month (y + m div 12) (m mod 12 + 1)"
proof -
  let ?y = "y + m div 12" and ?m = "m mod 12 + 1"
  let ?n = "days_in_month ?y ?m"
  have "valid_civil (Civil ?y ?m ?n)" using days_in_month_pos [of ?y ?m] by auto
  from epoch_day_next_civil [OF this, unfolded next_month_civil] epoch_day_in_month [of ?y ?m ?n]
  show ?thesis unfolding make_day_def by linarith
qed

lemma civil_in_month:
  assumes "1 \<le> d" "d \<le> days_in_month (y + m div 12) (m mod 12 + 1)"
  shows "civil_of_day (make_day y m d) = Civil (y + m div 12) (m mod 12 + 1) d"
proof -
  have "valid_civil (Civil (y + m div 12) (m mod 12 + 1) d)" using assms by auto
  moreover have "make_day y m d = epoch_day (Civil (y + m div 12) (m mod 12 + 1) d)"
    using epoch_day_in_month [of "y + m div 12" "m mod 12 + 1" d] unfolding make_day_def by linarith
  ultimately show ?thesis using civil_of_day_epoch_day by metis
qed

lemma month_number_move: "keeps_days B \<Longrightarrow> month_number B (move_month B k pg) = month_number B pg + k"
  by (simp add: month_number_def move_month_def Let_def getFullYear_def [of B "new_date B _ _ _"]
      getMonth_def [of B "new_date B _ _ _"] local_day_new_date civil_first)

definition shown_month :: "browser_clock \<Rightarrow> calendar_page \<Rightarrow> int \<times> int" where
  "shown_month B pg = (getFullYear B (cp_monthStart pg), getMonth B (cp_monthStart pg) + 1)"

lemma daysInMonth_shown:
  assumes "keeps_days B" "shown_month B pg = (y, m)"
  shows "daysInMonth B pg = days_in_month y m"
proof -
  let ?m = "getMonth B (cp_monthStart pg)"
  have ym: "y = getFullYear B (cp_monthStart pg)" "m = ?m + 1" using assms(2) by (simp_all add: shown_month_def)
  have r: "?m div 12 = 0" "?m mod 12 = ?m" using month_range [of B "cp_monthStart pg"] by simp_all
  let ?n = "days_in_month y m"
  have "make_day y (?m + 1) 0 = make_day y ?m ?n"
    using make_day_next [of y ?m] make_day_shift [of y "?m + 1" 0] make_day_shift [of y ?m ?n] by (simp add: r ym(2))
  then have "civil_of_day (make_day y (?m + 1) 0) = Civil y m ?n"
    using civil_in_month [of ?n y ?m] days_in_month_pos [of y m] by (simp add: r ym(2))
  then show ?thesis by (simp add: daysInMonth_def getDate_def local_day_new_date [OF assms(1)] flip: ym)
qed

lemma firstDay_range: "0 \<le> firstDay B pg \<and> firstDay B pg < 7"
  by (simp add: firstDay_def getDay_def)

lemma month_cell_day:
  assumes "keeps_days B" "shown_month B pg = (y, m)" "1 \<le> d" "d \<le> days_in_month y m"
  shows "civil_of_day (local_day B (month_day B pg d)) = Civil y m d"
    "(firstDay B pg + d - 1) mod 7 = getDay B (month_day B pg d)"
    "month_cells B pg ! nat (firstDay B pg + d - 1) = Some d"
    "length (month_cells B pg) = nat (firstDay B pg + days_in_month y m)"
proof -
  let ?m = "getMonth B (cp_monthStart pg)"
  have ym: "y = getFullYear B (cp_monthStart pg)" "m = ?m + 1" using assms(2) by (simp_all add: shown_month_def)
  have r: "?m div 12 = 0" "?m mod 12 = ?m" using month_range [of B "cp_monthStart pg"] by simp_all
  show "civil_of_day (local_day B (month_day B pg d)) = Civil y m d"
    using civil_in_month [of d y ?m] assms(3,4) ym(2) by (simp add: month_day_def local_day_new_date [OF assms(1)] r flip: ym(1))
  show "(firstDay B pg + d - 1) mod 7 = getDay B (month_day B pg d)"
    unfolding firstDay_def getDay_def month_day_def local_day_new_date [OF assms(1)] make_day_shift [of _ ?m d]
    by (rule weekday_shift)
  have f: "0 \<le> firstDay B pg" using firstDay_range by blast
  have n: "daysInMonth B pg = days_in_month y m" by (rule daysInMonth_shown [OF assms(1,2)])
  have "nat (firstDay B pg + d - 1) = nat (firstDay B pg) + nat (d - 1)" using f assms(3) by simp
  then show "month_cells B pg ! nat (firstDay B pg + d - 1) = Some d"
    using assms(3,4) by (simp add: month_cells_def nth_append n)
  show "length (month_cells B pg) = nat (firstDay B pg + days_in_month y m)"
    using f days_in_month_pos [of y m] by (simp add: month_cells_def n nat_add_distrib)
qed

text \<open>C39. The month grid is the calendar's: Next and Previous move by exactly one month, over the ends of years too; the
  grid has one cell for each day of the month shown, at most six rows of them, and the cell of a day stands in
  the column of its weekday and stands for that date.\<close>

theorem month_grid:
  assumes "keeps_days B" "shown_month B pg = (y, m)"
  shows "month_number B (goNext B pg) = month_number B pg + 1 \<and> month_number B (goPrev B pg) = month_number B pg - 1
    \<and> length (month_cells B pg) = nat (firstDay B pg + days_in_month y m) \<and> length (month_cells B pg) \<le> 42
    \<and> (\<forall>d. 1 \<le> d \<and> d \<le> days_in_month y m \<longrightarrow>
        (let i = firstDay B pg + d - 1 in month_cells B pg ! nat i = Some d \<and> i mod 7 = getDay B (month_day B pg d)
          \<and> civil_of_day (local_day B (month_day B pg d)) = Civil y m d))"
proof -
  have "days_in_month y m \<le> 31" by (simp add: days_in_month_def)
  moreover have "1 \<le> days_in_month y m" using days_in_month_pos [of y m] by simp
  ultimately show ?thesis
    using month_cell_day [OF assms] firstDay_range [of B pg]
    by (simp add: goNext_def goPrev_def month_number_move [OF assms(1)] Let_def nat_le_iff)
qed

definition utc_clock :: browser_clock where
  "utc_clock = \<lparr>to_local = id, of_local = id\<rparr>"

definition november :: calendar_page where
  "november = \<lparr>cp_view = Month_View, cp_monthStart = 1793491200000, cp_selected = 1793491200000, cp_bookings = [], cp_error = [], cp_filter = []\<rparr>"

lemma utc_keeps_days: "keeps_days utc_clock"
  by (simp add: keeps_days_def utc_clock_def ms_per_day_def)

theorem month_grid_witness:
  "length (month_cells utc_clock november) = 30 \<and> month_cells utc_clock november ! 1 = Some 2
     \<and> getDay utc_clock (month_day utc_clock november 2) = 1
     \<and> civil_of_day (local_day utc_clock (month_day utc_clock november 2)) = Civil 2026 11 2"
proof -
  have s: "shown_month utc_clock november = (2026, 11)" "firstDay utc_clock november = 0" by code_simp+
  have n: "days_in_month 2026 11 = 30" by (simp add: days_in_month_def)
  note grid = month_grid [OF utc_keeps_days s(1), unfolded n s(2) Let_def]
  then have "\<forall>d. 1 \<le> d \<and> d \<le> 30 \<longrightarrow> month_cells utc_clock november ! nat (0 + d - 1) = Some d
      \<and> (0 + d - 1) mod 7 = getDay utc_clock (month_day utc_clock november d)
      \<and> civil_of_day (local_day utc_clock (month_day utc_clock november d)) = Civil 2026 11 d" by blast
  from this [THEN spec [of _ 2]] grid show ?thesis by simp
qed

subsection \<open>The bookings of the API in the views\<close>

definition view_json :: "booking_view \<Rightarrow> jv" where
  "view_json v = JObj [(''id'', JStr (bv_id v)), (''booking_id'', JStr (bv_id v)), (''status'', JStr (booking_status_text (bv_status v))),
     (''version'', num (bv_version v)), (''client_timezone'', JStr (bv_tz v)),
     (''slot_start_utc'', JStr (toISOString (bv_start v))), (''slot_end_utc'', JStr (toISOString (bv_end v)))]"

text \<open>The route \<open>GET /bookings\<close>.\<close>

definition list_api :: "web_host \<Rightarrow> 'q env \<Rightarrow> 'q world net" where
  "list_api H e req w = (if rq_method req = ''GET'' \<and> rq_path req = ''/bookings''
     then answer H 200 (\<lambda>vs. JArr (map view_json vs)) (ctl_listBookings (map_of (rq_headers req) ''cookie'') e w)
     else (Inr (nest_reply H 404 (Inl (not_found (''Cannot '' @ rq_method req @ '' '' @ rq_path req)))), w))"

text \<open>Texts that end in two Zs are no dates.\<close>

definition no_double_zone :: "web_host \<Rightarrow> bool" where
  "no_double_zone H \<longleftrightarrow> (\<forall>t. date_value H (JStr (toISOString t @ ''Z'')) = None)"

lemma load_bookings:
  assumes "calendar_load H (browser cookie (list_api H e)) pg w = (pg', w')"
  shows "\<exists>vs. cp_bookings pg' = map view_json vs \<and> cp_filter pg' = cp_filter pg
    \<and> (\<forall>us. fst (ctl_listBookings (truthy cookie) e w) = Inr us \<longrightarrow> vs = us)"
proof -
  have hdr: "map_of (json_header @ forward_cookie cookie) ''cookie'' = truthy cookie"
    by (auto simp: json_header_def forward_cookie_def split: option.splits)
  obtain r w1 where run: "ctl_listBookings (truthy cookie) e w = (r, w1)" by fastforce
  have net: "browser cookie (list_api H e) (build_request ''/bookings'' get_options) w
      = (Inr (nest_reply H 200 (case r of Inl x \<Rightarrow> Inl x | Inr vs \<Rightarrow> Inr (JArr (map view_json vs)))), w1)"
    using hdr by (simp add: browser_def build_request_def get_options_def list_api_def json_header_def run answer_def)
  show ?thesis
  proof (cases r)
    case (Inr vs)
    then show ?thesis using assms
      by (auto simp: calendar_load_def load_list_def apiFetch_def net nest_reply_def http_ok_def Let_def run)
  next
    case (Inl x)
    then have "cp_bookings pg' = map view_json [] \<and> cp_filter pg' = cp_filter pg"
      using assms by (auto simp: calendar_load_def load_list_def apiFetch_def net nest_reply_def http_ok_def Let_def
          split: if_splits exn.splits)
    then show ?thesis by (auto simp: run Inl)
  qed
qed

lemma js_filter_const: "(\<And>x. x \<in> set xs \<Longrightarrow> p x = Inr b) \<Longrightarrow> js_filter p xs = Inr (if b then xs else [])"
  by (induction xs) auto

lemma view_start: "start_value (view_json v) = Inr (Some (JStr (toISOString (bv_start v))))"
  by (simp add: start_value_def view_json_def toISOString_def)

text \<open>C40. With the bookings the API lists, the month view is empty: it appends a Z to texts that end in one, so every start is
  no date and no cell of any month shows a booking, while the agenda lists them all; for the same reason
  My Bookings shows \<open>Invalid Date\<close> for each of them. A type filter hides every booking everywhere.\<close>

theorem calendar_month_view_empty:
  assumes "no_double_zone H" "calendar_load H (browser cookie (list_api H e)) pg w = (pg', w')"
  shows "(cp_filter pg = [] \<longrightarrow> agenda H pg' = Inr (cp_bookings pg') \<and> month_cell H B pg' d = Inr [])
    \<and> (\<forall>b \<in> set (cp_bookings pg'). \<exists>s. start_value b = Inr (Some (JStr s)) \<and> formatClientShort H s = ''Invalid Date'')
    \<and> (to_lower H [] = [] \<longrightarrow> to_lower H (cp_filter pg) \<noteq> [] \<longrightarrow> agenda H pg' = Inr [])"
proof -
  obtain vs where vs: "cp_bookings pg' = map view_json vs" "cp_filter pg' = cp_filter pg"
    using load_bookings [OF assms(2)] by blast
  have cell: "in_month_cell H B pg' d b = Inr False" if "b \<in> set (map view_json vs)" for b
    using that assms(1) by (auto simp: in_month_cell_def month_start_of_def view_start no_double_zone_def)
  have all: "agenda H pg' = Inr (map view_json vs)" if "cp_filter pg = []"
    using that by (simp add: agenda_def visibleBookings_def vs js_filter_const [of _ _ True])
  have "month_cell H B pg' d = Inr []" if "cp_filter pg = []"
    using all [OF that] js_filter_const [of "map view_json vs" "in_month_cell H B pg' d" False, OF cell]
    by (simp add: month_cell_def agenda_def)
  moreover have "agenda H pg' = Inr []" if low: "to_lower H [] = []" "to_lower H (cp_filter pg) \<noteq> []"
  proof -
    have f: "cp_filter pg \<noteq> []" using low by metis
    have e: "member ''eventType'' (Some (view_json v)) = Inr None" "member ''event_type'' (Some (view_json v)) = Inr None" for v
      by (simp_all add: view_json_def)
    show ?thesis
      using f unfolding agenda_def visibleBookings_def vs
      by (subst js_filter_const [where b = False]) (auto simp: e empty_text_def low)
  qed
  ultimately show ?thesis
    using all assms(1) by (auto simp: vs view_start formatClientShort_def no_double_zone_def)
qed

lemma demo_no_double_zone: "no_double_zone demo_web"
proof -
  have "toISOString t @ ''Z'' \<noteq> s @ ''0Z''" for t s
    by (auto simp: toISOString_def dest: arg_cong [where f = "\<lambda>x. hd (tl (rev x))"])
  from this [of _ "''2026-11-01T16:00:00.00''"] this [of _ "''2026-11-02T16:00:00.00''"]
  show ?thesis by (auto simp: no_double_zone_def demo_web_def)
qed

theorem calendar_month_view_empty_witness:
  "case calendar_load demo_web (browser demo_session (list_api demo_web demo_env)) november demo_world of
     (pg', w') \<Rightarrow> month_cell demo_web utc_clock pg' 1 = Inr [] \<and> agenda demo_web pg' = Inr (cp_bookings pg')
       \<and> length (cp_bookings pg') = 1"
proof -
  obtain pg' w' where run: "calendar_load demo_web (browser demo_session (list_api demo_web demo_env)) november demo_world = (pg', w')"
    by fastforce
  have "map_sum id length (fst (ctl_listBookings (truthy demo_session) demo_env demo_world)) = Inr 1" by code_simp
  then have "length (cp_bookings pg') = 1"
    using load_bookings [OF run] by (cases "fst (ctl_listBookings (truthy demo_session) demo_env demo_world)") auto
  moreover have "cp_filter november = []" by (simp add: november_def)
  ultimately show ?thesis using calendar_month_view_empty [OF demo_no_double_zone run] by (simp add: run)
qed

end
