(* ===== verification/Web_Form.thy ===== *)
theory Web_Form
  imports Web_Pages
begin

text \<open>
  The form \<^verbatim>\<open>apps/web/src/components/NewAppointmentForm.tsx\<close>, from the slots it offers to the booking the API
  stores: the validation of its request by \<^verbatim>\<open>apps/api/src/bookings/dto/create-booking.dto.ts\<close> and the controller's
  answer. What an e-mail address is for the validator, the length it counts and local dates come from the platform.
\<close>

subsection \<open>The slots it offers\<close>

record form_host = directory_host +
  is_email :: "string \<Rightarrow> bool"
  text_length :: "string \<Rightarrow> nat"
  local_date :: "string \<Rightarrow> int \<Rightarrow> js_error + string"
  browser_zone :: string

text \<open>\<open>groups[d] ||= []; groups[d].push(x)\<close> on an object whose keys keep the order they came in.\<close>

fun group_add :: "'k \<Rightarrow> 'a \<Rightarrow> ('k \<times> 'a list) list \<Rightarrow> ('k \<times> 'a list) list" where
  "group_add d x [] = [(d, [x])]"
| "group_add d x ((d', xs) # gs) = (if d' = d then (d', xs @ [x]) # gs else (d', xs) # group_add d x gs)"

definition group_slots :: "('a \<Rightarrow> 'k) \<Rightarrow> 'a list \<Rightarrow> ('k \<times> 'a list) list" where
  "group_slots f xs = foldl (\<lambda>gs x. group_add (f x) x gs) [] xs"

definition slot_start_of :: "jv \<Rightarrow> js_error + js" where
  "slot_start_of s = first_true [member ''slot_start_utc'' (Some s), member ''slotStartUtc'' (Some s)]"

definition slot_instant :: "web_host \<Rightarrow> jv \<Rightarrow> js_error + int option" where
  "slot_instant H s = sbind (slot_start_of s) (\<lambda>x. Inr (case x of None \<Rightarrow> None | Some v \<Rightarrow> date_value H v))"

text \<open>An open slot in the future. A start that is no date is not after now.\<close>

definition offered :: "web_host \<Rightarrow> int \<Rightarrow> jv \<Rightarrow> js_error + bool" where
  "offered H n s = sbind (first_true [member ''status'' (Some s), member ''slot_status'' (Some s), Inr (Some (JStr ''open''))]) (\<lambda>st.
     if st \<noteq> Some (JStr ''open'') then Inr False
     else sbind (slot_instant H s) (\<lambda>t. Inr (case t of None \<Rightarrow> False | Some t \<Rightarrow> n < t)))"

definition slot_day :: "form_host \<Rightarrow> string \<Rightarrow> jv \<Rightarrow> js_error + string \<times> jv" where
  "slot_day H tz s = sbind (slot_instant (web_host.truncate H) s) (\<lambda>t. case t of None \<Rightarrow> Inl Range_Error
     | Some t \<Rightarrow> sbind (local_date H tz t) (\<lambda>d. Inr (d, s)))"

definition grouped_slots :: "form_host \<Rightarrow> string \<Rightarrow> int \<Rightarrow> jv \<Rightarrow> js_error + (string \<times> jv list) list" where
  "grouped_slots H tz n data = sbind (member ''slots'' (Some data)) (\<lambda>ss.
     case (if js_true ss then ss else Some (JArr [])) of
       Some (JArr xs) \<Rightarrow> sbind (js_filter (offered (web_host.truncate H) n) xs) (\<lambda>openSlots.
         sbind (js_map (slot_day H tz) openSlots) (\<lambda>ds.
         Inr (map (\<lambda>(d, ps). (d, map snd ps)) (group_slots fst ds))))
     | _ \<Rightarrow> Inl Type_Error)"

text \<open>Grouping keeps every slot, once, under its day, in the order given.\<close>

lemma map_of_group_add:
  "map_of (group_add d x gs) k = (if k = d then Some ((case map_of gs d of None \<Rightarrow> [] | Some xs \<Rightarrow> xs) @ [x]) else map_of gs k)"
  by (induction gs) auto

lemma group_add_keys: "set (map fst (group_add d x gs)) = insert d (set (map fst gs))"
proof -
  have "dom (map_of (group_add d x gs)) = insert d (dom (map_of gs))"
    by (auto simp: dom_def map_of_group_add)
  then show ?thesis by (simp add: dom_map_of_conv_image_fst)
qed

lemma distinct_group_add: "distinct (map fst gs) \<Longrightarrow> distinct (map fst (group_add d x gs))"
proof (induction gs)
  case (Cons g gs)
  then show ?case using group_add_keys [of d x gs] by (cases g) auto
qed simp

lemma group_slots_spec:
  "distinct (map fst (group_slots f xs))"
  "map_of (group_slots f xs) k = (if k \<in> f ` set xs then Some (filter (\<lambda>x. f x = k) xs) else None)"
proof (induction xs rule: rev_induct)
  case (snoc x xs)
  {
    case 1
    show ?case using distinct_group_add [OF snoc(1)] by (simp add: group_slots_def)
  next
    case 2
    have "filter (\<lambda>y. f y = f x) xs = []" if "f x \<notin> f ` set xs"
      using that by (metis (mono_tags, lifting) filter_False image_eqI)
    then show ?case using snoc(2) by (auto simp: group_slots_def map_of_group_add)
  }
qed (simp_all add: group_slots_def)

subsection \<open>Opening the form\<close>

record form =
  fm_open :: bool
  fm_name :: string
  fm_email :: string
  fm_provider :: js
  fm_grouped :: "(string \<times> jv list) list"
  fm_timezone :: js
  fm_loading :: bool
  fm_submitting :: bool
  fm_error :: string
  fm_success :: string
  fm_slot :: string

definition closed_form :: form where
  "closed_form = \<lparr>fm_open = False, fm_name = [], fm_email = [], fm_provider = Some (JStr []), fm_grouped = [],
     fm_timezone = Some (JStr ''UTC''), fm_loading = False, fm_submitting = False, fm_error = [], fm_success = [], fm_slot = []\<rparr>"

definition get_request :: "string \<Rightarrow> request" where
  "get_request path = \<lparr>rq_method = ''GET'', rq_path = path, rq_headers = [], rq_body = None\<rparr>"

definition plain_get :: fetch_options where
  "plain_get = \<lparr>fo_method = ''GET'', fo_body = None, fo_headers = [], fo_key = None\<rparr>"

text \<open>The second request of \<open>onOpen\<close>: the provider's availability.\<close>

definition load_slots :: "form_host \<Rightarrow> 's net \<Rightarrow> js \<Rightarrow> string \<Rightarrow> int \<Rightarrow> form \<Rightarrow> 's \<Rightarrow> form \<times> 's" where
  "load_slots H F pid tz n fm s =
     (let failed = fm\<lparr>fm_loading := False, fm_error := ''Failed to load slots''\<rparr> in
      case apiFetch F (''/providers/'' @ js_string H pid @ ''/availability?tz='' @ encodeURIComponent tz) plain_get s of
        (Inl _, s') \<Rightarrow> (failed, s')
      | (Inr res, s') \<Rightarrow> (case ht_json res of None \<Rightarrow> (failed, s')
          | Some data \<Rightarrow> (case grouped_slots H tz n data of Inl _ \<Rightarrow> (failed, s')
              | Inr gs \<Rightarrow> (fm\<lparr>fm_grouped := gs, fm_loading := False\<rparr>, s'))))"

definition form_onOpen :: "form_host \<Rightarrow> 's net \<Rightarrow> int \<Rightarrow> form \<Rightarrow> 's \<Rightarrow> form \<times> 's" where
  "form_onOpen H F n fm s =
     (let fm0 = fm\<lparr>fm_open := True, fm_error := [], fm_success := [], fm_slot := [], fm_loading := True\<rparr>;
          idle_form = fm0\<lparr>fm_loading := False\<rparr> in
      case F (get_request ''/providers/me'') s of
        (Inl _, s') \<Rightarrow> (idle_form, s')
      | (Inr res, s') \<Rightarrow> if http_ok res \<and> ht_json res = None then (idle_form, s')
          else (let p = (if http_ok res then ht_json res else Some JNull) in
            case sbind (maybe_member ''id'' p) (\<lambda>i. sbind (maybe_member ''timezone'' p) (\<lambda>z. Inr (i, z))) of
              Inl _ \<Rightarrow> (idle_form, s')
            | Inr (i, z) \<Rightarrow>
                (let fm1 = fm0\<lparr>fm_provider := (if js_true i then i else fm_provider fm0),
                       fm_timezone := (if js_true z then z else fm_timezone fm0)\<rparr>;
                     tz = (if js_true z then js_string H z else or_else (Some (browser_zone H)) ''UTC'') in
                 if js_true i then load_slots H F i tz n fm1 s' else (fm1\<lparr>fm_loading := False\<rparr>, s'))))"

subsection \<open>Sending the form\<close>

text \<open>\<open>/\s/\<close> matches nowhere.\<close>

definition no_space :: "string \<Rightarrow> bool" where
  "no_space s \<longleftrightarrow> (let bytes = map of_char s in list_all (\<lambda>i. strip_one js_space (drop i bytes) = None) [0..<length bytes])"

text \<open>The pattern \<open>/^[^\s@]+@[^\s@]+\.[^\s@]+$/\<close>.\<close>

definition email_pattern :: "string \<Rightarrow> bool" where
  "email_pattern s \<longleftrightarrow> no_space s \<and>
     (case split_on (CHR ''@'') s of [a, d] \<Rightarrow> a \<noteq> [] \<and> list_ex (\<lambda>i. d ! i = CHR ''.'') [1..<length d - 1] | _ \<Rightarrow> False)"

definition form_complaint :: "form \<Rightarrow> string option" where
  "form_complaint fm =
     (if trim (fm_name fm) = [] \<or> trim (fm_email fm) = [] then Some ''Name and email required''
      else if \<not> email_pattern (fm_email fm) then Some ''Invalid email''
      else if fm_slot fm = [] then Some ''Select a time slot'' else None)"

definition form_body :: "form \<Rightarrow> jv" where
  "form_body fm = written [(''slot_id'', Some (JStr (fm_slot fm))), (''client_name'', Some (JStr (fm_name fm))),
     (''email'', Some (JStr (fm_email fm))), (''client_timezone'', fm_timezone fm)]"

definition form_options :: "form \<Rightarrow> fetch_options" where
  "form_options fm = \<lparr>fo_method = ''POST'', fo_body = Some (form_body fm), fo_headers = json_header, fo_key = None\<rparr>"

text \<open>The answer: \<open>data.bookingId || data.id\<close> of a body that is \<open>{}\<close> when it is no JSON; the message of an error may be any value.\<close>

definition answered :: "form_host \<Rightarrow> http \<Rightarrow> form \<Rightarrow> form" where
  "answered H res fm = (let data = (case ht_json res of None \<Rightarrow> Some (JObj []) | Some d \<Rightarrow> Some d) in
     case sbind (first_true [member ''bookingId'' data, member ''id'' data]) (\<lambda>i. sbind (member ''error'' data) (\<lambda>m. Inr (i, m))) of
       Inl _ \<Rightarrow> fm\<lparr>fm_error := ''Cannot read properties of null (reading 'bookingId')''\<rparr>
     | Inr (i, m) \<Rightarrow>
         if js_true i then fm\<lparr>fm_success := ''Appointment scheduled'', fm_name := [], fm_email := [], fm_slot := []\<rparr>
         else fm\<lparr>fm_error := (if js_true m then js_string H m else ''Scheduling failed'')\<rparr>)"

definition handleSubmit :: "form_host \<Rightarrow> 's net \<Rightarrow> form \<Rightarrow> 's \<Rightarrow> form \<times> 's" where
  "handleSubmit H F fm s =
     (let fm0 = fm\<lparr>fm_error := [], fm_success := []\<rparr> in
      case form_complaint fm of Some m \<Rightarrow> (fm0\<lparr>fm_error := m\<rparr>, s)
      | None \<Rightarrow> (case apiFetch F ''/bookings'' (form_options fm) s of
          (Inl m, s') \<Rightarrow> (fm0\<lparr>fm_error := (if m = [] then ''Network error'' else m), fm_submitting := False\<rparr>, s')
        | (Inr res, s') \<Rightarrow> ((answered H res fm0)\<lparr>fm_submitting := False\<rparr>, s')))"

subsection \<open>The API behind it\<close>

text \<open>The validator: an optional field is absent, \<open>null\<close> or a text that passes.\<close>

definition optional_text :: "(string \<Rightarrow> bool) \<Rightarrow> string \<Rightarrow> jv \<Rightarrow> bool" where
  "optional_text p k v = (case member k (Some v) of Inr None \<Rightarrow> True | Inr (Some JNull) \<Rightarrow> True | Inr (Some (JStr s)) \<Rightarrow> p s | _ \<Rightarrow> False)"

definition text_at :: "string \<Rightarrow> jv \<Rightarrow> string option" where
  "text_at k v = (case member k (Some v) of Inr (Some (JStr s)) \<Rightarrow> Some s | _ \<Rightarrow> None)"

definition CreateBookingDto :: "form_host \<Rightarrow> jv \<Rightarrow> create_body option" where
  "CreateBookingDto H v =
     (case text_at ''slot_id'' v of None \<Rightarrow> None
      | Some slot \<Rightarrow>
          if slot \<noteq> [] \<and> optional_text (\<lambda>s. text_length H s \<le> 100) ''client_name'' v \<and> optional_text (is_email H) ''email'' v
            \<and> optional_text (\<lambda>s. text_length H s \<le> 500) ''notes'' v \<and> optional_text (\<lambda>_. True) ''event_type_id'' v
            \<and> optional_text (\<lambda>_. True) ''idempotency_key'' v \<and> optional_text (\<lambda>_. True) ''client_timezone'' v
            \<and> optional_text (\<lambda>_. True) ''timezone'' v
          then Some \<lparr>cb_slot = slot, cb_event_type = text_at ''event_type_id'' v, cb_key = text_at ''idempotency_key'' v,
            cb_tz = text_at ''client_timezone'' v\<rparr>
          else None)"

definition created_json :: "booking_result \<Rightarrow> jv" where
  "created_json r = (if res_status r = 201
     then written [(''status'', Some (num 201)), (''bookingId'', map_option JStr (res_booking r)), (''replay'', Some (JBool (res_replay r)))]
     else refusal (res_status r) (or_else (res_error r) ''Bad request''))"

text \<open>The route \<open>POST /bookings\<close>, the only one the form changes anything by.\<close>

definition create_api :: "form_host \<Rightarrow> 'q env \<Rightarrow> bool \<Rightarrow> 'q world net" where
  "create_api H e q req w = (let W = web_host.truncate H in
     if rq_method req = ''POST'' \<and> rq_path req = ''/bookings''
     then (case (case rq_body req of None \<Rightarrow> None | Some v \<Rightarrow> CreateBookingDto H v) of
         None \<Rightarrow> (Inr (nest_reply W 400 (Inl (bad_request ''Bad Request''))), w)
       | Some body \<Rightarrow> answer W 201 created_json
           (ctl_createBooking body (map_of (rq_headers req) ''idempotency-key'') (map_of (rq_headers req) ''cookie'') q e w))
     else (Inr (nest_reply W 404 (Inl (not_found (''Cannot '' @ rq_method req @ '' '' @ rq_path req)))), w))"

subsection \<open>What a success means\<close>

lemma wp_both: "wp m Q E e w \<Longrightarrow> wp m Q' E' e w \<Longrightarrow> wp m (\<lambda>r w'. Q r w' \<and> Q' r w') (\<lambda>x w'. E x w' \<and> E' x w') e w"
  by (simp add: wp_def split: prod.splits sum.splits)

text \<open>Without a key nothing is replayed.\<close>

lemma wp_create_no_replay:
  assumes "idle T w" "pool_pins e" "keys_ok T" "rq_key req = None"
  shows "wp (createBooking req nowUtc q) (\<lambda>r _. res_status r = 201 \<longrightarrow> \<not> res_replay r) (\<lambda>_ _. True) e w"
  unfolding createBooking_def
  apply simp
  apply (rule wp_effective_now)
  apply (rule wp_configured_notice [OF assms(1)])
  apply (rule wp_event_type_check, assumption)
   apply (simp only: option.case)
   apply (simp add: idempotency_check_def assms(4))
   apply (rule wp_mono [OF wp_booking_transaction [OF _ assms(2,3)]], assumption)
    apply (auto simp: failed_def created_def)[1]
   apply (rule wp_mono [OF wp_booking_failure], assumption)
    apply simp_all
  done

definition booked_for :: "string \<Rightarrow> string \<Rightarrow> tables \<Rightarrow> tables \<Rightarrow> bool" where
  "booked_for slot client T T' \<longleftrightarrow> (\<exists>b \<in> set (bookings T'). b_id b \<notin> b_id ` set (bookings T) \<and> b_slot b = slot
     \<and> b_client b = client \<and> live b)"

lemma booking_done_for:
  assumes "booking_done req e c h q T b w"
  shows "booked_for (rq_slot req) (rq_client req) T (committed w)"
proof -
  obtain T1 T' where T: "booked req (clock_ms e) c h T b T1" "same_core T1 T'" "idle T' w"
    using assms by (auto simp: booking_done_def)
  obtain n where b: "b = new_booking (rq_slot req) (rq_client req) (rq_tz req) (truthy (rq_provider req))
      (truthy (rq_event_type req)) 1 n (b_id b)" "b_id b \<notin> b_id ` set (bookings T)"
    using T(1) unfolding booked_def by blast
  have f: "b_slot b = rq_slot req" "b_client b = rq_client req" "live b"
    by (subst b(1), simp add: new_booking_def live_def)+
  have "b \<in> set (bookings T')" using booked_core [OF T(1,2)] by (auto simp: with_booking_def)
  then show ?thesis using f b(2) T(3) by (auto simp: booked_for_def idle_committed)
qed

lemma booked_for_same: "same_booking_tables t t' \<Longrightarrow> booked_for slot client T t \<Longrightarrow> booked_for slot client T t'"
  by (simp add: booked_for_def same_booking_tables_def)

lemma wp_ctl_create_success:
  assumes "idle T w" "pool_pins e" "keys_ok T" "cb_key body = None"
  shows "wp (ctl_createBooking body None cookie q)
    (\<lambda>r w'. res_status r = 201 \<longrightarrow> (\<exists>c. extractClientFromCookie cookie = Some c \<and> booked_for (cb_slot body) c T (committed w')))
    (\<lambda>_ _. True) e w"
proof (cases "extractClientFromCookie cookie")
  case None
  then show ?thesis by (simp add: ctl_createBooking_def)
next
  case (Some client)
  let ?req = "create_request body None client"
  have req: "rq_key ?req = None" "rq_slot ?req = cb_slot body" "rq_client ?req = client"
    using assms(4) by (simp_all add: create_request_def)
  have create: "wp (createBooking ?req n q) (\<lambda>r w'. res_status r = 201 \<longrightarrow> booked_for (cb_slot body) client T (committed w'))
      (\<lambda>_ _. True) e w" for n
    using wp_both [OF wp_createBooking [OF assms(1-3), of ?req n q] wp_create_no_replay [OF assms(1-3) req(1), of n q]]
    by (rule wp_mono) (auto simp: booking_outcome_def new_booking_response_def dest!: booking_done_for [of ?req, unfolded req])
  let ?ok = "\<lambda>r w'. res_status r = 201 \<longrightarrow> booked_for (cb_slot body) client T (committed w')"
  have notify: "wp (notify_provider ?req r) (\<lambda>_. ?ok r) (\<lambda>_. ?ok r) e w1" if "?ok r w1" for r w1
    unfolding wp_snd using that booked_for_same [OF notify_committed] by blast
  have reply: "wp (create_reply r) ?ok (\<lambda>_ _. True) e w1" if "?ok r w1" for r w1
    unfolding create_reply_def Let_def using that by (simp add: failed_def)
  have "wp (ctl_createBooking body None cookie q) ?ok (\<lambda>_ _. True) e w"
    unfolding ctl_createBooking_def Let_def Some option.case
    apply (intro wp_cases)
     apply simp
    apply simp
    apply (rule wp_mono [OF create])
     apply (rule wp_mono [OF notify], assumption)
      apply (erule reply)
     apply simp_all
    done
  then show ?thesis using Some by (rule_tac wp_mono) auto
qed

subsection \<open>From the form to the booking\<close>

definition form_request :: "string option \<Rightarrow> form \<Rightarrow> request" where
  "form_request cookie fm = \<lparr>rq_method = ''POST'', rq_path = ''/bookings'',
     rq_headers = json_header @ json_header @ forward_cookie cookie, rq_body = Some (form_body fm)\<rparr>"

lemma form_sends: "browser cookie F (build_request ''/bookings'' (form_options fm)) = F (form_request cookie fm)"
  by (rule ext) (simp add: browser_def build_request_def form_options_def form_request_def json_header_def)

lemma form_headers:
  "map_of (rq_headers (form_request cookie fm)) ''idempotency-key'' = None"
  "map_of (rq_headers (form_request cookie fm)) ''cookie'' = truthy cookie"
  by (auto simp: form_request_def json_header_def forward_cookie_def split: option.splits)

definition acceptable :: "form_host \<Rightarrow> form \<Rightarrow> bool" where
  "acceptable H fm \<longleftrightarrow> form_complaint fm = None \<and> CreateBookingDto H (form_body fm) \<noteq> None"

lemma form_dto:
  assumes "CreateBookingDto H (form_body fm) = Some body"
  shows "body = \<lparr>cb_slot = fm_slot fm, cb_event_type = None, cb_key = None,
      cb_tz = (case fm_timezone fm of Some (JStr z) \<Rightarrow> Some z | _ \<Rightarrow> None)\<rparr>"
proof -
  have at: "text_at ''slot_id'' (form_body fm) = Some (fm_slot fm)" "text_at ''event_type_id'' (form_body fm) = None"
    "text_at ''idempotency_key'' (form_body fm) = None"
    "text_at ''client_timezone'' (form_body fm) = (case fm_timezone fm of Some (JStr z) \<Rightarrow> Some z | _ \<Rightarrow> None)"
    by (cases "fm_timezone fm"; simp add: text_at_def form_body_def written_def split: jv.split)+
  then show ?thesis using assms by (auto simp: CreateBookingDto_def at split: if_splits)
qed

lemma form_api:
  "create_api H e q (form_request cookie fm) w = (case CreateBookingDto H (form_body fm) of
      None \<Rightarrow> (Inr (nest_reply (web_host.truncate H) 400 (Inl (bad_request ''Bad Request''))), w)
    | Some body \<Rightarrow> answer (web_host.truncate H) 201 created_json (ctl_createBooking body None (truthy cookie) q e w))"
  unfolding create_api_def Let_def form_headers by (simp add: form_request_def)

text \<open>Only the answer of a booking made carries an identifier.\<close>

lemma answered_success:
  assumes "fm_success (answered H (nest_reply W ok (case r of Inl x \<Rightarrow> Inl x | Inr a \<Rightarrow> Inr (created_json a))) fm) \<noteq> []"
    and "fm_success fm = []"
  shows "\<exists>a. r = Inr a \<and> res_status a = 201"
proof (cases r)
  case (Inl x)
  then show ?thesis using assms by (cases x) (simp_all add: nest_reply_def answered_def Let_def)
next
  case (Inr a)
  show ?thesis
  proof (rule ccontr)
    assume "\<not> ?thesis"
    with Inr have "created_json a = refusal (res_status a) (or_else (res_error a) ''Bad request'')"
      by (simp add: created_json_def)
    with Inr assms show False by (simp add: nest_reply_def answered_def Let_def refusal_def)
  qed
qed

lemma handleSubmit_run:
  assumes "handleSubmit H (browser cookie (create_api H e q)) fm w = (fm', w')" "form_complaint fm = None"
  shows "w' = snd (create_api H e q (form_request cookie fm) w)"
    "fm_success fm' \<noteq> [] \<Longrightarrow> \<exists>res. fst (create_api H e q (form_request cookie fm) w) = Inr res
      \<and> fm_success (answered H res (fm\<lparr>fm_error := [], fm_success := []\<rparr>)) \<noteq> []"
  using assms by (auto simp: handleSubmit_def apiFetch_def form_sends Let_def split: prod.splits sum.splits if_splits)

lemma form_success_booked:
  assumes "idle T w" "pool_pins e" "keys_ok T"
    and "handleSubmit H (browser cookie (create_api H e q)) fm w = (fm', w')" "fm_success fm' \<noteq> []"
  shows "\<exists>c. extractClientFromCookie (truthy cookie) = Some c \<and> booked_for (fm_slot fm) c T (committed w')"
proof -
  have ok: "form_complaint fm = None" using assms(4,5) by (auto simp: handleSubmit_def Let_def split: option.splits)
  obtain res where res: "fst (create_api H e q (form_request cookie fm) w) = Inr res"
    "fm_success (answered H res (fm\<lparr>fm_error := [], fm_success := []\<rparr>)) \<noteq> []"
    using handleSubmit_run(2) [OF assms(4) ok assms(5)] by blast
  show ?thesis
  proof (cases "CreateBookingDto H (form_body fm)")
    case None
    then have "res = nest_reply (web_host.truncate H) 400 (case (Inl (bad_request ''Bad Request'') :: exn + booking_result) of
        Inl x \<Rightarrow> Inl x | Inr a \<Rightarrow> Inr (created_json a))"
      using res(1) by (simp add: form_api)
    then show ?thesis using answered_success [OF res(2) [unfolded \<open>res = _\<close>]] by simp
  next
    case (Some body)
    note body = form_dto [OF Some]
    obtain r w1 where run: "ctl_createBooking body None (truthy cookie) q e w = (r, w1)" by fastforce
    have "res = nest_reply (web_host.truncate H) 201 (case r of Inl x \<Rightarrow> Inl x | Inr a \<Rightarrow> Inr (created_json a))" "w' = w1"
      using res(1) handleSubmit_run(1) [OF assms(4) ok] by (simp_all add: form_api Some run answer_def)
    moreover obtain a where "r = Inr a" "res_status a = 201"
      using answered_success [OF res(2) [unfolded calculation(1)]] by auto
    ultimately show ?thesis
      using wp_ctl_create_success [OF assms(1-3), of body "truthy cookie" q] run by (simp add: wp_def body)
  qed
qed


subsection \<open>A concrete form\<close>

definition demo_form_host :: form_host where
  "demo_form_host = directory_host.extend demo_directory_host
     (form_host.fields (\<lambda>s. CHR ''@'' \<in> set s) length (\<lambda>_ _. Inr ''11/02/2026'') ''UTC'')"

definition session_uuid :: string where
  "session_uuid = ''01234567-89ab-cdef-0123-456789abcdef''"

definition uuid_tables :: tables where
  "uuid_tables = demo_tables\<lparr>clients := clients demo_tables
     @ [\<lparr>c_id = session_uuid, c_email = ''u@x.org'', c_name = ''Uma'', c_company = [], c_opt_out = False\<rparr>]\<rparr>"

definition uuid_world :: "unit world" where
  "uuid_world = demo_world\<lparr>tabs := uuid_tables\<rparr>"

definition uuid_session :: "string option" where
  "uuid_session = Some (''chronos_session='' @ session_uuid)"

definition demo_form :: form where
  "demo_form = closed_form\<lparr>fm_open := True, fm_name := ''Eve'', fm_email := ''eve@x.org'', fm_slot := ''s2''\<rparr>"

lemma demo_form_complaint: "form_complaint demo_form = None" by code_simp

lemma demo_form_dto: "CreateBookingDto demo_form_host (form_body demo_form)
    = Some \<lparr>cb_slot = ''s2'', cb_event_type = None, cb_key = None, cb_tz = Some ''UTC''\<rparr>"
  by code_simp

lemma demo_create:
  "map_sum id (\<lambda>r. (res_status r, res_booking r \<notin> {None, Some []})) (fst (ctl_createBooking \<lparr>cb_slot = ''s2'', cb_event_type = None, cb_key = None, cb_tz = Some ''UTC''\<rparr>
     None uuid_session False demo_env uuid_world)) = Inr (201, True)"
  by code_simp

lemma uuid_idle: "idle uuid_tables uuid_world"
  by (simp add: idle_def uuid_world_def demo_world_def)

lemma uuid_keys: "keys_ok uuid_tables"
  by code_simp

lemma demo_submit:
  "fm_success (fst (handleSubmit demo_form_host (browser uuid_session (create_api demo_form_host demo_env False)) demo_form uuid_world))
     = ''Appointment scheduled''"
proof -
  let ?body = "\<lparr>cb_slot = ''s2'', cb_event_type = None, cb_key = None, cb_tz = Some ''UTC''\<rparr>"
  obtain r w1 where run: "ctl_createBooking ?body None uuid_session False demo_env uuid_world = (r, w1)" by fastforce
  obtain a i where a: "r = Inr a" "res_status a = 201" "res_booking a = Some i" "i \<noteq> []"
    using demo_create unfolding run by (cases r) auto
  have "truthy uuid_session = uuid_session" by (simp add: uuid_session_def)
  then have "create_api demo_form_host demo_env False (form_request uuid_session demo_form) uuid_world
      = (Inr (nest_reply (web_host.truncate demo_form_host) 201 (Inr (created_json a))), w1)"
    by (simp add: form_api demo_form_dto run a answer_def)
  then show ?thesis
    by (simp add: handleSubmit_def demo_form_complaint apiFetch_def form_sends Let_def nest_reply_def http_ok_def
        answered_def created_json_def written_def a)
qed


end
