(* ===== verification/Support.thy ===== *)
theory Support
  imports Calendar_Page Web_Form
begin

text \<open>
  Small helpers around the program: the mappers and validators of \<^verbatim>\<open>src/lib\<close>, the figures of
  \<^verbatim>\<open>apps/web/src/lib/analytics/metrics.ts\<close>, the slot resolver, the schema guard, and the structured log, the metrics
  and the spans of \<^verbatim>\<open>apps/api/src/observability\<close> with the interceptor that logs every request. Identifiers
  drawn at random are parameters.
\<close>

subsection \<open>Mapping and validating bookings\<close>

record backend_booking =
  bb_id :: string
  bb_status :: string
  bb_start :: string
  bb_meeting_url :: "string option"
  bb_client_name :: "string option"

record booking_model =
  bm_id :: string
  bm_clientName :: string
  bm_eventType :: string
  bm_status :: string
  bm_location :: string
  bm_startUtc :: string
  bm_durationMin :: int
  bm_meetingUrl :: "string option"

definition em_dash :: string where
  "em_dash = [CHR 0xE2, CHR 0x80, CHR 0x94]"

definition statusMap :: "(string \<times> string) list" where
  "statusMap = [(''booked'', ''confirmed''), (''completed'', ''confirmed''), (''cancelled'', ''cancelled''), (''no_show'', ''cancelled'')]"

definition mapBooking :: "backend_booking \<Rightarrow> booking_model" where
  "mapBooking b = \<lparr>bm_id = bb_id b, bm_clientName = (case bb_client_name b of None \<Rightarrow> em_dash | Some n \<Rightarrow> n),
     bm_eventType = ''Appointment'', bm_status = (case map_of statusMap (bb_status b) of None \<Rightarrow> ''confirmed'' | Some s \<Rightarrow> s),
     bm_location = ''video'', bm_startUtc = bb_start b, bm_durationMin = 30, bm_meetingUrl = bb_meeting_url b\<rparr>"

definition isBookingStatus :: "js \<Rightarrow> bool" where
  "isBookingStatus s \<longleftrightarrow> s \<in> {Some (JStr ''booked''), Some (JStr ''completed''), Some (JStr ''cancelled''), Some (JStr ''no_show'')}"

text \<open>The error, or none. An array is an object too.\<close>

definition validateBookingResponse :: "web_host \<Rightarrow> js \<Rightarrow> string option" where
  "validateBookingResponse H r =
     (case r of
        None \<Rightarrow> Some ''null response''
      | Some JNull \<Rightarrow> Some ''null response''
      | Some (JObj fs) \<Rightarrow>
          (case map_of fs ''id'' of
             Some (JStr _) \<Rightarrow> if isBookingStatus (map_of fs ''status'') then None
               else Some (''bad status: '' @ js_string H (map_of fs ''status''))
           | _ \<Rightarrow> Some ''missing id'')
      | Some (JArr _) \<Rightarrow> Some ''missing id''
      | Some _ \<Rightarrow> Some ''not object'')"

lemma api_bookings_validate: "validateBookingResponse H (Some (view_json v)) = None"
  by (cases "bv_status v") (simp_all add: validateBookingResponse_def view_json_def isBookingStatus_def)

text \<open>The mapper and the appointments route disagree: a booking that was missed is cancelled to the one and completed to
  the other, one that is completed is still confirmed to the mapper.\<close>

lemma mappers_disagree:
  assumes "lowers_ascii H" "bb_status b = booking_status_text st"
  shows "(mapBookingStatus H (Some (JStr (bb_status b))) = Inr (bm_status (mapBooking b))) \<longleftrightarrow> st \<in> {Booked, Cancelled}"
  using mapped_status [OF assms(1), of st] assms(2) by (cases st) (simp_all add: mapBooking_def statusMap_def)

subsection \<open>Figures\<close>

definition status_key :: "web_host \<Rightarrow> string \<Rightarrow> jv \<Rightarrow> js_error + string" where
  "status_key H key it = sbind (first_true [member key (Some it), Inr (Some (JStr ''unknown''))]) (\<lambda>s. Inr (js_string H s))"

text \<open>\<open>out[s] = (out[s] || 0) + 1\<close> on an empty object.\<close>

definition countByStatus :: "web_host \<Rightarrow> string \<Rightarrow> jv list \<Rightarrow> js_error + (string \<times> nat) list" where
  "countByStatus H key items = sbind (js_map (status_key H key) items) (\<lambda>ks.
     Inr (foldl (\<lambda>out s. put_key s ((case map_of out s of None \<Rightarrow> 0 | Some n \<Rightarrow> n) + 1) out) [] ks))"

definition percentChange :: "rat \<Rightarrow> rat \<Rightarrow> rat option" where
  "percentChange current prev =
     (if prev = 0 then (if current = 0 then Some 0 else None)
      else Some (signed_double (of_int (math_round (signed_double (signed_double (signed_double (current - prev) / prev) * 1000))) / 10)))"

lemma count_fold:
  "map_of (foldl (\<lambda>out s. put_key s ((case map_of out s of None \<Rightarrow> 0 | Some n \<Rightarrow> n) + 1) out) [] ks) s
    = (if s \<in> set ks then Some (length (filter ((=) s) ks)) else None)"
  by (induction ks rule: rev_induct) (auto simp: put_key_get filter_empty_conv)

lemma countByStatus_counts:
  assumes "countByStatus H key items = Inr out"
  shows "(case map_of out s of None \<Rightarrow> 0 | Some n \<Rightarrow> n) = length (filter (\<lambda>it. status_key H key it = Inr s) items)"
proof -
  obtain ks where ks: "js_map (status_key H key) items = Inr ks"
    and out: "out = foldl (\<lambda>out s. put_key s ((case map_of out s of None \<Rightarrow> 0 | Some n \<Rightarrow> n) + 1) out) [] ks"
    using assms by (auto simp: countByStatus_def sbind_Inr_iff)
  have "length (filter ((=) s) ks) = length (filter (\<lambda>it. status_key H key it = Inr s) items)"
    using js_map_Inr [OF ks] by (induction rule: list_all2_induct) auto
  moreover have "length (filter ((=) s) ks) = 0" if "s \<notin> set ks" using that by (auto simp: filter_empty_conv)
  ultimately show ?thesis unfolding out count_fold by (cases "s \<in> set ks") (auto simp del: length_0_conv)
qed

subsection \<open>Finding a slot\<close>

text \<open>What \<open>Number\<close> makes of a text, the instant of \<open>Date.UTC\<close> and its text; \<open>NaN\<close> is \<open>None\<close>, and then \<open>toISOString\<close> throws.\<close>

definition utc_text :: "(string \<Rightarrow> int option) \<Rightarrow> string \<Rightarrow> string \<Rightarrow> string option" where
  "utc_text to_int dateStr timeStr =
     (case (map to_int (split_on (CHR ''-'') dateStr), map to_int (split_on (CHR '':'') timeStr)) of
        (Some y # Some m # Some d # _, Some h # Some mi # _) \<Rightarrow>
          Some (toISOString (make_day y (m - 1) d * ms_per_day + (h * 60 + mi) * 60000))
      | _ \<Rightarrow> None)"

definition failure_of :: "http \<Rightarrow> string \<Rightarrow> string" where
  "failure_of res other = (if ht_status res = 401 then ''AUTH_EXPIRED'' else if 500 \<le> ht_status res then ''SERVER_ERROR'' else other)"

text \<open>\<open>slots\<close> is an array where it is there. The identifier is read with \<open>.\<close> or with \<open>?.\<close>.\<close>

definition first_slot :: "(string \<Rightarrow> js \<Rightarrow> js_error + js) \<Rightarrow> jv \<Rightarrow> js_error + js" where
  "first_slot get data = sbind (member ''slots'' (Some data)) (\<lambda>ss. case ss of
     Some (JArr (x # _)) \<Rightarrow> get ''id'' (Some x) | _ \<Rightarrow> Inr None)"

definition has_slots :: "jv \<Rightarrow> js_error + bool" where
  "has_slots data = sbind (member ''slots'' (Some data)) (\<lambda>ss. Inr (case ss of Some (JArr (_ # _)) \<Rightarrow> True | _ \<Rightarrow> False))"

text \<open>\<open>resolveSlot\<close>: the message of an error, or the slot's identifier or \<open>null\<close>.\<close>

definition resolveSlot :: "(string \<Rightarrow> int option) \<Rightarrow> 's net \<Rightarrow> string \<Rightarrow> string \<Rightarrow> 's \<Rightarrow> (string + js) \<times> 's" where
  "resolveSlot to_int F dateStr timeStr s =
     (let js_message = ''Cannot read properties of null'';
          value = (\<lambda>r. case r of Inl _ \<Rightarrow> Inl js_message | Inr v \<Rightarrow> Inr (if js_true v then v else Some JNull)) in
      case utc_text to_int dateStr timeStr of None \<Rightarrow> (Inl ''Invalid time value'', s)
      | Some utc \<Rightarrow> (case F (get_request (''/slots?from='' @ utc @ ''&to='' @ utc)) s of
          (Inl m, s1) \<Rightarrow> (Inl m, s1)
        | (Inr res, s1) \<Rightarrow>
            if \<not> http_ok res then (Inl (failure_of res ''UNAVAILABLE''), s1)
            else (case ht_json res of None \<Rightarrow> (Inl js_message, s1)
              | Some data \<Rightarrow> (case has_slots data of Inl _ \<Rightarrow> (Inl js_message, s1)
                | Inr True \<Rightarrow> (map_sum (\<lambda>_. js_message) id (first_slot member data), s1)
                | Inr False \<Rightarrow> (case F (get_request ''/slots/open'') s1 of
                      (Inl m, s2) \<Rightarrow> (Inl m, s2)
                    | (Inr res2, s2) \<Rightarrow>
                        if \<not> http_ok res2 then (if ht_status res2 = 401 then (Inl ''AUTH_EXPIRED'', s2)
                          else if 500 \<le> ht_status res2 then (Inl ''SERVER_ERROR'', s2) else (Inr (Some JNull), s2))
                        else (case ht_json res2 of None \<Rightarrow> (Inl js_message, s2)
                          | Some data2 \<Rightarrow> (value (first_slot maybe_member data2), s2)))))))"

text \<open>The route \<open>GET /slots\<close>, whatever its query; there is no other route for slots.\<close>

definition slots_api :: "web_host \<Rightarrow> ('a \<Rightarrow> jv) \<Rightarrow> ('q, 'a list) prog \<Rightarrow> 'q env \<Rightarrow> 'q world net" where
  "slots_api H f m e req w = (if rq_method req = ''GET'' \<and> starts_with ''/slots?'' (rq_path req)
     then answer H 200 (\<lambda>ss. JArr (map f ss)) (m e w)
     else (Inr (nest_reply H 404 (Inl (not_found (''Cannot '' @ rq_method req @ '' '' @ rq_path req)))), w))"

text \<open>The API answers with the array of all slots, not an object with \<open>slots\<close>, and has no route for open ones: the resolver
  never finds a slot, however many are open.\<close>

lemma resolver_finds_nothing:
  assumes "slots_findAll e w = (Inr ss, w')"
  shows "resolveSlot to_int (slots_api H f slots_findAll e) dateStr timeStr w
    = (case utc_text to_int dateStr timeStr of None \<Rightarrow> (Inl ''Invalid time value'', w) | Some _ \<Rightarrow> (Inr (Some JNull), w'))"
proof -
  have path: "starts_with ''/slots?'' (''/slots?from='' @ u)" for u by (simp add: starts_with_iff)
  show ?thesis
    by (cases "utc_text to_int dateStr timeStr")
      (simp_all add: resolveSlot_def slots_api_def get_request_def path assms answer_def nest_reply_def http_ok_def has_slots_def
        not_found_def Let_def)
qed

subsection \<open>The schema guard\<close>

text \<open>The names of the exclusion constraints of \<open>slots\<close> and the pairs of table and index in the catalogue.\<close>

definition schemaGuard :: "string list \<Rightarrow> (string \<times> string) list \<Rightarrow> bool" where
  "schemaGuard exclusions indexes \<longleftrightarrow> ''slots_no_overlap'' \<in> set exclusions \<and> (''slots'', ''slots_open_idx'') \<in> set indexes
     \<and> (''bookings'', ''bookings_one_live_per_slot'') \<in> set indexes"

subsection \<open>Logs, metrics and spans\<close>

type_synonym log_fields = "(string \<times> js) list"

text \<open>\<open>{ ...a, ...b }\<close>; the text of an entry leaves out what is \<open>undefined\<close>.\<close>

definition spread :: "log_fields \<Rightarrow> log_fields \<Rightarrow> log_fields" where
  "spread a b = foldl (\<lambda>acc (k, v). put_key k v acc) a b"

record logger =
  lg_context :: log_fields
  lg_correlation :: js

definition field_of :: "string \<Rightarrow> log_fields \<Rightarrow> js" where
  "field_of k c = (case map_of c k of None \<Rightarrow> None | Some v \<Rightarrow> v)"

definition createLogger :: "string \<Rightarrow> log_fields \<Rightarrow> logger" where
  "createLogger uuid ctx = \<lparr>lg_context = ctx,
     lg_correlation = (if js_true (field_of ''correlationId'' ctx) then field_of ''correlationId'' ctx else Some (JStr uuid))\<rparr>"

definition log_entry :: "logger \<Rightarrow> string \<Rightarrow> int \<Rightarrow> string \<Rightarrow> log_fields \<Rightarrow> log_fields \<Rightarrow> jv" where
  "log_entry lg level t msg before extra =
     written (spread (spread ([(''level'', Some (JStr level)), (''time'', Some (JStr (toISOString t))), (''msg'', Some (JStr msg)),
       (''correlationId'', lg_correlation lg)] @ before) extra) (lg_context lg))"

definition log_info :: "logger \<Rightarrow> int \<Rightarrow> string \<Rightarrow> log_fields \<Rightarrow> jv" where
  "log_info lg t msg extra = log_entry lg ''info'' t msg [] extra"

definition log_warn :: "logger \<Rightarrow> int \<Rightarrow> string \<Rightarrow> log_fields \<Rightarrow> jv" where
  "log_warn lg t msg extra = log_entry lg ''warn'' t msg [] extra"

definition log_debug :: "logger \<Rightarrow> int \<Rightarrow> string \<Rightarrow> log_fields \<Rightarrow> jv" where
  "log_debug lg t msg extra = log_entry lg ''debug'' t msg [] extra"

definition log_error :: "logger \<Rightarrow> int \<Rightarrow> string \<Rightarrow> string \<Rightarrow> log_fields \<Rightarrow> jv" where
  "log_error lg t msg err extra = log_entry lg ''error'' t msg [(''error'', Some (JStr err))] extra"

definition child :: "string \<Rightarrow> log_fields \<Rightarrow> logger \<Rightarrow> logger" where
  "child uuid extra lg = createLogger uuid (spread (lg_context lg) extra)"

text \<open>The interceptor: the identifier it sets on the request and the response, and the two entries of a request, whose
  handler ends with a value or the message of an error.\<close>

definition intercept ::
    "string \<Rightarrow> string option \<Rightarrow> string \<Rightarrow> string \<Rightarrow> int \<Rightarrow> int \<Rightarrow> string + 'a \<Rightarrow> string \<times> jv list" where
  "intercept uuid header path method t0 t1 result =
     (let correlationId = or_else header uuid;
          lg = createLogger uuid [(''correlationId'', Some (JStr correlationId)), (''path'', Some (JStr path)), (''method'', Some (JStr method))] in
      (correlationId, [log_info lg t0 ''request started'' [],
         (case result of Inr _ \<Rightarrow> log_info lg t1 ''request completed'' [] | Inl m \<Rightarrow> log_error lg t1 ''request failed'' m [])]))"

lemma map_of_spread: "distinct (map fst b) \<Longrightarrow> map_of (spread a b) k = (case map_of b k of None \<Rightarrow> map_of a k | Some v \<Rightarrow> Some v)"
proof (induction b arbitrary: a)
  case (Cons p b)
  obtain k' v where p: "p = (k', v)" by fastforce
  with Cons.prems have new: "map_of b k' = None" by (simp add: map_of_eq_None_iff)
  have "map_of (spread a (p # b)) k = (case map_of b k of None \<Rightarrow> map_of (put_key k' v a) k | Some x \<Rightarrow> Some x)"
    using Cons.IH [of "put_key k' v a"] Cons.prems by (simp add: spread_def p)
  then show ?case using new by (cases "map_of b k") (auto simp: p put_key_get)
qed (simp add: spread_def)

text \<open>Without an identifier of its own a child of the plain logger draws another one: it cannot be traced to its parent.\<close>

lemma child_loses_correlation:
  "field_of ''correlationId'' extra = None \<Longrightarrow> distinct (map fst extra) \<Longrightarrow>
     lg_correlation (createLogger u []) = Some (JStr u) \<and> lg_correlation (child u' extra (createLogger u [])) = Some (JStr u')"
  by (simp add: createLogger_def child_def field_of_def map_of_spread) (cases "map_of extra ''correlationId''"; simp)

record registry =
  mr_counters :: "string list"
  mr_gauges :: "string list"

definition counter :: "string \<Rightarrow> registry \<Rightarrow> registry" where
  "counter name r = (if name \<in> set (mr_counters r) then r else r\<lparr>mr_counters := mr_counters r @ [name]\<rparr>)"

definition gauge :: "string \<Rightarrow> registry \<Rightarrow> registry" where
  "gauge name r = (if name \<in> set (mr_gauges r) then r else r\<lparr>mr_gauges := mr_gauges r @ [name]\<rparr>)"

definition counter_inc :: "string \<Rightarrow> int \<Rightarrow> int \<Rightarrow> string" where
  "counter_inc name v t = ''METRIC '' @ name @ ''+='' @ int_text v @ '' '' @ toISOString t"

definition gauge_set :: "string \<Rightarrow> int \<Rightarrow> int \<Rightarrow> string" where
  "gauge_set name v t = ''METRIC '' @ name @ ''='' @ int_text v @ '' '' @ toISOString t"

definition initial_registry :: registry where
  "initial_registry = gauge ''reminder_lag_seconds'' (gauge ''materializer_lag_seconds'' (gauge ''booking_latency_seconds''
     (counter ''booking_conflicts_total'' \<lparr>mr_counters = [], mr_gauges = []\<rparr>)))"

record span =
  sp_trace :: string
  sp_id :: string
  sp_name :: string
  sp_start :: int

definition startSpan :: "string \<Rightarrow> string \<Rightarrow> string \<Rightarrow> log_fields \<Rightarrow> int \<Rightarrow> span" where
  "startSpan uuid1 uuid2 name ctx t = \<lparr>sp_trace = (case field_of ''traceId'' ctx of Some (JStr s) \<Rightarrow> if s \<noteq> [] then s else uuid1 | _ \<Rightarrow> uuid1),
     sp_id = uuid2, sp_name = name, sp_start = t\<rparr>"

definition end_span :: "span \<Rightarrow> log_fields \<Rightarrow> int \<Rightarrow> jv" where
  "end_span sp ctx t = written (spread [(''ts'', Some (JStr (toISOString t))),
     (''otel'', Some (JObj [(''traceId'', JStr (sp_trace sp)), (''spanId'', JStr (sp_id sp)), (''name'', JStr (sp_name sp))])),
     (''durationMs'', Some (num (t - sp_start sp)))] ctx)"

subsection \<open>The clock and the label of a zone\<close>

text \<open>\<open>typeof e ? a : b\<close> takes \<open>a\<close> whatever \<open>e\<close> is: \<open>typeof\<close> gives a text that is never empty. Without a global
  \<open>Temporal\<close> the member of \<open>undefined\<close> throws; with one it gives the milliseconds it is given.\<close>

definition typeof_instant :: "bool \<Rightarrow> string" where
  "typeof_instant temporal = (if temporal then ''function'' else ''undefined'')"

definition clock_now :: "bool \<Rightarrow> int \<Rightarrow> js_error + int" where
  "clock_now temporal ms =
     (if typeof_instant temporal \<noteq> [] then (if temporal then Inr ms else Inl Type_Error) else Inr ms)"

theorem clock_needs_temporal: "clock_now temporal ms = (if temporal then Inr ms else Inl Type_Error)"
  by (simp add: clock_now_def typeof_instant_def)

text \<open>The first match of \<open>/GMT([+-]p+)/\<close> in a text.\<close>

fun gmt_match :: "(char \<Rightarrow> bool) \<Rightarrow> string \<Rightarrow> string option" where
  "gmt_match p [] = None"
| "gmt_match p (c # cs) =
     (case drop 2 cs of
        sign # rest \<Rightarrow>
          if starts_with ''GMT'' (c # cs) \<and> sign \<in> {CHR ''+'', CHR ''-''} \<and> takeWhile p rest \<noteq> []
          then Some (sign # takeWhile p rest) else gmt_match p cs
      | [] \<Rightarrow> gmt_match p cs)"

text \<open>\<open>long\<close> and \<open>short\<close> are what the platform writes for the present moment in a zone with those styles of zone names.\<close>

definition formatTimezone :: "(string \<Rightarrow> js_error + string) \<Rightarrow> (string \<Rightarrow> js_error + string) \<Rightarrow> string \<Rightarrow> js_error + string" where
  "formatTimezone long short tz = sbind (long tz) (\<lambda>l.
     sbind (if gmt_match is_digit l \<noteq> None
       then sbind (short tz) (\<lambda>s. Inr (''UTC'' @ (case gmt_match (\<lambda>c. is_digit c \<or> c = CHR '':'') s of None \<Rightarrow> ''undefined'' | Some g \<Rightarrow> g)))
       else Inr ''UTC'') (\<lambda>offset. Inr (tz @ '' ('' @ offset @ '')'')))"

text \<open>A zone the platform abbreviates by letters is labelled \<open>UTCundefined\<close>.\<close>

lemma timezone_label_samples:
  "formatTimezone (\<lambda>_. Inr ''10/5/2026, 3:30:00 PM GMT+05:30'') (\<lambda>_. Inr ''10/5/2026, 3:30:00 PM GMT+5:30'') ''Asia/Kolkata''
     = Inr ''Asia/Kolkata (UTC+5:30)''"
  "formatTimezone (\<lambda>_. Inr ''10/5/2026, 6:00:00 AM GMT-04:00'') (\<lambda>_. Inr ''10/5/2026, 6:00:00 AM EDT'') ''America/New_York''
     = Inr ''America/New_York (UTCundefined)''"
  by code_simp+

lemma timezone_label_undefined:
  assumes "long tz = Inr l" "gmt_match is_digit l = Some g" "short tz = Inr s"
    and "gmt_match (\<lambda>c. is_digit c \<or> c = CHR '':'') s = None"
  shows "formatTimezone long short tz = Inr (tz @ '' (UTCundefined)'')"
  using assms by (simp add: formatTimezone_def)

end
