(* ===== verification/Spec2Isabelle.thy ===== *)
theory Spec2Isabelle
  imports Time_Core Lifecycle Booking_Service Reschedule Booking_Controller Reminder_Worker
    Insights Inbox Contracts Booking_Race Web_Views Web_Dashboard Support
begin

text \<open>
  Verification library of chronos, an appointment scheduling system in TypeScript.

  \<^bold>\<open>The program.\<close> An API server (\<^verbatim>\<open>apps/api/src\<close>, NestJS) keeps providers, their slots, clients, bookings, reminders,
  idempotency keys, notifications and sessions in PostgreSQL and a job queue in Redis. A package computes
  slots from rules in the provider's time zone (\<^verbatim>\<open>packages/time\<close>), another states schemas for what crosses the wire
  (\<^verbatim>\<open>packages/contracts\<close>). A web application (\<^verbatim>\<open>apps/web/src\<close>, Next.js) shows pages to clients and providers; a
  middleware guards its paths, some pages call the API directly and one goes through a route of its own.

  \<^bold>\<open>The model.\<close> A server function is a program (theory \<open>Program\<close>): it maps an environment and a world to a value or an
  exception and the next world. The world has the tables (\<open>Store\<close>), a transaction that may be open, the connections
  taken from the pool and the state of a service behind it. The environment has what lies outside the repository:
  which external call fails, by the number of the call, whether a lost commit took effect, the clock, fresh
  identifiers, whether the pool keeps a transaction on one connection, what the driver returns, the job queue. Every statement
  of the database may therefore fail, and the properties that say \<open>whatever fails\<close> quantify over all
  environments. \<open>wp\<close> and \<open>keeps\<close> are the rules the proofs compose; \<open>Quiet\<close> holds the same for programs that leave slots and
  bookings alone. Exceptions and refusals are values; texts are lists of the bytes of their UTF-8 form; instants are
  milliseconds; untyped JSON is the datatype \<open>jv\<close>, with \<open>undefined\<close> as \<open>None\<close>.

  \<^bold>\<open>Theories and sources.\<close>
  \<^item> \<open>Prelude\<close>, \<open>Calendar\<close>, \<open>Json\<close>, \<open>Codec\<close>: strings, dates, JSON texts, base64, percent encoding and \<open>trim\<close> as the language
    and its library define them.
  \<^item> \<open>Time_Core\<close>: \<^verbatim>\<open>packages/time/src/time-core.ts\<close>. The rules of a zone are the parameter \<open>zone_db\<close>.
  \<^item> \<open>Store\<close>, \<open>Consistency\<close>: the tables of \<^verbatim>\<open>packages/db/migrations/002_phase2_full_schema.sql\<close> with their constraints, the statements, and
    when slot and booking statuses agree.
  \<^item> \<open>Booking_Service\<close>: \<^verbatim>\<open>bookings.service.ts\<close>; \<open>Booking_Race\<close>: the same transaction as a step relation of many requests; \<open>Lifecycle\<close>:
    both \<^verbatim>\<open>lifecycle.service.ts\<close>; \<open>Reschedule\<close>: \<^verbatim>\<open>reschedule.service.ts\<close> and its copy in the contracts; \<open>Booking_Controller\<close>: the handlers.
  \<^item> \<open>Reminder_Queue\<close>, \<open>Reminder_Worker\<close>: \<^verbatim>\<open>apps/api/src/reminders\<close>; \<open>Email\<close>, \<open>Unsubscribe\<close>: \<^verbatim>\<open>apps/api/src/email\<close>.
  \<^item> \<open>Auth\<close>: \<^verbatim>\<open>apps/api/src/auth\<close> and \<^verbatim>\<open>admin\<close>; \<open>Materializer\<close>: \<^verbatim>\<open>apps/api/src/materialize\<close> and \<^verbatim>\<open>packages/db/src/materializer.ts\<close>; \<open>Insights\<close>: reports,
    analytics, billing, dashboard; \<open>Inbox\<close>: notifications and activity; \<open>Directory\<close>: providers, search, availability and the lists.
  \<^item> \<open>Contracts\<close>: \<^verbatim>\<open>packages/contracts/src/index.ts\<close> and \<^verbatim>\<open>ics.ts\<close>.
  \<^item> \<open>Web_Adapter\<close>: \<^verbatim>\<open>middleware.ts\<close>, \<^verbatim>\<open>lib/api.ts\<close>, \<^verbatim>\<open>app/api/appointments/route.ts\<close>; \<open>Web_Pages\<close>: the appointments page with all of this behind
    it; \<open>Web_Form\<close>: the form of a new appointment down to the stored booking; \<open>Calendar_Page\<close>, \<open>Web_Lists\<close>, \<open>Web_Views\<close>: the other pages and panels.
  \<^item> \<open>Web_Session\<close>: the frame of the pages, the pages of reports, analytics and billing, and a browser that carries cookies between
    pages and API; \<open>Web_Dashboard\<close>: the dashboard and the choice of a picture on the settings page.
  \<^item> \<open>Support\<close>: mappers, figures, slot resolver, schema guard, logs, metrics and spans, the clock's source and the label of a zone.

  \<^bold>\<open>What is shown.\<close>
  \<^item> Bookings: creating, moving and changing a booking is all or nothing under any failure; slot and booking statuses stay in
    agreement; no interleaving of requests gives a slot two live bookings; a key replays its own request only; a free slot
    can be booked; finished bookings stay finished; other clients' sessions change nothing.
  \<^item> Time: generated slots are exactly the grid of the days covered, in any zone; when the generator returns; the order of reminders.
  \<^item> Reminders and mail: a claimed reminder is claimed once per lock, processing settles exactly its row and mails the entitled
    client only; values cannot change a mail's markup; unsubscribe tokens are good for their client and seven days.
  \<^item> Sessions: what each guard admits, and that the administrators' guard admits nobody.
  \<^item> Slots, insights, inbox, contracts: materialized slots do not overlap; readings are scoped to their owner and rates lie
    between 0 and 100; rules the contracts accept materialize; statuses agree with the database.
  \<^item> Web: what the pages list, report and lose, composed with the API: refusals shown as successes, cancellations that do nothing, a
    month view that is always empty beside a grid that is right, a form that books for the session, an export that reads back; and over every sequence
    of acts in a browser, that its pages neither obtain nor end a provider's session.
  Facts that contradict a comment, a test or the evident purpose of the code stand as theorems beside those that hold.

  \<^bold>\<open>Interfaces.\<close> \<open>table_invariant\<close> (a predicate every statement keeps is kept by every program; interpreted on the schema's
  constraints), \<open>lease_invariant\<close> (connections taken and released), \<open>job_queue\<close> (what the reminder manager relies on; interpreted
  on a queue that stores its jobs), \<open>zod\<close> (what the schemas rely on), \<open>page_network\<close>
  (what the pages rely on of the API behind them; interpreted on the API with its cookies). Their lemmas reach the properties through these interpretations.

  \<^bold>\<open>Bounds.\<close> Recursions are structural or end by a measure: slot loops by the minutes left, the loop over days by the distance to the
  last date the platform can represent, past which it throws as the platform does. Running a request's phases alone takes at
  most ten steps, the bound \<open>run_phases 10\<close> of the equivalence with the transaction. Rates are computed with the rounding of
  double precision.

  \<^bold>\<open>Limits of the model.\<close> Malformed identifiers the database refuses appear as failing calls only. Prices are whole numbers, rows of equal
  order keep the order of the table, a name that is \<open>null\<close> is the empty text. \<open>JSON.parse\<close> is modelled on flat objects, reading
  the body of an answer does not fail, and concurrency is modelled for creating bookings. State updates of a page are applied in
  the order its handlers make them.

  \<^bold>\<open>Not modelled.\<close> Markup and styling; module wiring, start-up, rate limiting and health; thin wrappers of \<open>Intl\<close>;
  the connection to Redis and its counters; seeds, mock data, fixtures, tests and scripts. None of them carries logic of the program.
\<close>

end
